(* ===== verification/Prelude.thy ===== *)
theory Prelude
  imports Main "HOL-Library.Word"
begin

text \<open>
  Shared vocabulary of the development: the machine integers and byte strings of the Rust
  code, results and panics as values, the byte-order conversions and lower-case hex of the
  standard library, and \<open>HashMap\<close> as an association list behind a map interface.
\<close>

unbundle bit_operations_syntax

section \<open>Types\<close>

type_synonym u8 = "8 word"
type_synonym u16 = "16 word"
type_synonym u32 = "32 word"
type_synonym u64 = "64 word"
type_synonym bytes = "u8 list"

text \<open>
  A Rust \<open>Result<T, E>\<close> is \<open>'e + 't\<close> with \<open>Inl\<close> for \<open>Err\<close>. A computation that may panic
  (index out of range, slice on no character boundary, failed \<open>assert!\<close>) is a \<open>run\<close>.
\<close>

datatype 'a run = Panic | Return 'a

definition run_bind :: "'a run \<Rightarrow> ('a \<Rightarrow> 'b run) \<Rightarrow> 'b run" where
  "run_bind m k = (case m of Panic \<Rightarrow> Panic | Return x \<Rightarrow> k x)"

text \<open>The \<open>?\<close> operator on a fallible computation that may panic.\<close>

definition try_bind :: "('e + 'a) run \<Rightarrow> ('a \<Rightarrow> ('e + 'b) run) \<Rightarrow> ('e + 'b) run" where
  "try_bind m k = (case m of Panic \<Rightarrow> Panic | Return (Inl e) \<Rightarrow> Return (Inl e) | Return (Inr x) \<Rightarrow> k x)"

named_theorems wire_simps \<open>byte-level encoding facts\<close>

section \<open>Results\<close>

definition map_err :: "('e \<Rightarrow> 'f) \<Rightarrow> 'e + 'a \<Rightarrow> 'f + 'a" where
  "map_err f r = (case r of Inl e \<Rightarrow> Inl (f e) | Inr x \<Rightarrow> Inr x)"

definition and_then :: "'e + 'a \<Rightarrow> ('a \<Rightarrow> 'e + 'b) \<Rightarrow> 'e + 'b" where
  "and_then r k = (case r of Inl e \<Rightarrow> Inl e | Inr x \<Rightarrow> k x)"

definition ok_or :: "'e \<Rightarrow> 'a option \<Rightarrow> 'e + 'a" where
  "ok_or e x = (case x of None \<Rightarrow> Inl e | Some v \<Rightarrow> Inr v)"

section \<open>Strings as bytes\<close>

text \<open>A Rust \<open>str\<close> is UTF-8 bytes; \<open>string\<close> is a list of 8-bit characters, the same thing.\<close>

definition str_bytes :: "string \<Rightarrow> bytes" where
  "str_bytes s = map of_char s"

text \<open>\<open>str::is_char_boundary\<close>: the ends, and every byte that does not continue a character.\<close>

definition is_char_boundary :: "string \<Rightarrow> nat \<Rightarrow> bool" where
  "is_char_boundary s i =
     (i = 0 \<or> i = length s \<or>
      (i < length s \<and> \<not> (128 \<le> (of_char (s ! i) :: nat) \<and> (of_char (s ! i) :: nat) < 192)))"

section \<open>Byte order\<close>

primrec le_bytes :: "nat \<Rightarrow> nat \<Rightarrow> bytes" where
  "le_bytes 0 n = []"
| "le_bytes (Suc k) n = word_of_nat n # le_bytes k (n div 256)"

primrec le_nat :: "bytes \<Rightarrow> nat" where
  "le_nat [] = 0"
| "le_nat (b # bs) = unat b + 256 * le_nat bs"

definition be_bytes :: "nat \<Rightarrow> nat \<Rightarrow> bytes" where
  "be_bytes k n = rev (le_bytes k n)"

definition be_nat :: "bytes \<Rightarrow> nat" where
  "be_nat bs = le_nat (rev bs)"

section \<open>Slices\<close>

text \<open>\<open>&b[i..j]\<close>: panics when \<open>i > j\<close> or \<open>j > b.len()\<close>.\<close>

definition slice_range :: "'a list \<Rightarrow> nat \<Rightarrow> nat \<Rightarrow> 'a list run" where
  "slice_range b i j =
     (if i \<le> j \<and> j \<le> length b then Return (take (j - i) (drop i b)) else Panic)"

definition index_at :: "'a list \<Rightarrow> nat \<Rightarrow> 'a run" where
  "index_at b i = (if i < length b then Return (b ! i) else Panic)"

text \<open>\<open>usize\<close> addition on a target of \<open>w\<close> bits, wrapping as in a release build.\<close>

definition us_add :: "nat \<Rightarrow> nat \<Rightarrow> nat \<Rightarrow> nat" where
  "us_add w a b = (a + b) mod 2 ^ w"

section \<open>Formatting\<close>

text \<open>\<open>format!("{b:02x}")\<close> and decimal \<open>Display\<close>.\<close>

definition hex_digit :: "nat \<Rightarrow> char" where
  "hex_digit d = (if d < 10 then char_of (48 + d) else char_of (87 + d))"

definition hex_byte :: "u8 \<Rightarrow> string" where
  "hex_byte b = [hex_digit (unat b div 16), hex_digit (unat b mod 16)]"

definition hex_encode :: "bytes \<Rightarrow> string" where
  "hex_encode bs = concat (map hex_byte bs)"

fun show_nat :: "nat \<Rightarrow> string" where
  "show_nat n = (if n < 10 then [char_of (48 + n)]
                 else show_nat (n div 10) @ [char_of (48 + n mod 10)])"

declare show_nat.simps [simp del]

section \<open>Hash maps\<close>

text \<open>
  \<open>std::collections::HashMap\<close> as an association list with distinct keys. The iteration order
  of a \<open>HashMap\<close> is unspecified; the list's order stands for one such order, and no code
  modelled here returns data in it.
\<close>

type_synonym ('k, 'v) hmap = "('k \<times> 'v) list"

definition hm_remove :: "'k \<Rightarrow> ('k, 'v) hmap \<Rightarrow> ('k, 'v) hmap" where
  "hm_remove k m = filter (\<lambda>p. fst p \<noteq> k) m"

definition hm_insert :: "'k \<Rightarrow> 'v \<Rightarrow> ('k, 'v) hmap \<Rightarrow> ('k, 'v) hmap" where
  "hm_insert k v m = (k, v) # hm_remove k m"

definition hm_keys :: "('k, 'v) hmap \<Rightarrow> 'k list" where
  "hm_keys m = map fst m"

definition hm_wf :: "('k, 'v) hmap \<Rightarrow> bool" where
  "hm_wf m = distinct (map fst m)"

section \<open>The map interface\<close>

text \<open>
  What the components rely on when they keep a map: lookup after each update, the keys as a
  duplicate-free list, and a representation invariant every operation keeps.
\<close>

locale map_impl =
  fixes empty :: "'m"
    and get :: "'m \<Rightarrow> 'k \<Rightarrow> 'v option"
    and insert :: "'k \<Rightarrow> 'v \<Rightarrow> 'm \<Rightarrow> 'm"
    and remove :: "'k \<Rightarrow> 'm \<Rightarrow> 'm"
    and keys :: "'m \<Rightarrow> 'k list"
    and invar :: "'m \<Rightarrow> bool"
  assumes get_empty: "get empty = Map.empty"
    and get_insert: "invar m \<Longrightarrow> get (insert k v m) = (get m)(k \<mapsto> v)"
    and get_remove: "invar m \<Longrightarrow> get (remove k m) = (get m)(k := None)"
    and set_keys: "invar m \<Longrightarrow> set (keys m) = dom (get m)"
    and distinct_keys: "invar m \<Longrightarrow> distinct (keys m)"
    and invar_empty: "invar empty"
    and invar_insert: "invar m \<Longrightarrow> invar (insert k v m)"
    and invar_remove: "invar m \<Longrightarrow> invar (remove k m)"
begin

lemmas map_laws = get_empty get_insert get_remove invar_empty invar_insert invar_remove

lemma length_keys: "invar m \<Longrightarrow> length (keys m) = card (dom (get m))"
  using set_keys [of m] distinct_keys [of m] distinct_card [of "keys m"] by simp

lemma finite_dom: "invar m \<Longrightarrow> finite (dom (get m))"
  using set_keys [of m] by (metis List.finite_set)

lemma length_keys_insert:
  "invar m \<Longrightarrow> length (keys (insert k v m)) =
     (if get m k = None then Suc (length (keys m)) else length (keys m))"
  by (auto simp: length_keys map_laws finite_dom card_insert_if)

lemma length_keys_remove:
  "invar m \<Longrightarrow> length (keys (remove k m)) =
     (if get m k = None then length (keys m) else length (keys m) - 1)"
  by (auto simp: length_keys map_laws finite_dom card_Diff_singleton_if)

lemma length_keys_empty: "length (keys empty) = 0"
  by (simp add: length_keys invar_empty get_empty)

end

section \<open>Lemmas\<close>

lemma run_bind_simps [simp]: "run_bind Panic k = Panic" "run_bind (Return x) k = k x"
  by (simp_all add: run_bind_def)

lemma try_bind_simps [simp]:
  "try_bind Panic k = Panic" "try_bind (Return (Inl e)) k = Return (Inl e)"
  "try_bind (Return (Inr x)) k = k x"
  by (simp_all add: try_bind_def)

lemma us_add_small [simp]: "a + b < 2 ^ w \<Longrightarrow> us_add w a b = a + b"
  by (simp add: us_add_def)

lemma and_then_simps [simp]: "and_then (Inl e) k = Inl e" "and_then (Inr x) k = k x"
  by (simp_all add: and_then_def)

lemma and_then_Inr: "and_then r k = Inr y \<longleftrightarrow> (\<exists>x. r = Inr x \<and> k x = Inr y)"
  by (cases r) simp_all

lemma try_bind_Inr:
  "try_bind m k = Return (Inr y) \<longleftrightarrow> (\<exists>x. m = Return (Inr x) \<and> k x = Return (Inr y))"
  by (auto simp: try_bind_def split: run.splits sum.splits)

lemma try_bind_Panic: "try_bind m k = Panic \<longleftrightarrow> m = Panic \<or> (\<exists>x. m = Return (Inr x) \<and> k x = Panic)"
  by (auto simp: try_bind_def split: run.splits sum.splits)

lemma run_bind_Panic [simp]: "run_bind m (\<lambda>x. Panic) = Panic"
  by (cases m) simp_all

lemma map_err_Inr [simp]: "map_err f r = Inr x \<longleftrightarrow> r = Inr x"
  by (auto simp: map_err_def split: sum.splits)

lemma map_err_simps [simp]: "map_err f (Inl e) = Inl (f e)" "map_err f (Inr x) = Inr x"
  by (simp_all add: map_err_def)

lemma ok_or_simps [simp]: "ok_or e None = Inl e" "ok_or e (Some x) = Inr x"
  by (simp_all add: ok_or_def)

lemma ok_or_Inr [simp]: "ok_or e x = Inr v \<longleftrightarrow> x = Some v"
  by (cases x) auto

lemma length_str_bytes [simp]: "length (str_bytes s) = length s"
  by (simp add: str_bytes_def)

lemma str_bytes_append [simp]: "str_bytes (s @ t) = str_bytes s @ str_bytes t"
  by (simp add: str_bytes_def)

lemma unat_u8_less [simp]: "unat (b :: u8) < 256"
  using unsigned_less [of b] by simp

lemma unat_of_char_u8 [simp]: "unat (of_char c :: u8) = of_char c"
proof -
  have "(of_char c :: u8) = word_of_nat (of_char c)" by (simp only: of_nat_of_char)
  then have "unat (of_char c :: u8) = of_char c mod 256" by (simp add: unat_of_nat del: of_nat_of_char)
  also have "(of_char c :: nat) mod 256 = of_char c" by (simp add: of_char_mod_256)
  finally show ?thesis .
qed

lemma of_char_u8_inject [simp]: "(of_char c :: u8) = of_char d \<longleftrightarrow> c = d"
  by (metis of_char_eq_iff unat_of_char_u8)

lemma take_drop_split: "xs = take a xs @ take b (drop a xs) @ drop (a + b) xs"
  by (metis append_take_drop_id drop_drop add.commute)

subsection \<open>Byte order\<close>

lemma length_le_bytes [simp]: "length (le_bytes k n) = k"
  by (induction k arbitrary: n) auto

lemma length_be_bytes [simp]: "length (be_bytes k n) = k"
  by (simp add: be_bytes_def)

lemma le_nat_le_bytes [simp, wire_simps]: "le_nat (le_bytes k n) = n mod 256 ^ k"
proof (induction k arbitrary: n)
  case (Suc k)
  have "unat (word_of_nat n :: u8) = n mod 256" by (simp add: unat_of_nat)
  then show ?case by (simp add: Suc mod_mult2_eq)
qed simp

lemma be_nat_be_bytes [simp, wire_simps]: "be_nat (be_bytes k n) = n mod 256 ^ k"
  by (simp add: be_nat_def be_bytes_def)

lemma le_bytes_le_nat: "length bs = k \<Longrightarrow> le_bytes k (le_nat bs) = bs"
proof (induction bs arbitrary: k)
  case (Cons b bs)
  have "(unat b + 256 * le_nat bs) div 256 = le_nat bs" by simp
  moreover have "(word_of_nat (unat b + 256 * le_nat bs) :: u8) = b"
    by (simp add: word_unat_eq_iff unat_of_nat mod_add_right_eq [symmetric] del: of_nat_add)
  ultimately show ?case using Cons by (auto simp del: of_nat_add)
qed simp

lemma be_bytes_be_nat: "length bs = k \<Longrightarrow> be_bytes k (be_nat bs) = bs"
  using le_bytes_le_nat [of "rev bs" k] by (simp add: be_nat_def be_bytes_def)

lemma le_nat_bound: "le_nat bs < 256 ^ length bs"
proof (induction bs)
  case (Cons b bs)
  then have "256 * (le_nat bs + 1) \<le> 256 * 256 ^ length bs"
    by (intro mult_le_mono) auto
  then show ?case using unat_u8_less [of b] by (simp del: unat_u8_less)
qed simp

lemma be_nat_bound: "be_nat bs < 256 ^ length bs"
  using le_nat_bound [of "rev bs"] by (simp add: be_nat_def)

lemma unat_u32_less [simp]: "unat (i :: u32) < 4294967296"
  using unsigned_less [of i] by simp

lemma u32_be_round_trip [simp, wire_simps]: "(word_of_nat (be_nat (be_bytes 4 (unat i))) :: u32) = i"
  by simp

subsection \<open>Bits of a byte\<close>

lemma u8_zero_iff: "(w :: u8) = 0 \<longleftrightarrow> (\<forall>n. \<not> bit w n)"
proof
  assume "\<forall>n. \<not> bit w n"
  then show "w = 0" by (intro bit_eqI) simp
qed simp

lemma and_high_mask: "(b :: u8) AND push_bit k 255 = 0 \<longleftrightarrow> unat b < 2 ^ k"
proof -
  have bits: "bit (b AND push_bit k (- 1)) n \<longleftrightarrow> k \<le> n \<and> bit b n" for n
  proof (cases "n < 8")
    case True
    then have "possible_bit TYPE(u8) n" by simp
    then show ?thesis
      by (simp only: bit_and_iff bit_push_bit_iff bit_minus_1_iff) (auto simp: possible_bit_def)
  next
    case False
    then have "\<not> bit b n" using bit_imp_le_length [of b n] by auto
    then show ?thesis by (simp only: bit_and_iff) simp
  qed
  have "b AND push_bit k (- 1) = 0 \<longleftrightarrow> (\<forall>n. \<not> (k \<le> n \<and> bit b n))"
    by (simp only: u8_zero_iff bits)
  also have "\<dots> \<longleftrightarrow> (\<forall>n. \<not> bit (drop_bit k b) n)"
  proof -
    have "(\<forall>n. \<not> (k \<le> n \<and> f n)) \<longleftrightarrow> (\<forall>n. \<not> f (k + n))" for f :: "nat \<Rightarrow> bool"
      by (auto simp: le_iff_add)
    then show ?thesis by (simp only: bit_drop_bit_eq comp_def)
  qed
  also have "\<dots> \<longleftrightarrow> drop_bit k b = 0"
    by (simp only: u8_zero_iff)
  also have "\<dots> \<longleftrightarrow> unat (drop_bit k b) = 0"
    by (simp only: unat_eq_zero)
  also have "unat (drop_bit k b) = unat b div 2 ^ k"
    by (simp only: unat_drop_bit_eq) (simp add: drop_bit_eq_div)
  also have "unat b div 2 ^ k = 0 \<longleftrightarrow> unat b < 2 ^ k" by (simp add: div_eq_0_iff)
  finally have "b AND push_bit k (- 1) = 0 \<longleftrightarrow> unat b < 2 ^ k" .
  moreover have "(255 :: u8) = - 1" by simp
  ultimately show ?thesis by (simp only:)
qed

subsection \<open>Hash maps\<close>

lemma map_of_hm_remove: "map_of (hm_remove k m) = (map_of m)(k := None)"
  by (induction m) (auto simp: hm_remove_def fun_eq_iff)

lemma map_of_hm_insert: "map_of (hm_insert k v m) = (map_of m)(k \<mapsto> v)"
  by (simp add: hm_insert_def map_of_hm_remove)

lemma hm_wf_remove: "hm_wf m \<Longrightarrow> hm_wf (hm_remove k m)"
  by (auto simp: hm_wf_def hm_remove_def distinct_map_filter)

lemma hm_wf_insert: "hm_wf m \<Longrightarrow> hm_wf (hm_insert k v m)"
  using hm_wf_remove [of m k] by (auto simp: hm_insert_def hm_wf_def hm_remove_def)

interpretation hm: map_impl "[]" map_of hm_insert hm_remove hm_keys hm_wf
  by unfold_locales
    (auto simp: map_of_hm_insert map_of_hm_remove hm_wf_insert hm_wf_remove
        hm_keys_def dom_map_of_conv_image_fst, auto simp: hm_wf_def)

lemmas hm_laws [simp] = map_of_hm_insert map_of_hm_remove

section \<open>Hex\<close>

lemma hex_digit_table:
  "\<forall>d \<in> set [0..<16]. hex_digit d \<in> set ''0123456789abcdef''"
  "\<forall>d \<in> set [0..<16]. \<forall>e \<in> set [0..<16]. hex_digit d = hex_digit e \<longrightarrow> d = e"
  by code_simp+

lemma hex_digit_char: "d < 16 \<Longrightarrow> hex_digit d \<in> set ''0123456789abcdef''"
  using hex_digit_table(1) unfolding set_upt by (metis atLeastLessThan_iff le0)

lemma hex_digit_inj: "d < 16 \<Longrightarrow> e < 16 \<Longrightarrow> hex_digit d = hex_digit e \<Longrightarrow> d = e"
  using hex_digit_table(2) unfolding set_upt by (metis atLeastLessThan_iff le0)

lemma nibbles: "unat (b :: u8) div 16 < 16" "unat b mod 16 < 16"
proof -
  have "unat b < 256" using unsigned_less [of b, where ?'a = nat] by simp
  then show "unat b div 16 < 16" by presburger
  show "unat b mod 16 < 16" by simp
qed

lemma hex_encode_chars: "set (hex_encode bs) \<subseteq> set ''0123456789abcdef''"
proof -
  have "set (hex_byte b) \<subseteq> set ''0123456789abcdef''" for b
    using hex_digit_char [OF nibbles(1), of b] hex_digit_char [OF nibbles(2), of b] unfolding hex_byte_def by simp
  then show ?thesis unfolding hex_encode_def by (induction bs) auto
qed

lemma hex_byte_inj: "hex_byte a = hex_byte b \<Longrightarrow> a = b"
proof -
  assume eq: "hex_byte a = hex_byte b"
  have "unat a div 16 = unat b div 16" "unat a mod 16 = unat b mod 16"
    using eq hex_digit_inj [OF nibbles(1) nibbles(1), of a b] hex_digit_inj [OF nibbles(2) nibbles(2), of a b]
    by (simp_all add: hex_byte_def)
  then have "unat a = unat b" by (metis div_mult_mod_eq)
  then show "a = b" by (simp add: word_unat_eq_iff)
qed

lemma hex_encode_inj: "hex_encode xs = hex_encode ys \<Longrightarrow> xs = ys"
proof (induction xs arbitrary: ys)
  case Nil
  then show ?case by (cases ys) (simp_all add: hex_encode_def hex_byte_def)
next
  case (Cons x xs)
  then obtain y ys' where ys: "ys = y # ys'" by (cases ys) (simp_all add: hex_encode_def hex_byte_def)
  have "hex_byte x = hex_byte y" "hex_encode xs = hex_encode ys'"
    using Cons.prems by (simp_all add: ys hex_encode_def hex_byte_def)
  then show ?case using Cons.IH hex_byte_inj by (simp add: ys)
qed

lemma length_hex_encode: "length (hex_encode bs) = 2 * length bs"
  by (induction bs) (simp_all add: hex_encode_def hex_byte_def)

section \<open>Assertions\<close>

text \<open>
  The vocabulary of a test: a failed assertion, an \<open>unwrap\<close> of an error and an \<open>unwrap_err\<close> of a value
  panic. A test passes when it returns.
\<close>

definition assert :: "bool \<Rightarrow> unit run" where
  "assert b = (if b then Return () else Panic)"

definition unwrap :: "'e + 'a \<Rightarrow> 'a run" where
  "unwrap r = (case r of Inl _ \<Rightarrow> Panic | Inr x \<Rightarrow> Return x)"

definition unwrap_err :: "'e + 'a \<Rightarrow> 'e run" where
  "unwrap_err r = (case r of Inl e \<Rightarrow> Return e | Inr _ \<Rightarrow> Panic)"

definition unwrap_some :: "'a option \<Rightarrow> 'a run" where
  "unwrap_some r = (case r of None \<Rightarrow> Panic | Some x \<Rightarrow> Return x)"

lemma unwrap_simps [simp]:
  "unwrap (Inl e) = Panic" "unwrap (Inr x) = Return x"
  "unwrap_err (Inl e) = Return e" "unwrap_err (Inr x) = Panic"
  "unwrap_some None = Panic" "unwrap_some (Some x) = Return x"
  by (simp_all add: unwrap_def unwrap_err_def unwrap_some_def)

lemma assert_passes [simp]: "assert b = Return () \<longleftrightarrow> b" "assert True = Return ()" "assert False = Panic"
  by (simp_all add: assert_def)

text \<open>A test of several assertions passes when all of them hold.\<close>

definition asserts :: "bool list \<Rightarrow> unit run" where
  "asserts bs = foldr (\<lambda>b k. run_bind (assert b) (\<lambda>_. k)) bs (Return ())"

lemma asserts_pass [simp]: "asserts bs = Return () \<longleftrightarrow> list_all (\<lambda>b. b) bs"
  by (induction bs) (auto simp: asserts_def assert_def)

end
