(* ===== verification/Relay_Store.thy ===== *)
theory Relay_Store
  imports Prelude "HOL-Library.Sublist"
begin

text \<open>
  The blind store-and-forward of the relay (\<open>relay/src/store.rs\<close>): one ciphertext envelope per
  recipient with an expiry time. \<open>Instant::now()\<close> is the argument \<open>now\<close> (nanoseconds on the
  monotonic clock); every method runs under the store's mutex, so each is one atomic step.
  The \<open>mailbox\<close> locale is the contract the WebSocket bridge relies on; \<open>rs\<close> interprets it on
  the model of \<open>RelayStore\<close>.
\<close>

section \<open>The store\<close>

datatype StoreError = Expired | NotFound

record RelayStore =
  rs_inner :: "(string, bytes \<times> nat) hmap"

definition RelayStore_new :: RelayStore where
  "RelayStore_new = \<lparr>rs_inner = []\<rparr>"

definition RelayStore_default :: RelayStore where
  "RelayStore_default = RelayStore_new"

definition RelayStore_store ::
  "nat \<Rightarrow> string \<Rightarrow> bytes \<Rightarrow> nat \<Rightarrow> RelayStore \<Rightarrow> (StoreError + unit) \<times> RelayStore" where
  "RelayStore_store now recipient_id envelope ttl s =
     (let expiry = now + ttl in
      (Inr (), s\<lparr>rs_inner := hm_insert recipient_id (envelope, expiry) (rs_inner s)\<rparr>))"

definition RelayStore_pickup ::
  "nat \<Rightarrow> string \<Rightarrow> RelayStore \<Rightarrow> (StoreError + bytes) \<times> RelayStore" where
  "RelayStore_pickup now recipient_id s =
     (case map_of (rs_inner s) recipient_id of
        None \<Rightarrow> (Inl NotFound, s)
      | Some (envelope, expiry) \<Rightarrow>
          if now > expiry then
            (Inl Expired, s\<lparr>rs_inner := hm_remove recipient_id (rs_inner s)\<rparr>)
          else (Inr envelope, s\<lparr>rs_inner := hm_remove recipient_id (rs_inner s)\<rparr>))"

definition RelayStore_purge ::
  "string \<Rightarrow> RelayStore \<Rightarrow> (StoreError + unit) \<times> RelayStore" where
  "RelayStore_purge recipient_id s =
     (Inr (), s\<lparr>rs_inner := hm_remove recipient_id (rs_inner s)\<rparr>)"

definition RelayStore_count :: "RelayStore \<Rightarrow> nat" where
  "RelayStore_count s = length (rs_inner s)"

definition RelayStore_has_method :: "string \<Rightarrow> bool" where
  "RelayStore_has_method name =
     (name \<in> set [''store'', ''pickup'', ''purge'', ''count''])"

section \<open>Histories of calls\<close>

text \<open>Any sequence of calls on one store, oldest first, and what it delivers to a recipient.\<close>

datatype store_op =
    StoreOp nat string bytes nat
  | PickupOp nat string
  | PurgeOp string

fun op_recipient :: "store_op \<Rightarrow> string" where
  "op_recipient (StoreOp now r e ttl) = r"
| "op_recipient (PickupOp now r) = r"
| "op_recipient (PurgeOp r) = r"

fun store_step :: "store_op \<Rightarrow> RelayStore \<Rightarrow> RelayStore" where
  "store_step (StoreOp now r e ttl) s = snd (RelayStore_store now r e ttl s)"
| "store_step (PickupOp now r) s = snd (RelayStore_pickup now r s)"
| "store_step (PurgeOp r) s = snd (RelayStore_purge r s)"

fun store_run :: "store_op list \<Rightarrow> RelayStore \<Rightarrow> RelayStore" where
  "store_run [] s = s"
| "store_run (x # xs) s = store_run xs (store_step x s)"

text \<open>The envelopes handed to \<open>r\<close> by the successful pickups of a history, in order.\<close>

fun delivered :: "string \<Rightarrow> store_op list \<Rightarrow> RelayStore \<Rightarrow> bytes list" where
  "delivered r [] s = []"
| "delivered r (PickupOp now q # xs) s =
     (case RelayStore_pickup now q s of
        (Inr e, s') \<Rightarrow> (if q = r then e # delivered r xs s' else delivered r xs s')
      | (Inl _, s') \<Rightarrow> delivered r xs s')"
| "delivered r (x # xs) s = delivered r xs (store_step x s)"

text \<open>The envelopes stored for \<open>r\<close> in a history, in order.\<close>

fun stored_for :: "string \<Rightarrow> store_op list \<Rightarrow> bytes list" where
  "stored_for r [] = []"
| "stored_for r (StoreOp now q e ttl # xs) = (if q = r then e # stored_for r xs else stored_for r xs)"
| "stored_for r (x # xs) = stored_for r xs"

text \<open>
  The abstract specification of a slot: what the last call addressed to \<open>r\<close> left there.
\<close>

definition last_slot :: "string \<Rightarrow> store_op list \<Rightarrow> (bytes \<times> nat) option" where
  "last_slot r xs =
     (case find (\<lambda>x. op_recipient x = r) (rev xs) of
        Some (StoreOp now q e ttl) \<Rightarrow> Some (e, now + ttl)
      | _ \<Rightarrow> None)"

definition store_wf :: "RelayStore \<Rightarrow> bool" where
  "store_wf s = hm_wf (rs_inner s)"

section \<open>The mailbox contract\<close>

text \<open>
  What a client of a single-slot mailbox with expiry may rely on, stated over the slot a key
  denotes. Reading is destructive: \<open>take\<close> empties the slot whether or not it had expired.
\<close>

locale mailbox =
  fixes slot :: "'s \<Rightarrow> 'k \<Rightarrow> ('v \<times> nat) option"
    and new :: "'s"
    and put :: "nat \<Rightarrow> 'k \<Rightarrow> 'v \<Rightarrow> nat \<Rightarrow> 's \<Rightarrow> (StoreError + unit) \<times> 's"
    and take :: "nat \<Rightarrow> 'k \<Rightarrow> 's \<Rightarrow> (StoreError + 'v) \<times> 's"
  assumes slot_new: "slot new = Map.empty"
    and put_ok: "fst (put now k v ttl s) = Inr ()"
    and slot_put: "slot (snd (put now k v ttl s)) = (slot s)(k \<mapsto> (v, now + ttl))"
    and slot_take: "slot (snd (take now k s)) = (slot s)(k := None)"
    and take_result: "fst (take now k s) =
      (case slot s k of None \<Rightarrow> Inl NotFound
       | Some (v, e) \<Rightarrow> if now > e then Inl Expired else Inr v)"
begin

lemmas laws = slot_new put_ok slot_put slot_take take_result

lemma take_new: "fst (take now k new) = Inl NotFound"
  by (simp add: laws)

lemma take_put:
  "t \<le> now + ttl \<Longrightarrow> fst (take t k (snd (put now k v ttl s))) = Inr v"
  by (simp add: laws)

lemma take_put_late:
  "t > now + ttl \<Longrightarrow> fst (take t k (snd (put now k v ttl s))) = Inl Expired"
  by (simp add: laws)

lemma take_put_other:
  "j \<noteq> k \<Longrightarrow> fst (take t j (snd (put now k v ttl s))) = fst (take t j s)"
  by (simp add: laws)

lemma take_take: "fst (take t k (snd (take t' k s))) = Inl NotFound"
  by (simp add: laws)

lemma take_take_other: "j \<noteq> k \<Longrightarrow> fst (take t j (snd (take t' k s))) = fst (take t j s)"
  by (simp add: laws)

lemma put_put: "slot (snd (put t k v ttl (snd (put t' k v' ttl' s)))) = slot (snd (put t k v ttl s))"
  by (simp add: laws)

end

section \<open>The store implements the mailbox\<close>

lemmas store_defs = RelayStore_new_def RelayStore_store_def RelayStore_pickup_def
  RelayStore_purge_def RelayStore_count_def

interpretation rs: mailbox "\<lambda>s. map_of (rs_inner s)" RelayStore_new RelayStore_store RelayStore_pickup
  by unfold_locales
    (auto simp: store_defs Let_def fun_eq_iff split: option.splits prod.splits)

lemma store_wf_step: "store_wf s \<Longrightarrow> store_wf (store_step x s)"
  by (cases x) (auto simp: store_wf_def store_defs Let_def hm_wf_insert hm_wf_remove
      split: option.splits)

lemma store_wf_run: "store_wf s \<Longrightarrow> store_wf (store_run xs s)"
  by (induction xs arbitrary: s) (auto simp: store_wf_step)

lemma store_wf_new: "store_wf RelayStore_new"
  by (simp add: store_wf_def store_defs hm_wf_def)

lemma slot_purge: "map_of (rs_inner (snd (RelayStore_purge r s))) = (map_of (rs_inner s))(r := None)"
  by (simp add: RelayStore_purge_def)

lemma slot_step:
  "map_of (rs_inner (store_step x s)) r =
     (if op_recipient x = r
      then (case x of StoreOp now q e ttl \<Rightarrow> Some (e, now + ttl) | _ \<Rightarrow> None)
      else map_of (rs_inner s) r)"
  by (cases x) (simp_all add: rs.laws slot_purge)

lemma slot_run:
  "map_of (rs_inner (store_run xs s)) r =
     (if \<exists>x \<in> set xs. op_recipient x = r then last_slot r xs else map_of (rs_inner s) r)"
proof (induction xs arbitrary: s rule: rev_induct)
  case (snoc x xs)
  have "store_run (xs @ [x]) s = store_step x (store_run xs s)"
    by (induction xs arbitrary: s) auto
  then show ?case using snoc by (auto simp: slot_step last_slot_def split: store_op.splits)
qed simp

lemma last_slot_none: "\<forall>x \<in> set xs. op_recipient x \<noteq> r \<Longrightarrow> last_slot r xs = None"
proof -
  assume "\<forall>x \<in> set xs. op_recipient x \<noteq> r"
  then have "find (\<lambda>x. op_recipient x = r) (rev xs) = None"
    by (simp add: find_None_iff)
  then show ?thesis by (simp add: last_slot_def)
qed

lemma slot_run_new: "map_of (rs_inner (store_run xs RelayStore_new)) r = last_slot r xs"
  using slot_run [of xs RelayStore_new r] last_slot_none [of xs r]
  by (cases "\<exists>x \<in> set xs. op_recipient x = r") (simp_all add: rs.slot_new)

subsection \<open>Deliveries\<close>

definition waiting :: "string \<Rightarrow> RelayStore \<Rightarrow> bytes list" where
  "waiting r s = (case map_of (rs_inner s) r of None \<Rightarrow> [] | Some (e, t) \<Rightarrow> [e])"

lemma subseq_prepend: "subseq xs ys \<Longrightarrow> subseq xs (zs @ ys)"
  by (rule subseq_order.trans [OF _ list_emb_append2]) auto

lemma delivered_subseq: "subseq (delivered r xs s) (waiting r s @ stored_for r xs)"
proof (induction xs arbitrary: s)
  case (Cons x xs)
  show ?case
  proof (cases x)
    case (StoreOp now q e ttl)
    have "waiting r (store_step x s) = (if q = r then [e] else waiting r s)"
      by (simp add: StoreOp waiting_def rs.laws)
    then show ?thesis
      using Cons [of "store_step x s"] StoreOp
      by (cases "q = r") (auto intro: subseq_prepend)
  next
    case (PickupOp now q)
    obtain o' s' where p: "RelayStore_pickup now q s = (o', s')" by fastforce
    have s': "map_of (rs_inner s') = (map_of (rs_inner s))(q := None)"
      using rs.slot_take [of now q s] p by simp
    have o': "o' = (case map_of (rs_inner s) q of None \<Rightarrow> Inl NotFound
        | Some (v, e) \<Rightarrow> if now > e then Inl Expired else Inr v)"
      using rs.take_result [of now q s] p by simp
    have IH: "subseq (delivered r xs s') (waiting r s' @ stored_for r xs)" by (rule Cons)
    show ?thesis
      using IH p s' o' PickupOp
      by (auto simp: waiting_def split: option.splits if_splits prod.splits
          intro: subseq_prepend)
  next
    case (PurgeOp q)
    have "waiting r (store_step x s) = (if q = r then [] else waiting r s)"
      by (simp add: PurgeOp waiting_def slot_purge)
    then show ?thesis
      using Cons [of "store_step x s"] PurgeOp
      by (cases "q = r") (auto intro: subseq_prepend)
  qed
qed simp

lemma waiting_new: "waiting r RelayStore_new = []"
  by (simp add: waiting_def rs.slot_new)

section \<open>Properties\<close>

text \<open>
  C18: Refinement of the store to its history. After any sequence of calls on a fresh store, a
  pickup answers exactly what the last call addressed to that recipient determines:
  \<open>NotFound\<close> when that call was a pickup or a purge (or there was none), \<open>Expired\<close> when it was a
  store whose expiry has passed, and otherwise the envelope of that store, unmodified. Calls for
  other recipients never matter.
\<close>
theorem pickup_answers_last_call:
  "fst (RelayStore_pickup now r (store_run xs RelayStore_new)) =
     (case last_slot r xs of
        None \<Rightarrow> Inl NotFound
      | Some (e, t) \<Rightarrow> if now > t then Inl Expired else Inr e)"
  by (simp add: rs.take_result slot_run_new)

text \<open>
  At-most-once, in-order, authentic delivery. Over any history of calls, the envelopes a
  recipient receives form a subsequence of the envelopes stored for that recipient: no envelope
  is delivered twice, reordered, altered, invented or handed to someone else.
\<close>
theorem delivered_at_most_once:
  "subseq (delivered r xs RelayStore_new) (stored_for r xs)"
  using delivered_subseq [of r xs RelayStore_new] by (simp add: waiting_new)

text \<open>
  The store never accumulates more than one entry per recipient: after any history the
  count is the number of recipients whose last call was a store, so memory is bounded by the
  number of distinct recipients.
\<close>
theorem count_is_live_slots:
  "RelayStore_count (store_run xs RelayStore_new) = card {r. last_slot r xs \<noteq> None}"
proof -
  let ?s = "store_run xs RelayStore_new"
  have "hm_wf (rs_inner ?s)"
    using store_wf_run [OF store_wf_new] by (simp add: store_wf_def)
  then have "length (rs_inner ?s) = card (dom (map_of (rs_inner ?s)))"
    using hm.length_keys by (simp add: hm_keys_def)
  also have "dom (map_of (rs_inner ?s)) = {r. last_slot r xs \<noteq> None}"
    by (auto simp: slot_run_new)
  finally show ?thesis by (simp add: RelayStore_count_def)
qed

end
