(* ===== verification/Rate_Limiter.thy ===== *)
theory Rate_Limiter
  imports Prelude
begin

text \<open>
  The per-identity fixed-window rate limiter of the relay (\<open>relay/src/ratelimit/mod.rs\<close>).
  A \<open>Duration\<close> is its number of nanoseconds; seconds are \<open>nat\<close>, since the code only subtracts
  them saturating or under a guard. Token counts keep their width (\<open>u32\<close>). The \<open>gate\<close> locale
  states what a caller of the limiter relies on, \<open>rl\<close> interprets it on the model.
\<close>

section \<open>The limiter\<close>

definition as_secs :: "nat \<Rightarrow> nat" where
  "as_secs d = d div 1000000000"

definition from_secs :: "nat \<Rightarrow> nat" where
  "from_secs s = s * 1000000000"

record Bucket =
  tokens :: u32
  window_start_secs :: nat

record RateLimiter =
  rl_capacity :: u32
  rl_window :: nat
  rl_buckets :: "(bytes, Bucket) hmap"

datatype RateLimitError =
  Exceeded (ex_identity: bytes) (ex_needed: u32) (ex_available: u32) (ex_retry_after: nat)

definition RateLimiter_per_identity_in :: "u32 \<Rightarrow> nat \<Rightarrow> RateLimiter" where
  "RateLimiter_per_identity_in capacity window =
     \<lparr>rl_capacity = max capacity 1, rl_window = window, rl_buckets = []\<rparr>"

definition RateLimiter_per_identity :: "u32 \<Rightarrow> RateLimiter" where
  "RateLimiter_per_identity per_minute = RateLimiter_per_identity_in per_minute (from_secs 60)"

definition RateLimiter_check ::
  "bytes \<Rightarrow> nat \<Rightarrow> RateLimiter \<Rightarrow> (RateLimitError + unit) \<times> RateLimiter" where
  "RateLimiter_check identity now l =
     (let now_secs = as_secs now;
          window_secs = max (as_secs (rl_window l)) 1;
          bucket = (case map_of (rl_buckets l) identity of
                      Some b \<Rightarrow> b
                    | None \<Rightarrow> \<lparr>tokens = rl_capacity l, window_start_secs = now_secs\<rparr>);
          bucket = (if now_secs - window_start_secs bucket \<ge> window_secs
                    then bucket\<lparr>tokens := rl_capacity l, window_start_secs := now_secs\<rparr>
                    else bucket)
      in if tokens bucket = 0
         then (let elapsed = now_secs - window_start_secs bucket;
                   retry_after = from_secs (window_secs - elapsed)
               in (Inl (Exceeded identity 1 0 retry_after),
                   l\<lparr>rl_buckets := hm_insert identity bucket (rl_buckets l)\<rparr>))
         else (Inr (),
               l\<lparr>rl_buckets := hm_insert identity (bucket\<lparr>tokens := tokens bucket - 1\<rparr>)
                  (rl_buckets l)\<rparr>))"

definition RateLimiter_capacity :: "RateLimiter \<Rightarrow> u32" where
  "RateLimiter_capacity l = rl_capacity l"

definition RateLimiter_window :: "RateLimiter \<Rightarrow> nat" where
  "RateLimiter_window l = rl_window l"

definition RateLimitError_display :: "RateLimitError \<Rightarrow> (nat \<Rightarrow> string) \<Rightarrow> string" where
  "RateLimitError_display e debug_duration =
     ''rate limit exceeded: need '' @ show_nat (unat (ex_needed e)) @ '' tokens, have ''
       @ show_nat (unat (ex_available e)) @ '', retry in '' @ debug_duration (ex_retry_after e)"

section \<open>Traffic\<close>

text \<open>A trace of requests \<open>(identity, time)\<close> and the seconds at which \<open>i\<close> was admitted.\<close>

fun rl_admitted :: "bytes \<Rightarrow> (bytes \<times> nat) list \<Rightarrow> RateLimiter \<Rightarrow> nat list" where
  "rl_admitted i [] l = []"
| "rl_admitted i ((j, t) # ts) l =
     (case RateLimiter_check j t l of
        (Inr _, l') \<Rightarrow> (if j = i then as_secs t # rl_admitted i ts l' else rl_admitted i ts l')
      | (Inl _, l') \<Rightarrow> rl_admitted i ts l')"

text \<open>
  The specification for one identity: a fixed window of \<open>w\<close> seconds opened by a request, with
  \<open>c\<close> admissions, as a function of the arrival seconds alone. The state is the open window's
  start and the admissions left in it.
\<close>

fun fw_admitted :: "nat \<Rightarrow> nat \<Rightarrow> (nat \<times> nat) option \<Rightarrow> nat list \<Rightarrow> nat list" where
  "fw_admitted c w b [] = []"
| "fw_admitted c w None (x # xs) = x # fw_admitted c w (Some (x, c - 1)) xs"
| "fw_admitted c w (Some (s, k)) (x # xs) =
     (if x - s \<ge> w then x # fw_admitted c w (Some (x, c - 1)) xs
      else if k = 0 then fw_admitted c w (Some (s, k)) xs
      else x # fw_admitted c w (Some (s, k - 1)) xs)"

definition rl_wf :: "RateLimiter \<Rightarrow> bool" where
  "rl_wf l \<longleftrightarrow> 1 \<le> rl_capacity l \<and>
     (\<forall>i b. map_of (rl_buckets l) i = Some b \<longrightarrow> tokens b \<le> rl_capacity l)"

definition rl_window_secs :: "RateLimiter \<Rightarrow> nat" where
  "rl_window_secs l = max (as_secs (rl_window l)) 1"

definition rl_view :: "RateLimiter \<Rightarrow> bytes \<Rightarrow> (nat \<times> nat) option" where
  "rl_view l i = map_option (\<lambda>b. (window_start_secs b, unat (tokens b))) (map_of (rl_buckets l) i)"

section \<open>The gate contract\<close>

text \<open>
  A gate keyed by identity: \<open>admits\<close> is what a check would answer, and a check for one identity
  changes nothing for the others. Over any foreign traffic an identity's standing is unchanged.
\<close>

locale gate =
  fixes check :: "'i \<Rightarrow> nat \<Rightarrow> 's \<Rightarrow> ('e + unit) \<times> 's"
    and admits :: "'s \<Rightarrow> 'i \<Rightarrow> nat \<Rightarrow> bool"
  assumes check_admits: "isl (fst (check i t s)) \<longleftrightarrow> \<not> admits s i t"
    and check_frame: "i \<noteq> j \<Longrightarrow> admits (snd (check i t s)) j u = admits s j u"
begin

lemma foreign_traffic:
  "\<forall>p \<in> set ps. fst p \<noteq> j \<Longrightarrow>
     admits (fold (\<lambda>p s. snd (check (fst p) (snd p) s)) ps s) j u = admits s j u"
proof (induction ps arbitrary: s)
  case (Cons p ps)
  then show ?case using check_frame [of "fst p" j "snd p" s u] by simp
qed simp

end

definition rl_admits :: "RateLimiter \<Rightarrow> bytes \<Rightarrow> nat \<Rightarrow> bool" where
  "rl_admits l i t \<longleftrightarrow> \<not> isl (fst (RateLimiter_check i t l))"

section \<open>Lemmas\<close>

lemma check_params [simp]:
  "rl_capacity (snd (RateLimiter_check i t l)) = rl_capacity l"
  "rl_window (snd (RateLimiter_check i t l)) = rl_window l"
  "rl_window_secs (snd (RateLimiter_check i t l)) = rl_window_secs l"
  by (simp_all add: RateLimiter_check_def Let_def rl_window_secs_def)

lemma check_other:
  "i \<noteq> j \<Longrightarrow> map_of (rl_buckets (snd (RateLimiter_check i t l))) j = map_of (rl_buckets l) j"
  by (simp add: RateLimiter_check_def Let_def)

lemma check_local:
  "map_of (rl_buckets l) j = map_of (rl_buckets l') j \<Longrightarrow> rl_capacity l = rl_capacity l' \<Longrightarrow>
   rl_window l = rl_window l' \<Longrightarrow> fst (RateLimiter_check j t l) = fst (RateLimiter_check j t l')"
  by (cases "map_of (rl_buckets l') j") (simp_all add: RateLimiter_check_def Let_def)

interpretation rl: gate RateLimiter_check rl_admits
proof unfold_locales
  fix i j :: bytes and t u l
  assume "i \<noteq> j"
  then show "rl_admits (snd (RateLimiter_check i t l)) j u = rl_admits l j u"
    using check_local [of "snd (RateLimiter_check i t l)" j l u] check_other [of i j t l]
    by (simp add: rl_admits_def)
qed (simp add: rl_admits_def)

lemma unat_dec: "(k :: u32) \<noteq> 0 \<Longrightarrow> unat (k - 1) = unat k - 1"
  by (simp add: unat_minus_one)

lemma check_wf: "rl_wf l \<Longrightarrow> rl_wf (snd (RateLimiter_check i t l))"
proof -
  assume wf: "rl_wf l"
  have dec: "k - 1 \<le> c" if "k \<noteq> 0" "k \<le> c" for k c :: u32
    using that unat_dec [of k] by (simp add: word_le_nat_alt)
  show ?thesis
    using wf by (auto simp: rl_wf_def RateLimiter_check_def Let_def dec split: option.splits if_splits)
qed

lemma new_wf: "rl_wf (RateLimiter_per_identity_in c w)"
  by (simp add: rl_wf_def RateLimiter_per_identity_in_def)

lemma window_secs_pos: "0 < rl_window_secs l"
  by (simp add: rl_window_secs_def)

text \<open>One check, seen through the view of its identity.\<close>

lemma check_view:
  assumes "rl_wf l"
  defines "c \<equiv> unat (rl_capacity l)" and "w \<equiv> rl_window_secs l"
  shows "case rl_view l i of
      None \<Rightarrow> \<exists>u. RateLimiter_check i t l = (Inr (), u) \<and> rl_view u i = Some (as_secs t, c - 1)
    | Some (s, k) \<Rightarrow>
        if as_secs t - s \<ge> w
        then \<exists>u. RateLimiter_check i t l = (Inr (), u) \<and> rl_view u i = Some (as_secs t, c - 1)
        else if k = 0
        then \<exists>u. RateLimiter_check i t l =
               (Inl (Exceeded i 1 0 (from_secs (w - (as_secs t - s)))), u) \<and> rl_view u i = Some (s, k)
        else \<exists>u. RateLimiter_check i t l = (Inr (), u) \<and> rl_view u i = Some (s, k - 1)"
proof -
  have cap: "rl_capacity l \<noteq> 0" using assms(1) by (auto simp: rl_wf_def)
  show ?thesis
  proof (cases "map_of (rl_buckets l) i")
    case None
    then show ?thesis using cap
      by (auto simp: rl_view_def RateLimiter_check_def Let_def unat_dec c_def rl_window_secs_def)
  next
    case (Some b)
    then show ?thesis using cap
      by (auto simp: rl_view_def RateLimiter_check_def Let_def unat_dec c_def w_def
          rl_window_secs_def unat_eq_zero)
  qed
qed

lemma view_other: "i \<noteq> j \<Longrightarrow> rl_view (snd (RateLimiter_check i t l)) j = rl_view l j"
  by (simp add: rl_view_def check_other)

definition arrivals :: "bytes \<Rightarrow> (bytes \<times> nat) list \<Rightarrow> nat list" where
  "arrivals i ts = map (\<lambda>p. as_secs (snd p)) (filter (\<lambda>p. fst p = i) ts)"

lemma rl_admitted_step:
  assumes wf: "rl_wf l"
  defines "c \<equiv> unat (rl_capacity l)" and "w \<equiv> rl_window_secs l"
  shows "rl_admitted i ((i, t) # ts) l =
      fw_admitted c w (rl_view l i) [as_secs t] @ rl_admitted i ts (snd (RateLimiter_check i t l))
    \<and> fw_admitted c w (rl_view l i) (as_secs t # xs) =
      fw_admitted c w (rl_view l i) [as_secs t] @
      fw_admitted c w (rl_view (snd (RateLimiter_check i t l)) i) xs"
proof (cases "rl_view l i")
  case None
  then show ?thesis using check_view [OF wf, of i t] by (auto simp: c_def)
next
  case (Some q)
  obtain s k where q: "q = (s, k)" by fastforce
  show ?thesis
    using check_view [OF wf, of i t] Some q
    by (cases "as_secs t - s \<ge> w"; cases "k = 0") (auto simp: c_def w_def)
qed

lemma rl_admitted_refines:
  "rl_wf l \<Longrightarrow> rl_admitted i ts l =
     fw_admitted (unat (rl_capacity l)) (rl_window_secs l) (rl_view l i) (arrivals i ts)"
proof (induction ts arbitrary: l)
  case (Cons p ts)
  obtain j t where p: "p = (j, t)" by fastforce
  let ?l = "snd (RateLimiter_check j t l)"
  have IH: "rl_admitted i ts ?l =
      fw_admitted (unat (rl_capacity l)) (rl_window_secs l) (rl_view ?l i) (arrivals i ts)"
    using Cons.IH [OF check_wf [OF Cons.prems]] by simp
  show ?case
  proof (cases "j = i")
    case True
    then show ?thesis
      using rl_admitted_step [OF Cons.prems, of i t ts "arrivals i ts"] IH p
      by (simp add: arrivals_def)
  next
    case False
    have "rl_admitted i (p # ts) l = rl_admitted i ts ?l"
      using False p by (auto split: prod.splits sum.splits)
    then show ?thesis using False IH p by (simp add: arrivals_def view_other)
  qed
qed (simp add: arrivals_def)

subsection \<open>Bounds on the fixed window\<close>

lemma fw_admitted_subset: "set (fw_admitted c w b xs) \<subseteq> set xs"
  by (induction c w b xs rule: fw_admitted.induct) auto

abbreviation hits :: "nat \<Rightarrow> nat \<Rightarrow> nat list \<Rightarrow> nat" where
  "hits a b ys \<equiv> length (filter (\<lambda>y. a \<le> y \<and> y < b) ys)"

lemma hits_zero:
  assumes "\<forall>x \<in> set xs. b \<le> x"
  shows "hits a b (fw_admitted c w q xs) = 0"
proof -
  have "filter (\<lambda>y. a \<le> y \<and> y < b) (fw_admitted c w q xs) = []"
    using fw_admitted_subset [of c w q xs] assms by (force simp: filter_empty_conv)
  then show ?thesis by simp
qed

text \<open>A window that opened inside the interval pays for everything from its own tokens.\<close>

lemma hits_inside:
  "sorted xs \<Longrightarrow> \<forall>x \<in> set xs. s \<le> x \<Longrightarrow> a \<le> s \<Longrightarrow> 0 < w \<Longrightarrow>
     hits a (a + w) (fw_admitted c w (Some (s, k)) xs) \<le> k"
proof (induction xs arbitrary: k)
  case (Cons x xs)
  have srt: "sorted xs" and ge: "\<forall>y \<in> set xs. x \<le> y" "\<forall>y \<in> set xs. s \<le> y"
    using Cons.prems by auto
  show ?case
  proof (cases "x - s \<ge> w")
    case True
    then have far: "\<forall>y \<in> set (x # xs). a + w \<le> y" using ge Cons.prems by fastforce
    show ?thesis using hits_zero [OF far, of a c w "Some (s, k)"] by simp
  next
    case False
    have IH: "\<And>k. hits a (a + w) (fw_admitted c w (Some (s, k)) xs) \<le> k"
      using Cons.IH srt ge Cons.prems by blast
    show ?thesis
    proof (cases k)
      case 0
      then show ?thesis using False IH [of 0] by simp
    next
      case (Suc m)
      then show ?thesis using False IH [of m] by simp
    qed
  qed
qed simp

text \<open>Once the interval has begun, the open window and at most one more can pay.\<close>

lemma hits_begun:
  "sorted xs \<Longrightarrow> \<forall>x \<in> set xs. a \<le> x \<Longrightarrow> s \<le> a \<Longrightarrow> 0 < w \<Longrightarrow> 0 < c \<Longrightarrow>
     hits a (a + w) (fw_admitted c w (Some (s, k)) xs) \<le> k + c"
proof (induction xs arbitrary: k)
  case (Cons x xs)
  have srt: "sorted xs" and ge: "\<forall>y \<in> set xs. x \<le> y" "\<forall>y \<in> set xs. a \<le> y"
    using Cons.prems by auto
  have IH: "\<And>k. hits a (a + w) (fw_admitted c w (Some (s, k)) xs) \<le> k + c"
    using Cons.IH srt ge Cons.prems by blast
  have new: "hits a (a + w) (fw_admitted c w (Some (x, c - 1)) xs) \<le> c - 1"
    using hits_inside [OF srt ge(1), of a w c "c - 1"] Cons.prems by simp
  show ?case
    using new IH [of k] IH [of "k - 1"] Cons.prems by (cases k) auto
qed simp

lemma hits_window:
  "sorted xs \<Longrightarrow> \<forall>x \<in> set xs. s \<le> x \<Longrightarrow> k \<le> c \<Longrightarrow> 0 < w \<Longrightarrow> 0 < c \<Longrightarrow>
     hits a (a + w) (fw_admitted c w (Some (s, k)) xs) \<le> 2 * c"
proof (induction xs arbitrary: s k)
  case (Cons x xs)
  have srt: "sorted xs" and ge: "\<forall>y \<in> set xs. x \<le> y" "\<forall>y \<in> set xs. s \<le> y"
    using Cons.prems by auto
  consider "a \<le> s" | "s < a" "a \<le> x" | "x < a" by linarith
  then show ?case
  proof cases
    case 1
    then show ?thesis
      using hits_inside [OF Cons.prems(1,2), of a w c k] Cons.prems by linarith
  next
    case 2
    then have "\<forall>y \<in> set (x # xs). a \<le> y" using ge by auto
    then show ?thesis
      using hits_begun [of "x # xs" a s w c k] Cons.prems 2 by linarith
  next
    case 3
    have "hits a (a + w) (fw_admitted c w (Some (s, k')) xs) \<le> 2 * c" if "k' \<le> c" for k'
      using Cons.IH [OF srt ge(2) that] Cons.prems by blast
    moreover have "hits a (a + w) (fw_admitted c w (Some (x, c - 1)) xs) \<le> 2 * c"
      using Cons.IH [OF srt ge(1), of "c - 1"] Cons.prems by linarith
    ultimately show ?thesis using 3 Cons.prems by simp
  qed
qed simp

lemma hits_fresh:
  "sorted xs \<Longrightarrow> 0 < w \<Longrightarrow> 0 < c \<Longrightarrow> hits a (a + w) (fw_admitted c w None xs) \<le> 2 * c"
proof (cases xs)
  case (Cons x ys)
  assume *: "sorted xs" "0 < w" "0 < c"
  have "fw_admitted c w None xs = fw_admitted c w (Some (x, c)) xs"
    using Cons * by simp
  then show ?thesis using hits_window [of xs x c c w a] Cons * by auto
qed simp

lemma fw_fresh_exact:
  "\<forall>x \<in> set xs. x - s < w \<Longrightarrow> fw_admitted c w (Some (s, k)) xs = take k xs"
proof (induction xs arbitrary: k)
  case (Cons x xs)
  then show ?case by (cases k) auto
qed simp

subsection \<open>Rejections\<close>

lemma view_new [simp]: "rl_view (RateLimiter_per_identity_in c w) i = None"
  by (simp add: rl_view_def RateLimiter_per_identity_in_def)

lemma capacity_new [simp]: "rl_capacity (RateLimiter_per_identity_in c w) = max c 1"
  by (simp add: RateLimiter_per_identity_in_def)

lemma capacity_pos: "rl_wf l \<Longrightarrow> 0 < unat (rl_capacity l)"
  by (auto simp: rl_wf_def unat_gt_0)

lemma as_secs_from_secs [simp]: "as_secs (from_secs n) = n" "as_secs (t + from_secs n) = as_secs t + n"
  by (simp_all add: as_secs_def from_secs_def)

lemma rejected_view:
  assumes "rl_wf l" and "RateLimiter_check i t l = (Inl e, l')"
  obtains s where "rl_view l i = Some (s, 0)" "as_secs t - s < rl_window_secs l"
    "e = Exceeded i 1 0 (from_secs (rl_window_secs l - (as_secs t - s)))"
    "rl_view l' i = Some (s, 0)"
  using check_view [OF assms(1), of i t] assms(2)
  by (auto split: option.splits prod.splits if_splits)

lemma admitted_iff:
  assumes "rl_wf l" and "rl_view l i = Some (s, 0)"
  shows "isl (fst (RateLimiter_check i t l)) \<longleftrightarrow> as_secs t - s < rl_window_secs l"
  using check_view [OF assms(1), of i t] assms(2) by (auto split: if_splits)

section \<open>Properties\<close>

text \<open>
  C23: No burst beyond two windows' worth. Whatever the traffic of other identities, if an
  identity's own requests arrive in time order then in every interval of one window length it
  is admitted at most twice the configured capacity (the fixed-window bound: the tail of one
  window and the head of the next).
\<close>
theorem rate_limit_interval_bound:
  assumes "sorted (arrivals i ts)"
  shows "hits a (a + rl_window_secs (RateLimiter_per_identity_in c w))
           (rl_admitted i ts (RateLimiter_per_identity_in c w)) \<le> 2 * unat (max c 1)"
  using hits_fresh [OF assms window_secs_pos, of "unat (max c 1)" a]
    capacity_pos [OF new_wf, of c w] rl_admitted_refines [OF new_wf, of i ts c w] by simp

theorem rate_limit_interval_bound_witness:
  "hits 59 119 (rl_admitted [7] [([7], from_secs 0), ([8], from_secs 1), ([7], from_secs 59),
       ([7], from_secs 60), ([7], from_secs 61), ([7], from_secs 62)]
     (RateLimiter_per_identity_in 2 (from_secs 60))) = 3
   \<and> (3::nat) \<le> 2 * unat (max (2::u32) 1)"
proof -
  let ?ts = "[([7], from_secs 0), ([8], from_secs 1), ([7 :: u8], from_secs 59),
       ([7], from_secs 60), ([7], from_secs 61), ([7], from_secs 62)]"
  have s: "sorted (arrivals [7] ?ts)" by (simp add: arrivals_def)
  have h: "hits 59 119 (rl_admitted [7] ?ts (RateLimiter_per_identity_in 2 (from_secs 60))) = 3"
    by (simp add: RateLimiter_check_def RateLimiter_per_identity_in_def Let_def hm_insert_def
        hm_remove_def)
  have w: "rl_window_secs (RateLimiter_per_identity_in 2 (from_secs 60)) = 60"
    by (simp add: rl_window_secs_def RateLimiter_per_identity_in_def)
  show ?thesis
    using rate_limit_interval_bound [OF s, of 59 2 "from_secs 60"] h unfolding w by simp
qed

text \<open>
  Within one window exactly the first \<open>capacity\<close> requests of a new identity are admitted
  and all later ones are refused, independently of what other identities send (and a
  configured capacity of zero counts as one).
\<close>
theorem first_window_admits_exactly_capacity:
  assumes "arrivals i ts = x # xs"
    and "\<forall>y \<in> set xs. y - x < rl_window_secs (RateLimiter_per_identity_in c w)"
  shows "rl_admitted i ts (RateLimiter_per_identity_in c w) = take (unat (max c 1)) (x # xs)"
proof -
  have c: "0 < unat (max c 1)" using capacity_pos [OF new_wf, of c w] by simp
  have "rl_admitted i ts (RateLimiter_per_identity_in c w) =
      x # take (unat (max c 1) - 1) xs"
    using rl_admitted_refines [OF new_wf, of i ts c w] assms fw_fresh_exact [OF assms(2)] by simp
  then show ?thesis using c by (cases "unat (max c 1)") auto
qed

theorem first_window_admits_exactly_capacity_witness:
  "rl_admitted [7] [([7], from_secs 3), ([9], from_secs 3), ([7], from_secs 4), ([7], from_secs 62)]
     (RateLimiter_per_identity_in 2 (from_secs 60)) = [3, 4]"
proof -
  let ?ts = "[([7], from_secs 3), ([9], from_secs 3), ([7 :: u8], from_secs 4), ([7], from_secs 62)]"
  have a: "arrivals [7] ?ts = 3 # [4, 62]" by (simp add: arrivals_def)
  have m: "unat (max (2 :: u32) 1) = 2" by (simp add: max_def word_le_nat_alt)
  have b: "\<forall>y \<in> set [4, 62]. y - 3 < rl_window_secs (RateLimiter_per_identity_in 2 (from_secs 60))"
    by (simp add: rl_window_secs_def RateLimiter_per_identity_in_def)
  show ?thesis
    using first_window_admits_exactly_capacity [OF a b] m by simp
qed

text \<open>
  \<open>retry_after\<close> is exact. When a request is refused (with the clock not before the window's
  start), the reported wait is positive and at most one window, a retry any earlier is refused
  again, and a retry after exactly that wait is admitted.
\<close>
theorem retry_after_is_exact:
  assumes "rl_wf l" and "RateLimiter_check i now l = (Inl e, l')"
    and "\<forall>b. map_of (rl_buckets l) i = Some b \<longrightarrow> window_start_secs b \<le> as_secs now"
  shows "ex_identity e = i \<and> 0 < ex_retry_after e \<and> ex_retry_after e \<le> from_secs (rl_window_secs l)
    \<and> (\<forall>t. as_secs now \<le> as_secs t \<longrightarrow>
          (isl (fst (RateLimiter_check i t l')) \<longleftrightarrow> as_secs t < as_secs (now + ex_retry_after e)))"
proof -
  obtain s where s: "rl_view l i = Some (s, 0)" "as_secs now - s < rl_window_secs l"
      "e = Exceeded i 1 0 (from_secs (rl_window_secs l - (as_secs now - s)))"
      "rl_view l' i = Some (s, 0)"
    using rejected_view [OF assms(1,2)] by blast
  have le: "s \<le> as_secs now" using s(1) assms(3) by (auto simp: rl_view_def)
  have l': "l' = snd (RateLimiter_check i now l)" using assms(2) by simp
  have wf': "rl_wf l'" and w': "rl_window_secs l' = rl_window_secs l"
    using check_wf [OF assms(1)] l' by auto
  have "isl (fst (RateLimiter_check i t l')) \<longleftrightarrow> as_secs t < as_secs (now + ex_retry_after e)"
    if "as_secs now \<le> as_secs t" for t
    using admitted_iff [OF wf' s(4), of t] that s(2,3) le w' by auto
  then show ?thesis using s(2,3) by (auto simp: from_secs_def)
qed

theorem retry_after_is_exact_witness:
  "\<exists>e. fst (RateLimiter_check [7] (from_secs 5)
          (snd (RateLimiter_check [7] (from_secs 2) (RateLimiter_per_identity 1)))) = Inl e
     \<and> ex_retry_after e = from_secs 57
     \<and> \<not> isl (fst (RateLimiter_check [7] (from_secs 62)
          (snd (RateLimiter_check [7] (from_secs 5)
             (snd (RateLimiter_check [7] (from_secs 2) (RateLimiter_per_identity 1)))))))"
proof -
  define l where "l = snd (RateLimiter_check [7] (from_secs 2) (RateLimiter_per_identity 1))"
  have wf: "rl_wf l"
    unfolding l_def RateLimiter_per_identity_def by (intro check_wf new_wf)
  have c: "RateLimiter_check [7] (from_secs 5) l =
      (Inl (Exceeded [7] 1 0 (from_secs 57)), snd (RateLimiter_check [7] (from_secs 5) l))"
    by (simp add: l_def RateLimiter_per_identity_def RateLimiter_per_identity_in_def
        RateLimiter_check_def Let_def hm_insert_def hm_remove_def)
  have m: "\<forall>b. map_of (rl_buckets l) [7] = Some b \<longrightarrow> window_start_secs b \<le> as_secs (from_secs 5)"
    by (simp add: l_def RateLimiter_per_identity_def RateLimiter_per_identity_in_def
        RateLimiter_check_def Let_def hm_insert_def hm_remove_def)
  have "\<not> isl (fst (RateLimiter_check [7] (from_secs 62) (snd (RateLimiter_check [7] (from_secs 5) l))))"
    using retry_after_is_exact [OF wf c m] by (auto dest: spec [where x = "from_secs 62"])
  moreover have "fst (RateLimiter_check [7] (from_secs 5) l) = Inl (Exceeded [7] 1 0 (from_secs 57))"
    by (subst c) simp
  ultimately show ?thesis unfolding l_def [symmetric] by simp
qed

text \<open>
  Identities are isolated. Any sequence of requests by other identities leaves the verdict
  an identity would get, at every time, unchanged.
\<close>
theorem identities_are_isolated:
  assumes "\<forall>p \<in> set ps. fst p \<noteq> j"
  shows "fst (RateLimiter_check j t (fold (\<lambda>p s. snd (RateLimiter_check (fst p) (snd p) s)) ps l))
           = Inr () \<longleftrightarrow> fst (RateLimiter_check j t l) = Inr ()"
proof -
  have ok: "fst (RateLimiter_check j t l) = Inr () \<longleftrightarrow> rl_admits l j t" for l
    by (cases "fst (RateLimiter_check j t l)") (auto simp: rl_admits_def)
  show ?thesis using rl.foreign_traffic [OF assms, of l t] unfolding ok .
qed

theorem identities_are_isolated_witness:
  "fst (RateLimiter_check [7] 0 (fold (\<lambda>p s. snd (RateLimiter_check (fst p) (snd p) s))
      [([8], 0), ([8], 0), ([9], 0)] (RateLimiter_per_identity 1))) = Inr ()"
proof -
  have a: "\<forall>p \<in> set [([8 :: u8], 0 :: nat), ([8], 0), ([9], 0)]. fst p \<noteq> [7]" by simp
  have b: "fst (RateLimiter_check [7] 0 (RateLimiter_per_identity 1)) = Inr ()"
    by (simp add: RateLimiter_per_identity_def RateLimiter_per_identity_in_def
        RateLimiter_check_def Let_def)
  show ?thesis
    using identities_are_isolated [OF a, of 0 "RateLimiter_per_identity 1"] b by blast
qed

end
