(* ===== verification/Pow.thy ===== *)
theory Pow
  imports Prelude
begin

text \<open>
  The proof-of-work gate of the relay (\<open>relay/src/pow/mod.rs\<close>). SHA-256 is the parameter
  \<open>sha256\<close>; all that is used of it is that a digest has 32 bytes. The nonce the CSPRNG draws in
  \<open>Challenge::new\<close> is an argument. The solver's counter is a \<open>u64\<close>; the loop is a total
  function, since the counter is capped at \<open>2^32\<close>.
\<close>

section \<open>Challenges\<close>

datatype PowError = Invalid u32 | MalformedChallenge string

record Challenge =
  ch_context :: bytes
  ch_nonce :: bytes
  ch_difficulty :: u32

definition PowError_display :: "PowError \<Rightarrow> string" where
  "PowError_display e =
     (case e of
        Invalid d \<Rightarrow> ''invalid proof-of-work: solution does not meet '' @ show_nat (unat d)
                       @ '' bits of difficulty''
      | MalformedChallenge reason \<Rightarrow> ''malformed challenge: '' @ reason)"

definition Challenge_new :: "bytes \<Rightarrow> u32 \<Rightarrow> bytes \<Rightarrow> Challenge run" where
  "Challenge_new ctxt difficulty nonce =
     (if 1 \<le> difficulty \<and> difficulty \<le> 256
      then Return \<lparr>ch_context = ctxt, ch_nonce = nonce, ch_difficulty = difficulty\<rparr>
      else Panic)"

definition Challenge_difficulty :: "Challenge \<Rightarrow> u32" where
  "Challenge_difficulty c = ch_difficulty c"

definition Challenge_context :: "Challenge \<Rightarrow> bytes" where
  "Challenge_context c = ch_context c"

definition Challenge_nonce :: "Challenge \<Rightarrow> bytes" where
  "Challenge_nonce c = ch_nonce c"

definition Challenge_to_wire :: "Challenge \<Rightarrow> bytes" where
  "Challenge_to_wire c =
     be_bytes 2 (length (ch_context c)) @ ch_context c @ ch_nonce c
       @ be_bytes 4 (unat (ch_difficulty c))"

definition Challenge_preimage_prefix :: "Challenge \<Rightarrow> bytes" where
  "Challenge_preimage_prefix c = ch_context c @ ch_nonce c"

section \<open>Checking a solution\<close>

definition meets_difficulty :: "(bytes \<Rightarrow> bytes) \<Rightarrow> bytes \<Rightarrow> bytes \<Rightarrow> u32 \<Rightarrow> bool run" where
  "meets_difficulty sha256 preimage suffix difficulty =
     (let digest = sha256 (preimage @ suffix);
          full_bytes = unat (difficulty div 8)
      in if length digest < full_bytes \<or> list_ex (\<lambda>b. b \<noteq> 0) (take full_bytes digest)
         then Return False
         else let extra_bits = unat (difficulty mod 8)
              in if extra_bits = 0 then Return True
                 else let mask = push_bit (8 - extra_bits) (255 :: u8)
                      in (case index_at digest full_bytes of
                            Panic \<Rightarrow> Panic
                          | Return b \<Rightarrow> Return (b AND mask = 0)))"

definition verify :: "(bytes \<Rightarrow> bytes) \<Rightarrow> Challenge \<Rightarrow> bytes \<Rightarrow> (PowError + unit) run" where
  "verify sha256 challenge solution =
     (if \<not> (1 \<le> ch_difficulty challenge \<and> ch_difficulty challenge \<le> 256)
      then Return (Inl (MalformedChallenge ''difficulty out of range''))
      else let preimage = Challenge_preimage_prefix challenge
           in (case meets_difficulty sha256 preimage solution (ch_difficulty challenge) of
                 Panic \<Rightarrow> Panic
               | Return True \<Rightarrow> Return (Inr ())
               | Return False \<Rightarrow> Return (Inl (Invalid (ch_difficulty challenge)))))"

section \<open>Solving\<close>

definition checked_add :: "u64 \<Rightarrow> u64 \<Rightarrow> u64 option" where
  "checked_add a b = (if unat a + unat b < 2 ^ 64 then Some (a + b) else None)"

lemma checked_add_Some: "checked_add a b = Some c \<longleftrightarrow> unat a + unat b < 2 ^ 64 \<and> c = a + b"
  by (auto simp: checked_add_def)

lemma unat_checked_add: "checked_add a b = Some c \<Longrightarrow> unat c = unat a + unat b"
  by (auto simp: checked_add_Some unat_word_ariths)

lemma checked_add_decreases:
  "checked_add a 1 = Some c \<Longrightarrow> 18446744073709551616 - unat c < 18446744073709551616 - unat a"
  using unat_checked_add [of a 1 c] by (auto simp: checked_add_Some)

function solve_loop ::
  "(bytes \<Rightarrow> bytes) \<Rightarrow> bytes \<Rightarrow> u32 \<Rightarrow> u64 \<Rightarrow> (PowError + bytes) run" where
  "solve_loop sha256 preimage difficulty counter =
     (let suffix = le_bytes 8 (unat counter)
      in (case meets_difficulty sha256 preimage suffix difficulty of
            Panic \<Rightarrow> Panic
          | Return True \<Rightarrow> Return (Inr suffix)
          | Return False \<Rightarrow>
              (case checked_add counter 1 of
                 None \<Rightarrow> Return (Inl (MalformedChallenge ''counter overflow''))
               | Some counter' \<Rightarrow>
                   if counter' > 2 ^ 32
                   then Return (Inl (MalformedChallenge ''difficulty too high for in-process solver''))
                   else solve_loop sha256 preimage difficulty counter')))"
  by pat_completeness auto
termination
  by (relation "measure (\<lambda>(h, p, d, c). 2 ^ 64 - unat c)")
    (auto intro: checked_add_decreases)

declare solve_loop.simps [simp del]

definition solve :: "(bytes \<Rightarrow> bytes) \<Rightarrow> Challenge \<Rightarrow> (PowError + bytes) run" where
  "solve sha256 challenge =
     (if \<not> (1 \<le> ch_difficulty challenge \<and> ch_difficulty challenge \<le> 256)
      then Return (Inl (MalformedChallenge ''difficulty out of range''))
      else solve_loop sha256 (Challenge_preimage_prefix challenge) (ch_difficulty challenge) 0)"

text \<open>What is documented of SHA-256: a digest is 32 bytes.\<close>

definition digest32 :: "(bytes \<Rightarrow> bytes) \<Rightarrow> bool" where
  "digest32 sha256 \<longleftrightarrow> (\<forall>m. length (sha256 m) = 32)"

section \<open>The bounded search\<close>

text \<open>
  Both brute-force loops of the relay crate (\<open>pow::solve\<close> and the one inlined in
  \<open>WsRelayClient::solve_challenge\<close>) try counters upward until a test succeeds or a cap is
  passed. The locale states that shape; the search finds the least counter that passes.
\<close>

locale counter_search =
  fixes test :: "nat \<Rightarrow> bool run"
    and found :: "nat \<Rightarrow> 'r run"
    and exhausted :: "'r run"
    and cap :: nat
    and search :: "nat \<Rightarrow> 'r run"
  assumes search_unfold: "c \<le> cap \<Longrightarrow> search c =
    (case test c of
       Panic \<Rightarrow> Panic
     | Return True \<Rightarrow> found c
     | Return False \<Rightarrow> if c + 1 > cap then exhausted else search (c + 1))"
begin

lemma search_finds_least:
  assumes "c \<le> k" "k \<le> cap" "test k = Return True" "\<forall>j. c \<le> j \<and> j < k \<longrightarrow> test j = Return False"
  shows "search c = found k"
  using assms
proof (induction "k - c" arbitrary: c)
  case 0
  then show ?case using search_unfold [of c] by simp
next
  case (Suc n)
  then have "test c = Return False" by auto
  moreover have "search (c + 1) = found k" using Suc by (intro Suc.hyps(1)) auto
  ultimately show ?case using search_unfold [of c] Suc by auto
qed

lemma search_exhausted:
  assumes "c \<le> cap" "\<forall>j. c \<le> j \<and> j \<le> cap \<longrightarrow> test j = Return False"
  shows "search c = exhausted"
  using assms
proof (induction "cap - c" arbitrary: c)
  case 0
  then show ?case using search_unfold [of c] by auto
next
  case (Suc n)
  then have "test c = Return False" by auto
  moreover have "search (c + 1) = exhausted" using Suc by (intro Suc.hyps(1)) auto
  ultimately show ?case using search_unfold [of c] Suc by auto
qed

lemma search_total:
  assumes tests: "\<And>j. j \<le> cap \<Longrightarrow> \<exists>b. test j = Return b"
  shows "(\<exists>k \<le> cap. test k = Return True \<and> (\<forall>j<k. test j = Return False) \<and> search 0 = found k)
    \<or> (\<forall>j \<le> cap. test j = Return False) \<and> search 0 = exhausted"
proof (cases "\<exists>k \<le> cap. test k = Return True")
  case True
  define k where "k = (LEAST k. k \<le> cap \<and> test k = Return True)"
  have k: "k \<le> cap" "test k = Return True"
    using LeastI_ex [of "\<lambda>k. k \<le> cap \<and> test k = Return True"] True by (auto simp: k_def)
  have before: "\<forall>j<k. test j = Return False"
  proof (intro allI impI)
    fix j assume "j < k"
    then have "\<not> (j \<le> cap \<and> test j = Return True)" unfolding k_def by (rule not_less_Least)
    moreover have "j \<le> cap" using \<open>j < k\<close> k by simp
    ultimately show "test j = Return False" using tests [of j] by (metis (full_types))
  qed
  then show ?thesis using k search_finds_least [of 0 k] by auto
next
  case False
  then have "\<forall>j \<le> cap. test j = Return False" using tests by (metis (full_types))
  then show ?thesis using search_exhausted [of 0] by auto
qed

end

section \<open>Lemmas\<close>

lemma unat_u64_of_nat: "c \<le> 2 ^ 32 \<Longrightarrow> unat (word_of_nat c :: u64) = c"
  by (simp add: unat_of_nat)

lemma checked_add_one:
  assumes "c \<le> 2 ^ 32"
  shows "checked_add (word_of_nat c) 1 = Some (word_of_nat (c + 1))"
proof -
  have "unat (word_of_nat c :: u64) = c" using assms by (rule unat_u64_of_nat)
  then show ?thesis using assms by (simp add: checked_add_Some add.commute)
qed

lemma counter_exceeds:
  assumes "c \<le> 2 ^ 32"
  shows "(word_of_nat (c + 1) :: u64) > 2 ^ 32 \<longleftrightarrow> c + 1 > 2 ^ 32"
proof -
  have "unat (word_of_nat (c + 1) :: u64) = c + 1" using assms by (simp only: unat_of_nat) simp
  moreover have "unat ((2 :: u64) ^ 32) = 2 ^ 32" by simp
  ultimately show ?thesis by (simp only: word_less_nat_alt)
qed

interpretation pow_search: counter_search
  "\<lambda>c. meets_difficulty sha256 preimage (le_bytes 8 c) difficulty"
  "\<lambda>c. Return (Inr (le_bytes 8 c))"
  "Return (Inl (MalformedChallenge ''difficulty too high for in-process solver''))"
  "2 ^ 32"
  "\<lambda>c. solve_loop sha256 preimage difficulty (word_of_nat c)"
  for sha256 preimage difficulty
proof unfold_locales
  fix c :: nat
  assume c: "c \<le> 2 ^ 32"
  show "solve_loop sha256 preimage difficulty (word_of_nat c) =
    (case meets_difficulty sha256 preimage (le_bytes 8 c) difficulty of
       Panic \<Rightarrow> Panic
     | Return True \<Rightarrow> Return (Inr (le_bytes 8 c))
     | Return False \<Rightarrow>
         if c + 1 > 2 ^ 32
         then Return (Inl (MalformedChallenge ''difficulty too high for in-process solver''))
         else solve_loop sha256 preimage difficulty (word_of_nat (c + 1)))"
    by (subst solve_loop.simps)
      (simp only: unat_u64_of_nat [OF c] checked_add_one [OF c] counter_exceeds [OF c] Let_def
        option.case)
qed

subsection \<open>Digests as numbers\<close>

lemma le_nat_append: "le_nat (xs @ ys) = le_nat xs + 256 ^ length xs * le_nat ys"
  by (induction xs) (auto simp: algebra_simps)

lemma be_nat_append: "be_nat (xs @ ys) = be_nat xs * 256 ^ length ys + be_nat ys"
  by (simp add: be_nat_def le_nat_append mult.commute)

lemma be_nat_Cons: "be_nat (b # bs) = unat b * 256 ^ length bs + be_nat bs"
  using be_nat_append [of "[b]" bs] by (simp add: be_nat_def)

lemma be_nat_zero: "be_nat xs = 0 \<longleftrightarrow> \<not> list_ex (\<lambda>b. b \<noteq> 0) xs"
  by (induction xs) (auto simp: be_nat_Cons unat_eq_zero, simp add: be_nat_def)

lemma be_nat_replicate_zero: "be_nat (replicate n 0) = 0"
  by (simp add: be_nat_zero list_ex_iff)

lemma unat_div_mod_8: "unat ((d :: u32) div 8) = unat d div 8" "unat ((d :: u32) mod 8) = unat d mod 8"
  by (simp_all add: unat_div unat_mod)

lemma prefix_zero_iff:
  assumes "length digest = n" "k \<le> n"
  shows "\<not> list_ex (\<lambda>b. b \<noteq> 0) (take k digest) \<longleftrightarrow> be_nat digest < 256 ^ (n - k)"
proof -
  have "be_nat digest = be_nat (take k digest) * 256 ^ (n - k) + be_nat (drop k digest)"
    using be_nat_append [of "take k digest" "drop k digest"] assms by simp
  moreover have "be_nat (drop k digest) < 256 ^ (n - k)"
    using be_nat_bound [of "drop k digest"] assms by simp
  ultimately have "be_nat digest < 256 ^ (n - k) \<longleftrightarrow> be_nat (take k digest) = 0"
    by (cases "be_nat (take k digest)") auto
  then show ?thesis by (simp add: be_nat_zero)
qed

lemma high_bits_iff:
  assumes "v = u * 256 ^ m + w" "w < 256 ^ m" "e \<le> 8"
  shows "v < 2 ^ (8 * m + e) \<longleftrightarrow> u < (2 :: nat) ^ e"
proof -
  have e: "(2 :: nat) ^ (8 * m + e) = 2 ^ e * 256 ^ m" by (simp add: power_add power_mult)
  have "v div 256 ^ m = u" using assms by simp
  moreover have "v < 2 ^ e * 256 ^ m \<longleftrightarrow> v div 256 ^ m < 2 ^ e"
    by (simp add: div_less_iff_less_mult)
  ultimately show ?thesis using e by simp
qed

text \<open>The byte-wise test is a bound on the digest read as one big-endian number.\<close>

text \<open>The byte the difficulty cuts: whole zero bytes before it and its high bits clear.\<close>

lemma partial_byte_iff:
  assumes len: "length digest = 32" and q: "q < 32" and r: "0 < r" "r < 8"
  shows "be_nat digest < 2 ^ (256 - (8 * q + r)) \<longleftrightarrow>
    be_nat digest < 256 ^ (32 - q) \<and> unat (digest ! q) < 2 ^ (8 - r)"
proof -
  define u where "u = unat (digest ! q)"
  have zero: "be_nat (take q digest) = 0 \<longleftrightarrow> be_nat digest < 256 ^ (32 - q)"
    using prefix_zero_iff [OF len, of q] q by (simp add: be_nat_zero)
  have split: "digest = take q digest @ digest ! q # drop (Suc q) digest"
    using q len by (simp add: id_take_nth_drop [symmetric])
  have tail: "be_nat (digest ! q # drop (Suc q) digest) = u * 256 ^ (31 - q) + be_nat (drop (Suc q) digest)"
    using len by (simp add: be_nat_Cons u_def)
  have "length (digest ! q # drop (Suc q) digest) = 32 - q" using len q by simp
  with tail have val: "be_nat digest = be_nat (take q digest) * 256 ^ (32 - q)
      + (u * 256 ^ (31 - q) + be_nat (drop (Suc q) digest))"
    by (subst split) (simp only: be_nat_append)
  have low: "be_nat (drop (Suc q) digest) < 256 ^ (31 - q)"
    using be_nat_bound [of "drop (Suc q) digest"] len by simp
  have exp: "256 - (8 * q + r) = 8 * (31 - q) + (8 - r)" using q r by linarith
  show ?thesis
  proof (cases "be_nat (take q digest) = 0")
    case True
    then have "be_nat digest = u * 256 ^ (31 - q) + be_nat (drop (Suc q) digest)" using val by simp
    then have "be_nat digest < 2 ^ (8 * (31 - q) + (8 - r)) \<longleftrightarrow> u < 2 ^ (8 - r)"
      using low by (rule high_bits_iff) simp
    then show ?thesis using True zero exp by (simp add: u_def)
  next
    case False
    moreover have "(2 :: nat) ^ (256 - (8 * q + r)) \<le> 2 ^ (8 * (32 - q))"
      using q r by (intro power_increasing) auto
    ultimately show ?thesis using zero by (simp add: power_mult)
  qed
qed

lemma meets_difficulty_number:
  assumes "digest32 sha256" "unat difficulty \<le> 256"
  shows "meets_difficulty sha256 preimage suffix difficulty =
    Return (be_nat (sha256 (preimage @ suffix)) < 2 ^ (256 - unat difficulty))"
proof -
  define digest where "digest = sha256 (preimage @ suffix)"
  define q where "q = unat difficulty div 8"
  define r where "r = unat difficulty mod 8"
  have len: "length digest = 32" using assms by (simp add: digest32_def digest_def)
  have d: "unat difficulty = 8 * q + r" "r < 8" by (simp_all add: q_def r_def)
  have q: "q \<le> 32" using assms by (simp add: q_def)
  have zero: "\<not> list_ex (\<lambda>b. b \<noteq> 0) (take q digest) \<longleftrightarrow> be_nat digest < 256 ^ (32 - q)"
    using prefix_zero_iff [OF len q] .
  show ?thesis
  proof (cases "r = 0")
    case True
    then have "(2 :: nat) ^ (256 - unat difficulty) = 256 ^ (32 - q)"
      using d q power_mult [of "2 :: nat" 8 "32 - q"] by (simp add: diff_mult_distrib2)
    then show ?thesis using True zero len q
      by (auto simp add: meets_difficulty_def Let_def unat_div_mod_8 q_def [symmetric]
          r_def [symmetric] digest_def [symmetric])
  next
    case False
    then have "q < 32" using d assms by linarith
    with partial_byte_iff [OF len this _ d(2)] False
    have "be_nat digest < 2 ^ (256 - unat difficulty) \<longleftrightarrow>
        be_nat digest < 256 ^ (32 - q) \<and> unat (digest ! q) < 2 ^ (8 - r)" by (simp add: d(1))
    then show ?thesis using False zero len q \<open>q < 32\<close>
      by (auto simp add: meets_difficulty_def Let_def unat_div_mod_8 q_def [symmetric]
          r_def [symmetric] digest_def [symmetric] index_at_def and_high_mask)
  qed
qed

lemma difficulty_range:
  "1 \<le> (d :: u32) \<and> d \<le> 256 \<longleftrightarrow> 1 \<le> unat d \<and> unat d \<le> 256"
  by (simp add: word_le_nat_alt)

lemma verify_number:
  assumes "digest32 sha256"
  shows "verify sha256 c s =
    (if 1 \<le> unat (ch_difficulty c) \<and> unat (ch_difficulty c) \<le> 256
     then if be_nat (sha256 (ch_context c @ ch_nonce c @ s)) < 2 ^ (256 - unat (ch_difficulty c))
          then Return (Inr ()) else Return (Inl (Invalid (ch_difficulty c)))
     else Return (Inl (MalformedChallenge ''difficulty out of range'')))"
  using assms
  by (auto simp: verify_def difficulty_range meets_difficulty_number Challenge_preimage_prefix_def
      Let_def)

text \<open>Every run of the solver ends in one of two ways, decided by the counters up to the cap.\<close>

lemma solve_cases:
  assumes "digest32 sha256" "1 \<le> unat (ch_difficulty c)" "unat (ch_difficulty c) \<le> 256"
  defines "good \<equiv> \<lambda>k. be_nat (sha256 (ch_context c @ ch_nonce c @ le_bytes 8 k))
      < 2 ^ (256 - unat (ch_difficulty c))"
  shows "(\<exists>k \<le> 2 ^ 32. good k \<and> (\<forall>j<k. \<not> good j) \<and> solve sha256 c = Return (Inr (le_bytes 8 k)))
    \<or> (\<forall>j \<le> 2 ^ 32. \<not> good j) \<and> solve sha256 c =
        Return (Inl (MalformedChallenge ''difficulty too high for in-process solver''))"
proof -
  have test: "meets_difficulty sha256 (Challenge_preimage_prefix c) (le_bytes 8 k) (ch_difficulty c)
      = Return (good k)" for k
    using assms by (simp add: meets_difficulty_number Challenge_preimage_prefix_def good_def)
  have solve: "solve sha256 c =
      solve_loop sha256 (Challenge_preimage_prefix c) (ch_difficulty c) (word_of_nat 0)"
    using assms by (simp add: solve_def difficulty_range)
  show ?thesis
    using pow_search.search_total
      [of sha256 "Challenge_preimage_prefix c" "ch_difficulty c"]
    unfolding solve test by auto
qed

section \<open>Properties\<close>

text \<open>
  C24: The mask-and-byte difficulty test of the relay accepts a solution exactly when the SHA-256
  digest of context, nonce and solution, read as one 256-bit big-endian number, is below
  \<open>2^(256 - difficulty)\<close>; a difficulty outside 1..256 is reported as malformed, and the check
  never panics.
\<close>

theorem verify_is_numeric_threshold:
  assumes "digest32 sha256"
  shows "verify sha256 c s =
    Return (if 1 \<le> unat (ch_difficulty c) \<and> unat (ch_difficulty c) \<le> 256
     then if be_nat (sha256 (ch_context c @ ch_nonce c @ s)) < 2 ^ (256 - unat (ch_difficulty c))
          then Inr () else Inl (Invalid (ch_difficulty c))
     else Inl (MalformedChallenge ''difficulty out of range''))"
  using assms by (simp add: verify_number)

theorem verify_is_numeric_threshold_witness:
  "digest32 (\<lambda>_. replicate 31 0 @ [7]) \<and>
   verify (\<lambda>_. replicate 31 0 @ [7]) \<lparr>ch_context = [1], ch_nonce = [2], ch_difficulty = 253\<rparr> [3]
     = Return (Inr ()) \<and>
   verify (\<lambda>_. replicate 31 0 @ [7]) \<lparr>ch_context = [1], ch_nonce = [2], ch_difficulty = 254\<rparr> [3]
     = Return (Inl (Invalid 254))"
proof -
  have d: "digest32 (\<lambda>_. replicate 31 0 @ [7])" by (simp add: digest32_def)
  have v: "be_nat (replicate 31 0 @ [7]) = 7"
    by (simp add: be_nat_append be_nat_replicate_zero be_nat_Cons) (simp add: be_nat_def)
  show ?thesis
    using d v
      verify_is_numeric_threshold [OF d, of "\<lparr>ch_context = [1], ch_nonce = [2], ch_difficulty = 253\<rparr>" "[3]"]
      verify_is_numeric_threshold [OF d, of "\<lparr>ch_context = [1], ch_nonce = [2], ch_difficulty = 254\<rparr>" "[3]"]
    by simp
qed

text \<open>
  C25: The in-process solver always terminates without a panic. A difficulty outside 1..256 it reports
  as malformed, as the verifier does of every solution of such a challenge. For a well-formed challenge it
  returns the little-endian encoding of the least counter up to \<open>2^32\<close> whose digest meets the
  difficulty, and the relay's verifier accepts that solution; it gives up, with the
  ``difficulty too high'' error, exactly when no such counter exists.
\<close>

theorem solve_finds_least_accepted_counter:
  assumes "digest32 sha256"
  shows "if 1 \<le> ch_difficulty c \<and> ch_difficulty c \<le> 256
    then (\<exists>k \<le> 2 ^ 32. solve sha256 c = Return (Inr (le_bytes 8 k)) \<and>
           verify sha256 c (le_bytes 8 k) = Return (Inr ()) \<and>
           (\<forall>j<k. verify sha256 c (le_bytes 8 j) = Return (Inl (Invalid (ch_difficulty c)))))
       \<or> solve sha256 c =
           Return (Inl (MalformedChallenge ''difficulty too high for in-process solver'')) \<and>
         (\<forall>j \<le> 2 ^ 32. verify sha256 c (le_bytes 8 j) = Return (Inl (Invalid (ch_difficulty c))))
    else solve sha256 c = Return (Inl (MalformedChallenge ''difficulty out of range'')) \<and>
         (\<forall>s. verify sha256 c s = Return (Inl (MalformedChallenge ''difficulty out of range'')))"
proof (cases "1 \<le> ch_difficulty c \<and> ch_difficulty c \<le> 256")
  case True
  then have r: "1 \<le> unat (ch_difficulty c)" "unat (ch_difficulty c) \<le> 256"
    using difficulty_range by auto
  show ?thesis
    using True solve_cases [OF assms r] r assms by (auto simp: verify_number)
next
  case False
  then show ?thesis by (auto simp: solve_def verify_def)
qed

theorem solve_finds_least_accepted_counter_witness:
  "(\<exists>k \<le> 2 ^ 32. solve (\<lambda>_. replicate 32 0) \<lparr>ch_context = [1], ch_nonce = [2], ch_difficulty = 20\<rparr>
     = Return (Inr (le_bytes 8 k))) \<and>
   solve (\<lambda>_. replicate 32 0) \<lparr>ch_context = [1], ch_nonce = [2], ch_difficulty = 257\<rparr>
     = Return (Inl (MalformedChallenge ''difficulty out of range''))"
proof
  let ?h = "\<lambda>_ :: bytes. replicate 32 (0 :: u8)"
  have d: "digest32 ?h" by (simp add: digest32_def)
  let ?c = "\<lparr>ch_context = [1], ch_nonce = [2], ch_difficulty = 20\<rparr>"
  have v: "verify ?h ?c (le_bytes 8 0) = Return (Inr ())"
    using d by (simp add: verify_number be_nat_replicate_zero)
  have "1 \<le> ch_difficulty ?c \<and> ch_difficulty ?c \<le> 256" by simp
  from solve_finds_least_accepted_counter [OF d, of ?c, unfolded if_P [OF this]]
  show "\<exists>k \<le> 2 ^ 32. solve ?h ?c = Return (Inr (le_bytes 8 k))"
  proof (elim disjE conjE)
    assume "\<forall>j \<le> 2 ^ 32. verify ?h ?c (le_bytes 8 j) = Return (Inl (Invalid (ch_difficulty ?c)))"
    then have "verify ?h ?c (le_bytes 8 0) = Return (Inl (Invalid (ch_difficulty ?c)))" by blast
    then show ?thesis using v by simp
  qed blast
  show "solve ?h \<lparr>ch_context = [1], ch_nonce = [2], ch_difficulty = 257\<rparr> =
      Return (Inl (MalformedChallenge ''difficulty out of range''))"
    using solve_finds_least_accepted_counter [OF d, of "\<lparr>ch_context = [1], ch_nonce = [2], ch_difficulty = 257\<rparr>"] by simp
qed

end
