(* ===== verification/Base64.thy ===== *)
theory Base64
  imports Prelude
begin

text \<open>
  The hand-written base64 codec of the WebSocket bridge (\<open>b64_encode\<close>, \<open>b64_decode\<close> in
  \<open>relay/src/ws.rs\<close>), on 8-bit words with the source's shifts and masks. The encoder is the
  index loop of the source; \<open>enc\<close> is the group-of-three reference it is shown equal to.
\<close>

section \<open>Decoding\<close>

definition b64_lookup :: "u8 \<Rightarrow> u8 option" where
  "b64_lookup c =
     (if 65 \<le> c \<and> c \<le> 90 then Some (c - 65)
      else if 97 \<le> c \<and> c \<le> 122 then Some (c - 97 + 26)
      else if 48 \<le> c \<and> c \<le> 57 then Some (c - 48 + 52)
      else if c = 43 then Some 62
      else if c = 47 then Some 63
      else None)"

text \<open>\<open>format!("{b:02X}")\<close>.\<close>

definition hex_digit_upper :: "nat \<Rightarrow> char" where
  "hex_digit_upper d = (if d < 10 then char_of (48 + d) else char_of (55 + d))"

definition hex_byte_upper :: "u8 \<Rightarrow> string" where
  "hex_byte_upper b = [hex_digit_upper (unat b div 16), hex_digit_upper (unat b mod 16)]"

text \<open>One slot of the decoder's group of four: the iterator's next byte, if any.\<close>

definition next_slot :: "bytes \<Rightarrow> u8 option \<times> bytes" where
  "next_slot bs =
     (case bs of [] \<Rightarrow> (None, []) | c # cs \<Rightarrow> (if c = 61 then None else b64_lookup c, cs))"

definition unwrap_or :: "'a \<Rightarrow> 'a option \<Rightarrow> 'a" where
  "unwrap_or d x = (case x of None \<Rightarrow> d | Some v \<Rightarrow> v)"

function b64_decode_loop :: "bytes \<Rightarrow> bytes" where
  "b64_decode_loop bs =
     (if bs = [] then []
      else let (s0, bs0) = next_slot bs;
               (s1, bs1) = next_slot bs0;
               (s2, bs2) = next_slot bs1;
               (s3, bs3) = next_slot bs2;
               n = length (filter (\<lambda>v. v \<noteq> None) [s0, s1, s2, s3])
           in if n = 0 then []
              else let v0 = unwrap_or 0 s0;
                       v1 = unwrap_or 0 s1;
                       v2 = unwrap_or 0 s2;
                       v3 = unwrap_or 0 s3
                   in [push_bit 2 v0 OR drop_bit 4 v1]
                      @ (if s2 \<noteq> None then [push_bit 4 v1 OR drop_bit 2 v2] else [])
                      @ (if s3 \<noteq> None then [push_bit 6 v2 OR v3] else [])
                      @ (if n < 4 then [] else b64_decode_loop bs3))"
  by pat_completeness auto
termination
  by (relation "measure length")
    (auto simp: next_slot_def split: list.splits if_splits)

declare b64_decode_loop.simps [simp del]

definition b64_strip :: "bytes \<Rightarrow> bytes" where
  "b64_strip bs = filter (\<lambda>b. b \<noteq> 10 \<and> b \<noteq> 13 \<and> b \<noteq> 32) bs"

definition b64_bad :: "u8 \<Rightarrow> bool" where
  "b64_bad b = (b \<noteq> 61 \<and> b64_lookup b = None)"

definition b64_decode :: "string \<Rightarrow> string + bytes" where
  "b64_decode s =
     (let bs = b64_strip (str_bytes s)
      in if bs = [] then Inr []
         else case find b64_bad bs of
                Some b \<Rightarrow> Inl (''invalid base64 character: 0x'' @ hex_byte_upper b)
              | None \<Rightarrow>
                  let non_pad_len = length (takeWhile (\<lambda>b. b \<noteq> 61) bs);
                      pad_count = length bs - non_pad_len
                  in if pad_count > 2
                     then Inl ''invalid base64: more than 2 padding characters''
                     else if length bs mod 4 \<noteq> 0
                     then Inl (''invalid base64 length: '' @ show_nat (length bs)
                               @ '' (must be multiple of 4)'')
                     else Inr (b64_decode_loop bs))"

section \<open>Encoding\<close>

definition ALPHABET :: string where
  "ALPHABET = ''ABCDEFGHIJKLMNOPQRSTUVWXYZabcdefghijklmnopqrstuvwxyz0123456789+/''"

definition b64_char :: "u8 \<Rightarrow> char" where
  "b64_char i = ALPHABET ! unat i"

function b64_encode_loop :: "bytes \<Rightarrow> nat \<Rightarrow> string" where
  "b64_encode_loop data i =
     (if i < length data
      then let b0 = data ! i;
               b1 = (if i + 1 < length data then data ! (i + 1) else 0);
               b2 = (if i + 2 < length data then data ! (i + 2) else 0)
           in [b64_char (drop_bit 2 b0), b64_char ((push_bit 4 b0 AND 48) OR drop_bit 4 b1)]
              @ (if i + 1 < length data
                 then [b64_char ((push_bit 2 b1 AND 60) OR drop_bit 6 b2)] else ''='')
              @ (if i + 2 < length data then [b64_char (b2 AND 63)] else ''='')
              @ b64_encode_loop data (i + 3)
      else [])"
  by pat_completeness auto
termination
  by (relation "measure (\<lambda>(data, i). length data - i)") auto

declare b64_encode_loop.simps [simp del]

definition b64_encode :: "bytes \<Rightarrow> string" where
  "b64_encode data = b64_encode_loop data 0"

section \<open>The reference encoder\<close>

text \<open>Groups of three bytes to groups of four digits, the last group padded with \<open>=\<close>.\<close>

fun enc :: "bytes \<Rightarrow> string" where
  "enc [] = []"
| "enc [b0] = [b64_char (drop_bit 2 b0), b64_char (push_bit 4 b0 AND 48), CHR ''='', CHR ''='']"
| "enc [b0, b1] = [b64_char (drop_bit 2 b0), b64_char ((push_bit 4 b0 AND 48) OR drop_bit 4 b1),
                   b64_char (push_bit 2 b1 AND 60), CHR ''='']"
| "enc (b0 # b1 # b2 # bs) =
     [b64_char (drop_bit 2 b0), b64_char ((push_bit 4 b0 AND 48) OR drop_bit 4 b1),
      b64_char ((push_bit 2 b1 AND 60) OR drop_bit 6 b2), b64_char (b2 AND 63)] @ enc bs"

lemma b64_encode_loop_enc: "b64_encode_loop data i = enc (drop i data)"
proof (induction data i rule: b64_encode_loop.induct)
  case (1 data i)
  consider "length data \<le> i" | "i < length data" "length data = i + 1"
    | "i < length data" "length data = i + 2" | "i + 2 < length data"
    by linarith
  then show ?case
  proof cases
    case 1
    then show ?thesis by (simp add: b64_encode_loop.simps)
  next
    case 2
    then have "drop i data = [data ! i]"
      by (simp add: Cons_nth_drop_Suc [symmetric])
    then show ?thesis using 2 by (simp add: b64_encode_loop.simps Let_def)
  next
    case 3
    then have "drop i data = [data ! i, data ! (i + 1)]"
      by (simp add: Cons_nth_drop_Suc [symmetric])
    then show ?thesis using 3 by (simp add: b64_encode_loop.simps Let_def)
  next
    case 4
    then have "drop i data = data ! i # data ! (i + 1) # data ! (i + 2) # drop (i + 3) data"
      by (simp add: Cons_nth_drop_Suc [symmetric] numeral_eq_Suc)
    then show ?thesis using 4 "1.IH" by (subst b64_encode_loop.simps) (simp add: Let_def)
  qed
qed

lemma b64_encode_enc: "b64_encode data = enc data"
  by (simp add: b64_encode_def b64_encode_loop_enc)

section \<open>Digits\<close>

lemma digit_table:
  "\<forall>k\<in>set [0..<64]. b64_lookup (of_char (ALPHABET ! k)) = Some (word_of_nat k) \<and>
     ALPHABET ! k \<notin> set ['' '' ! 0, CHR 0x0A, CHR 0x0D, CHR ''='']"
  by code_simp

lemma b64_lookup_char:
  assumes "unat i < 64"
  shows "b64_lookup (of_char (b64_char i)) = Some i"
  using bspec [OF digit_table, of "unat i"] assms by (simp add: b64_char_def)

lemma b64_char_plain:
  assumes "unat i < 64"
  shows "(of_char (b64_char i) :: u8) \<noteq> 61" "(of_char (b64_char i) :: u8) \<noteq> 10"
    "(of_char (b64_char i) :: u8) \<noteq> 13" "(of_char (b64_char i) :: u8) \<noteq> 32"
proof -
  have "(of_char (CHR ''='') :: u8) = 61" "(of_char CHR 0x0A :: u8) = 10"
    "(of_char CHR 0x0D :: u8) = 13" "(of_char (CHR '' '') :: u8) = 32"
    by (simp_all add: of_char_def)
  moreover have "b64_char i \<notin> set ['' '' ! 0, CHR 0x0A, CHR 0x0D, CHR ''='']"
    using bspec [OF digit_table, of "unat i"] assms by (simp add: b64_char_def)
  ultimately show "(of_char (b64_char i) :: u8) \<noteq> 61" "(of_char (b64_char i) :: u8) \<noteq> 10"
    "(of_char (b64_char i) :: u8) \<noteq> 13" "(of_char (b64_char i) :: u8) \<noteq> 32"
    by (simp_all flip: of_char_u8_inject)
qed

lemma u8_eq_bits:
  "(v :: u8) = w \<longleftrightarrow> bit v 0 = bit w 0 \<and> bit v 1 = bit w 1 \<and> bit v 2 = bit w 2 \<and>
     bit v 3 = bit w 3 \<and> bit v 4 = bit w 4 \<and> bit v 5 = bit w 5 \<and> bit v 6 = bit w 6 \<and>
     bit v 7 = bit w 7"
proof
  assume bits: "bit v 0 = bit w 0 \<and> bit v 1 = bit w 1 \<and> bit v 2 = bit w 2 \<and>
     bit v 3 = bit w 3 \<and> bit v 4 = bit w 4 \<and> bit v 5 = bit w 5 \<and> bit v 6 = bit w 6 \<and>
     bit v 7 = bit w 7"
  show "v = w"
  proof (rule bit_word_eqI)
    fix n assume "n < LENGTH(8)"
    then have "n = 0 \<or> n = 1 \<or> n = 2 \<or> n = 3 \<or> n = 4 \<or> n = 5 \<or> n = 6 \<or> n = 7" by auto
    then show "bit v n \<longleftrightarrow> bit w n" using bits by auto
  qed
qed simp

lemma u8_below_64: "unat (w :: u8) < 64 \<longleftrightarrow> \<not> bit w 6 \<and> \<not> bit w 7"
proof -
  have "unat w < 64 \<longleftrightarrow> w AND push_bit 6 255 = 0" using and_high_mask [of w 6] by simp
  also have "\<dots> \<longleftrightarrow> \<not> bit w 6 \<and> \<not> bit w 7"
    by (simp add: u8_eq_bits bit_simps)
  finally show ?thesis .
qed

lemma u8_no_bit: "8 \<le> n \<Longrightarrow> \<not> bit (b :: u8) n"
  using bit_imp_le_length [of b n] by auto

lemma digit_bounds:
  "unat (drop_bit 2 (b0 :: u8)) < 64"
  "unat (push_bit 4 (b0 :: u8) AND 48) < 64"
  "unat ((push_bit 4 (b0 :: u8) AND 48) OR drop_bit 4 b1) < 64"
  "unat (push_bit 2 (b1 :: u8) AND 60) < 64"
  "unat ((push_bit 2 (b1 :: u8) AND 60) OR drop_bit 6 b2) < 64"
  "unat ((b2 :: u8) AND 63) < 64"
  by (simp_all add: u8_below_64 bit_simps u8_no_bit)

lemma group_bits:
  "push_bit 2 (drop_bit 2 b0) OR drop_bit 4 ((push_bit 4 b0 AND 48) OR drop_bit 4 b1) = (b0 :: u8)"
  "push_bit 4 ((push_bit 4 b0 AND 48) OR drop_bit 4 b1)
     OR drop_bit 2 ((push_bit 2 b1 AND 60) OR drop_bit 6 b2) = (b1 :: u8)"
  "push_bit 6 ((push_bit 2 b1 AND 60) OR drop_bit 6 b2) OR (b2 AND 63) = (b2 :: u8)"
  by (simp_all add: u8_eq_bits bit_simps u8_no_bit)

lemma group_bits_padded:
  "push_bit 2 (drop_bit 2 b0) OR drop_bit 4 (push_bit 4 b0 AND 48) = (b0 :: u8)"
  "push_bit 4 ((push_bit 4 b0 AND 48) OR drop_bit 4 b1) OR drop_bit 2 (push_bit 2 b1 AND 60) = (b1 :: u8)"
  using group_bits(1) [of b0 0] group_bits(2) [of b0 b1 0]
  by (simp_all only: drop_bit_of_0 or.right_neutral)

lemma next_slot_digit:
  "unat i < 64 \<Longrightarrow> next_slot (of_char (b64_char i) # cs) = (Some i, cs)"
  by (simp add: next_slot_def b64_char_plain b64_lookup_char)

lemma next_slot_pad: "next_slot (61 # cs) = (None, cs)"
  by (simp add: next_slot_def)

lemma of_char_pad: "(of_char (CHR ''='') :: u8) = 61"
  by (simp add: of_char_def)

lemma of_char_space:
  "(of_char CHR 0x0A :: u8) = 10" "(of_char CHR 0x0D :: u8) = 13" "(of_char (CHR '' '') :: u8) = 32"
  by (simp_all add: of_char_def)

section \<open>Round trip\<close>

lemmas slot_simps = next_slot_digit next_slot_pad unwrap_or_def

lemma decode_group1:
  assumes "unat i0 < 64" "unat i1 < 64"
  shows "b64_decode_loop [of_char (b64_char i0), of_char (b64_char i1), 61, 61] =
    [push_bit 2 i0 OR drop_bit 4 i1]"
  using assms by (simp add: b64_decode_loop.simps slot_simps)

lemma decode_group2:
  assumes "unat i0 < 64" "unat i1 < 64" "unat i2 < 64"
  shows "b64_decode_loop [of_char (b64_char i0), of_char (b64_char i1), of_char (b64_char i2), 61] =
    [push_bit 2 i0 OR drop_bit 4 i1, push_bit 4 i1 OR drop_bit 2 i2]"
  using assms by (simp add: b64_decode_loop.simps slot_simps)

lemma decode_group3:
  assumes "unat i0 < 64" "unat i1 < 64" "unat i2 < 64" "unat i3 < 64"
  shows "b64_decode_loop (of_char (b64_char i0) # of_char (b64_char i1) # of_char (b64_char i2)
      # of_char (b64_char i3) # cs) =
    (push_bit 2 i0 OR drop_bit 4 i1) # (push_bit 4 i1 OR drop_bit 2 i2) # (push_bit 6 i2 OR i3)
      # b64_decode_loop cs"
  using assms by (subst b64_decode_loop.simps) (simp add: slot_simps)

lemma decode_loop_enc: "b64_decode_loop (map of_char (enc data)) = data"
proof (induction data rule: enc.induct)
  case 1
  then show ?case by (simp add: b64_decode_loop.simps)
next
  case (2 b0)
  then show ?case
    by (simp only: enc.simps list.map of_char_pad decode_group1 digit_bounds group_bits_padded)
next
  case (3 b0 b1)
  then show ?case
    by (simp only: enc.simps list.map of_char_pad decode_group2 digit_bounds group_bits
        group_bits_padded)
next
  case (4 b0 b1 b2 bs)
  then show ?case
    by (simp only: enc.simps list.map append.simps decode_group3 digit_bounds group_bits)
qed

text \<open>What the encoder's output looks like: digits, then at most two padding characters.\<close>

lemma enc_shape:
  "\<exists>ds pad. enc data = map b64_char ds @ pad \<and> (\<forall>d\<in>set ds. unat d < 64) \<and>
     (pad = [] \<or> pad = ''='' \<or> pad = ''=='') \<and> length (enc data) mod 4 = 0"
proof (induction data rule: enc.induct)
  case 1
  then show ?case by simp
next
  case (2 b0)
  show ?case
    by (rule exI [of _ "[drop_bit 2 b0, push_bit 4 b0 AND 48]"], rule exI [of _ "''==''"])
      (simp add: digit_bounds)
next
  case (3 b0 b1)
  show ?case
    by (rule exI [of _ "[drop_bit 2 b0, (push_bit 4 b0 AND 48) OR drop_bit 4 b1, push_bit 2 b1 AND 60]"],
        rule exI [of _ "''=''"])
      (simp add: digit_bounds)
next
  case (4 b0 b1 b2 bs)
  from "4.IH" show ?case
  proof (elim exE conjE)
    fix ds pad
    assume ds: "enc bs = map b64_char ds @ pad" "\<forall>d\<in>set ds. unat d < 64"
      "pad = [] \<or> pad = ''='' \<or> pad = ''==''" "length (enc bs) mod 4 = 0"
    have "enc (b0 # b1 # b2 # bs) = map b64_char ([drop_bit 2 b0, (push_bit 4 b0 AND 48) OR drop_bit 4 b1,
          (push_bit 2 b1 AND 60) OR drop_bit 6 b2, b2 AND 63] @ ds) @ pad"
      using ds(1) by (simp only: enc.simps list.map map_append append.simps append_assoc)
    moreover have "length (enc (b0 # b1 # b2 # bs)) mod 4 = 0" using ds(4) by simp
    moreover have "\<forall>d\<in>set ([drop_bit 2 b0, (push_bit 4 b0 AND 48) OR drop_bit 4 b1,
          (push_bit 2 b1 AND 60) OR drop_bit 6 b2, b2 AND 63] @ ds). unat d < 64"
      using ds(2) by (simp only: set_append ball_Un) (simp add: digit_bounds)
    ultimately show ?case using ds(3) by (intro exI conjI)
  qed
qed

lemma enc_byte:
  assumes "b \<in> set (str_bytes (enc data))"
  shows "b = 61 \<or> (\<exists>d. unat d < 64 \<and> b = of_char (b64_char d))"
proof -
  obtain ds pad where ds: "enc data = map b64_char ds @ pad" "\<forall>d\<in>set ds. unat d < 64"
    "pad = [] \<or> pad = ''='' \<or> pad = ''==''"
    using enc_shape by blast
  have "set pad \<subseteq> {CHR ''=''}" using ds(3) by auto
  then show ?thesis using assms ds(1,2) of_char_pad by (auto simp: str_bytes_def)
qed

lemma strip_enc: "b64_strip (str_bytes (enc data)) = str_bytes (enc data)"
  unfolding b64_strip_def
proof (rule filter_True, rule ballI)
  fix b assume "b \<in> set (str_bytes (enc data))"
  from enc_byte [OF this] show "b \<noteq> 10 \<and> b \<noteq> 13 \<and> b \<noteq> 32"
    by (auto simp: b64_char_plain)
qed

lemma find_bad_enc: "find b64_bad (str_bytes (enc data)) = None"
proof -
  have "\<not> b64_bad b" if "b \<in> set (str_bytes (enc data))" for b
    using enc_byte [OF that] by (auto simp: b64_bad_def b64_lookup_char)
  then show ?thesis by (auto simp: find_None_iff)
qed

lemma pad_count_enc:
  "length (str_bytes (enc data)) - length (takeWhile (\<lambda>b. b \<noteq> 61) (str_bytes (enc data))) \<le> 2"
proof -
  obtain ds pad where ds: "enc data = map b64_char ds @ pad" "\<forall>d\<in>set ds. unat d < 64"
    "pad = [] \<or> pad = ''='' \<or> pad = ''==''"
    using enc_shape by blast
  have "takeWhile (\<lambda>b. b \<noteq> 61) (str_bytes (map b64_char ds) @ str_bytes pad) =
      str_bytes (map b64_char ds) @ takeWhile (\<lambda>b. b \<noteq> 61) (str_bytes pad)"
    using ds by (intro takeWhile_append2) (auto simp: str_bytes_def b64_char_plain)
  then show ?thesis using ds by auto
qed

lemma b64_decode_encode [simp]: "b64_decode (b64_encode data) = Inr data"
proof -
  have len: "length (str_bytes (enc data)) mod 4 = 0" using enc_shape [of data] by auto
  have "enc data = [] \<Longrightarrow> data = []" by (cases data rule: enc.cases) auto
  then show ?thesis
    using pad_count_enc [of data] len decode_loop_enc [of data]
    by (auto simp: b64_decode_def b64_encode_enc strip_enc find_bad_enc Let_def)
      (auto simp: str_bytes_def)
qed

section \<open>What the decoder accepts\<close>

lemma lookup_table:
  "\<forall>n\<in>set [0..<124]. case b64_lookup (word_of_nat n) of
     None \<Rightarrow> True | Some v \<Rightarrow> unat v < 64 \<and> of_char (ALPHABET ! unat v) = n"
  by code_simp

lemma b64_lookup_range: "b64_lookup c = Some v \<Longrightarrow> unat c < 124"
  by (auto simp: b64_lookup_def word_le_nat_alt split: if_splits)

lemma b64_lookup_alphabet:
  assumes "b64_lookup (of_char c) \<noteq> None"
  shows "c \<in> set ALPHABET"
proof -
  obtain v where v: "b64_lookup (of_char c) = Some v" using assms by auto
  have "(word_of_nat (of_char c) :: u8) = of_char c" by (simp only: of_nat_of_char)
  moreover have "(of_char c :: nat) \<in> set [0..<124]" using b64_lookup_range [OF v] by simp
  ultimately have "unat v < 64" "(of_char (ALPHABET ! unat v) :: nat) = of_char c"
    using bspec [OF lookup_table, of "of_char c"] v by simp_all
  moreover have "length ALPHABET = 64" by (simp add: ALPHABET_def)
  ultimately show ?thesis by (metis nth_mem of_char_eq_iff)
qed

lemma decode_loop_group:
  "length (b64_decode_loop (a # b # c # d # cs)) \<le> 3 + length (b64_decode_loop cs)"
proof -
  have ex: "\<exists>s. next_slot (x # xs) = (s, xs)" for x xs
    by (simp add: next_slot_def)
  obtain s0 where s0: "next_slot (a # b # c # d # cs) = (s0, b # c # d # cs)" using ex by blast
  obtain s1 where s1: "next_slot (b # c # d # cs) = (s1, c # d # cs)" using ex by blast
  obtain s2 where s2: "next_slot (c # d # cs) = (s2, d # cs)" using ex by blast
  obtain s3 where s3: "next_slot (d # cs) = (s3, cs)" using ex by blast
  show ?thesis
    by (subst b64_decode_loop.simps) (simp only: s0 s1 s2 s3 Let_def prod.case, simp)
qed

lemma length_decode_loop:
  "length bs mod 4 = 0 \<Longrightarrow> 4 * length (b64_decode_loop bs) \<le> 3 * length bs"
proof (induction bs rule: length_induct)
  case (1 bs)
  show ?case
  proof (cases "bs = []")
    case True
    then show ?thesis by (simp add: b64_decode_loop.simps)
  next
    case False
    then have "4 \<le> length bs" using "1.prems" by (metis length_0_conv mod_less not_le)
    then obtain a b c d cs where bs: "bs = a # b # c # d # cs"
      by (auto simp: Suc_le_length_iff numeral_eq_Suc)
    then have "4 * length (b64_decode_loop cs) \<le> 3 * length cs" using 1 by simp
    then show ?thesis using decode_loop_group [of a b c d cs] bs by simp
  qed
qed

section \<open>Properties\<close>

text \<open>C32: Decoding what \<open>b64_encode\<close> produced gives back the bytes, for every byte string.\<close>

theorem b64_round_trip: "b64_decode (b64_encode data) = Inr data"
  by (rule b64_decode_encode)

text \<open>
  A text the decoder accepts holds nothing but alphabet characters, \<open>=\<close> and the three
  whitespace characters it strips (nothing else is skipped silently), and decodes to at most
  three bytes for every four characters.
\<close>

theorem b64_decode_rejects_foreign_characters:
  assumes "b64_decode s = Inr out"
  shows "set s \<subseteq> set ALPHABET \<union> {CHR ''='', CHR 0x0A, CHR 0x0D, CHR '' ''} \<and>
    4 * length out \<le> 3 * length s"
proof
  let ?bs = "b64_strip (str_bytes s)"
  have ok: "\<not> b64_bad b" if "b \<in> set ?bs" for b
    using assms that by (auto simp: b64_decode_def Let_def find_None_iff split: if_splits option.splits)
  show "set s \<subseteq> set ALPHABET \<union> {CHR ''='', CHR 0x0A, CHR 0x0D, CHR '' ''}"
  proof
    fix c assume "c \<in> set s"
    then have "of_char c \<in> set ?bs \<or> of_char c \<in> {10, 13, 32 :: u8}"
      by (auto simp: b64_strip_def str_bytes_def)
    then show "c \<in> set ALPHABET \<union> {CHR ''='', CHR 0x0A, CHR 0x0D, CHR '' ''}"
      using ok [of "of_char c"] b64_lookup_alphabet [of c]
      by (auto simp only: b64_bad_def of_char_pad [symmetric] of_char_space [symmetric]
          of_char_u8_inject insert_iff empty_iff Un_iff)
  qed
  have "4 * length out \<le> 3 * length ?bs"
    using assms length_decode_loop [of ?bs]
    by (auto simp: b64_decode_def Let_def split: if_splits option.splits)
  then show "4 * length out \<le> 3 * length s"
    using length_filter_le [of "\<lambda>b. b \<noteq> 10 \<and> b \<noteq> 13 \<and> b \<noteq> 32" "str_bytes s"]
    by (simp add: b64_strip_def)
qed

theorem b64_decode_rejects_foreign_characters_witness:
  "set ''AAI='' \<subseteq> set ALPHABET \<union> {CHR ''='', CHR 0x0A, CHR 0x0D, CHR '' ''} \<and>
   4 * length [0, 2 :: u8] \<le> 3 * length ''AAI=''"
proof -
  have "b64_decode ''AAI='' = Inr [0, 2]" by code_simp
  from b64_decode_rejects_foreign_characters [OF this] show ?thesis .
qed

text \<open>
  The decoder does not require \<open>=\<close> to stand at the end: a padding character before a digit
  is accepted, and the text decodes to bytes whose encoding is a different text, so two texts
  name the same bytes.
\<close>

theorem b64_decode_accepts_inner_padding:
  "b64_decode ''AB=C'' = Inr [0, 2] \<and> b64_encode [0, 2] = ''AAI=''"
proof
  show "b64_decode ''AB=C'' = Inr [0, 2]" by code_simp
  show "b64_encode [0, 2] = ''AAI=''" by code_simp
qed

end
