(* ===== verification/Ws_Bridge.thy ===== *)
theory Ws_Bridge
  imports Relay_Store Rate_Limiter Pow Base64
begin

text \<open>
  The server side of the WebSocket bridge (\<open>relay/src/ws.rs\<close>): the shared state, the five
  requests, the proof-of-work check with its single-use challenges, and the connection loop.
  What a request reads from outside (wall clock, monotonic clock, the nonce drawn for a new
  challenge, which log levels are enabled) is the record \<open>WsEnv\<close>; a \<open>tracing\<close> macro evaluates
  its fields, and hence \<open>truncate_id\<close>, only when its level is enabled. SHA-256 is a parameter.
  A handler that panics keeps what it had already written to the shared state. The last
  sections split the handler at its lock acquisitions and interleave any number of requests.
\<close>

section \<open>State and frames\<close>

definition DEFAULT_PREKEY_TTL :: nat where
  "DEFAULT_PREKEY_TTL = from_secs 86400"

definition DEFAULT_ENVELOPE_TTL :: nat where
  "DEFAULT_ENVELOPE_TTL = from_secs (7 * 86400)"

definition POW_DIFFICULTY :: u32 where
  "POW_DIFFICULTY = 20"

definition POW_CONTEXT :: bytes where
  "POW_CONTEXT = str_bytes ''ws-relay-v1''"

record WsState =
  ws_store :: RelayStore
  ws_prekeys :: RelayStore
  ws_rate_limiter :: RateLimiter
  ws_challenges :: "(string, Challenge) hmap"

definition WsState_new :: "u32 \<Rightarrow> WsState" where
  "WsState_new rate_limit_per_minute =
     \<lparr>ws_store = RelayStore_new, ws_prekeys = RelayStore_new,
      ws_rate_limiter = RateLimiter_per_identity rate_limit_per_minute, ws_challenges = []\<rparr>"

datatype WsRequest =
    ReqChallenge (req_recipient: string)
  | PublishPrekey (req_recipient: string) (req_bundle: string) (req_challenge_id: string)
      (req_pow_solution: string)
  | LookupPrekey (req_recipient: string)
  | SendEnvelope (req_recipient: string) (req_envelope: string) (req_challenge_id: string)
      (req_pow_solution: string)
  | PickupEnvelope (req_recipient: string)

datatype WsResponse =
    RespOk (resp_ok: bool) (resp_bundle: "string option") (resp_envelope: "string option")
      (resp_challenge: "string option") (resp_challenge_id: "string option")
  | RespErr (resp_ok: bool) (resp_error: string)

definition WsResponse_ok_simple :: WsResponse where
  "WsResponse_ok_simple = RespOk True None None None None"

definition WsResponse_ok_bundle :: "string \<Rightarrow> WsResponse" where
  "WsResponse_ok_bundle bundle = RespOk True (Some bundle) None None None"

definition WsResponse_ok_envelope :: "string \<Rightarrow> WsResponse" where
  "WsResponse_ok_envelope envelope = RespOk True None (Some envelope) None None"

definition WsResponse_ok_challenge :: "string \<Rightarrow> string \<Rightarrow> WsResponse" where
  "WsResponse_ok_challenge challenge_id challenge =
     RespOk True None None (Some challenge) (Some challenge_id)"

definition WsResponse_err :: "string \<Rightarrow> WsResponse" where
  "WsResponse_err msg = RespErr False msg"

record WsEnv =
  env_unix_secs :: nat
  env_instant :: nat
  env_nonce :: bytes
  env_warn :: bool
  env_info :: bool

section \<open>Logging\<close>

text \<open>\<open>&id[..8]\<close> panics when byte 8 lies inside a character; the ellipsis is three bytes of UTF-8.\<close>

definition truncate_id :: "string \<Rightarrow> string run" where
  "truncate_id i =
     (if length i \<le> 8 then Return i
      else if is_char_boundary i 8
      then Return (take 8 i @ [CHR 0xE2, CHR 0x80, CHR 0xA6])
      else Panic)"

definition log_then :: "bool \<Rightarrow> string \<Rightarrow> 'a run \<Rightarrow> 'a run" where
  "log_then enabled recipient_id k =
     (if enabled \<and> truncate_id recipient_id = Panic then Panic else k)"

section \<open>Requests\<close>

definition PowError_message :: "PowError \<Rightarrow> string" where
  "PowError_message e =
     (case e of
        Invalid difficulty \<Rightarrow> ''invalid solution ('' @ show_nat (unat difficulty) @ '' bits)''
      | MalformedChallenge reason \<Rightarrow> ''malformed challenge: '' @ reason)"

definition StoreError_debug :: "StoreError \<Rightarrow> string" where
  "StoreError_debug e = (case e of Expired \<Rightarrow> ''Expired'' | NotFound \<Rightarrow> ''NotFound'')"

definition verify_pow ::
  "(bytes \<Rightarrow> bytes) \<Rightarrow> string \<Rightarrow> string \<Rightarrow> WsState \<Rightarrow> (string + unit) run \<times> WsState" where
  "verify_pow sha256 challenge_id pow_solution st =
     (case b64_decode pow_solution of
        Inl e \<Rightarrow> (Return (Inl (''solution base64 decode: '' @ e)), st)
      | Inr solution \<Rightarrow>
          (case map_of (ws_challenges st) challenge_id of
             None \<Rightarrow> (Return (Inl ''challenge not found or already used''), st)
           | Some challenge \<Rightarrow>
               let st = st\<lparr>ws_challenges := hm_remove challenge_id (ws_challenges st)\<rparr>
               in (case verify sha256 challenge solution of
                     Panic \<Rightarrow> (Panic, st)
                   | Return r \<Rightarrow> (Return (map_err PowError_message r), st))))"

text \<open>The rate-limit block every arm of the handler starts with: \<open>Some\<close> is the early return.\<close>

definition check_rate :: "WsEnv \<Rightarrow> string \<Rightarrow> WsState \<Rightarrow> WsResponse option run \<times> WsState" where
  "check_rate env recipient_id st =
     (let now = from_secs (env_unix_secs env);
          (r, rl) = RateLimiter_check (str_bytes recipient_id) now (ws_rate_limiter st);
          st = st\<lparr>ws_rate_limiter := rl\<rparr>
      in (case r of
            Inl _ \<Rightarrow>
              (log_then (env_warn env) recipient_id (Return (Some (WsResponse_err ''RateLimitExceeded''))), st)
          | Inr _ \<Rightarrow> (Return None, st)))"

text \<open>Sequencing: an early return or a panic ends the handler with the state as it is.\<close>

definition and_then ::
  "WsResponse option run \<times> WsState \<Rightarrow> (WsState \<Rightarrow> WsResponse run \<times> WsState) \<Rightarrow>
   WsResponse run \<times> WsState" where
  "and_then p k =
     (case p of
        (Panic, st) \<Rightarrow> (Panic, st)
      | (Return (Some resp), st) \<Rightarrow> (Return resp, st)
      | (Return None, st) \<Rightarrow> k st)"

text \<open>The proof-of-work block of the two writing arms.\<close>

definition check_pow ::
  "(bytes \<Rightarrow> bytes) \<Rightarrow> WsEnv \<Rightarrow> string \<Rightarrow> string \<Rightarrow> string \<Rightarrow> WsState \<Rightarrow>
   WsResponse option run \<times> WsState" where
  "check_pow sha256 env recipient_id challenge_id pow_solution st =
     (case verify_pow sha256 challenge_id pow_solution st of
        (Panic, st) \<Rightarrow> (Panic, st)
      | (Return (Inl e), st) \<Rightarrow>
          (log_then (env_warn env) recipient_id (Return (Some (WsResponse_err (''PowFailed: '' @ e)))), st)
      | (Return (Inr _), st) \<Rightarrow> (Return None, st))"

definition issue_challenge :: "WsEnv \<Rightarrow> WsState \<Rightarrow> WsResponse run \<times> WsState" where
  "issue_challenge env st =
     (case Challenge_new POW_CONTEXT POW_DIFFICULTY (env_nonce env) of
        Panic \<Rightarrow> (Panic, st)
      | Return challenge \<Rightarrow>
          let challenge_id = hex_encode (ch_nonce challenge);
              wire = Challenge_to_wire challenge
          in (Return (WsResponse_ok_challenge challenge_id (b64_encode wire)),
              st\<lparr>ws_challenges := hm_insert challenge_id challenge (ws_challenges st)\<rparr>))"

definition store_prekey :: "WsEnv \<Rightarrow> string \<Rightarrow> string \<Rightarrow> WsState \<Rightarrow> WsResponse run \<times> WsState" where
  "store_prekey env recipient_id bundle st =
     (case b64_decode bundle of
        Inl e \<Rightarrow> (Return (WsResponse_err (''InvalidBase64: '' @ e)), st)
      | Inr bundle_bytes \<Rightarrow>
          let prekey_key = ''prekey:'' @ recipient_id;
              (r, s) = RelayStore_store (env_instant env) prekey_key bundle_bytes DEFAULT_PREKEY_TTL
                         (ws_prekeys st);
              st = st\<lparr>ws_prekeys := s\<rparr>
          in (case r of
                Inl e \<Rightarrow> (Return (WsResponse_err (''StoreError: '' @ StoreError_debug e)), st)
              | Inr _ \<Rightarrow> (log_then (env_info env) recipient_id (Return WsResponse_ok_simple), st)))"

definition store_envelope :: "WsEnv \<Rightarrow> string \<Rightarrow> string \<Rightarrow> WsState \<Rightarrow> WsResponse run \<times> WsState" where
  "store_envelope env recipient_id envelope st =
     (case b64_decode envelope of
        Inl e \<Rightarrow> (Return (WsResponse_err (''InvalidBase64: '' @ e)), st)
      | Inr envelope_bytes \<Rightarrow>
          let (r, s) = RelayStore_store (env_instant env) recipient_id envelope_bytes
                         DEFAULT_ENVELOPE_TTL (ws_store st);
              st = st\<lparr>ws_store := s\<rparr>
          in (case r of
                Inl e \<Rightarrow> (Return (WsResponse_err (''StoreError: '' @ StoreError_debug e)), st)
              | Inr _ \<Rightarrow> (log_then (env_info env) recipient_id (Return WsResponse_ok_simple), st)))"

definition fetch_prekey :: "WsEnv \<Rightarrow> string \<Rightarrow> WsState \<Rightarrow> WsResponse run \<times> WsState" where
  "fetch_prekey env recipient_id st =
     (let prekey_key = ''prekey:'' @ recipient_id;
          (r, s) = RelayStore_pickup (env_instant env) prekey_key (ws_prekeys st);
          st = st\<lparr>ws_prekeys := s\<rparr>
      in (Return (case r of
                    Inr bundle_bytes \<Rightarrow> WsResponse_ok_bundle (b64_encode bundle_bytes)
                  | Inl NotFound \<Rightarrow> WsResponse_err ''NotFound''
                  | Inl Expired \<Rightarrow> WsResponse_err ''Expired''), st))"

definition fetch_envelope :: "WsEnv \<Rightarrow> string \<Rightarrow> WsState \<Rightarrow> WsResponse run \<times> WsState" where
  "fetch_envelope env recipient_id st =
     (let (r, s) = RelayStore_pickup (env_instant env) recipient_id (ws_store st);
          st = st\<lparr>ws_store := s\<rparr>
      in (Return (case r of
                    Inr envelope_bytes \<Rightarrow> WsResponse_ok_envelope (b64_encode envelope_bytes)
                  | Inl NotFound \<Rightarrow> WsResponse_err ''NotFound''
                  | Inl Expired \<Rightarrow> WsResponse_err ''Expired''), st))"

definition handle_request ::
  "(bytes \<Rightarrow> bytes) \<Rightarrow> WsEnv \<Rightarrow> WsRequest \<Rightarrow> WsState \<Rightarrow> WsResponse run \<times> WsState" where
  "handle_request sha256 env req st =
     (case req of
        ReqChallenge recipient_id \<Rightarrow>
          and_then (check_rate env recipient_id st) (issue_challenge env)
      | PublishPrekey recipient_id bundle challenge_id pow_solution \<Rightarrow>
          and_then (check_rate env recipient_id st) (\<lambda>st.
          and_then (check_pow sha256 env recipient_id challenge_id pow_solution st)
            (store_prekey env recipient_id bundle))
      | LookupPrekey recipient_id \<Rightarrow>
          and_then (check_rate env recipient_id st) (fetch_prekey env recipient_id)
      | SendEnvelope recipient_id envelope challenge_id pow_solution \<Rightarrow>
          and_then (check_rate env recipient_id st) (\<lambda>st.
          and_then (check_pow sha256 env recipient_id challenge_id pow_solution st)
            (store_envelope env recipient_id envelope))
      | PickupEnvelope recipient_id \<Rightarrow>
          and_then (check_rate env recipient_id st) (fetch_envelope env recipient_id))"

section \<open>Connections\<close>

text \<open>
  The frames of one connection, each with the environment its handling sees and whether the
  answer could be written. \<open>from_str\<close> and \<open>to_string\<close> are serde's request parser (an error is
  its message) and response printer. The result is the frames written and the state; a
  panic ends the connection's task.
\<close>

datatype ws_message = Text string | Binary bytes | Close | Ping_Pong | Stream_Error string

fun handle_connection ::
  "(bytes \<Rightarrow> bytes) \<Rightarrow> (string \<Rightarrow> string + WsRequest) \<Rightarrow> (WsResponse \<Rightarrow> string) \<Rightarrow>
   (WsEnv \<times> ws_message \<times> bool) list \<Rightarrow> WsState \<Rightarrow> string list run \<times> WsState" where
  "handle_connection sha256 from_str to_string [] st = (Return [], st)"
| "handle_connection sha256 from_str to_string ((env, msg, sent) # rest) st =
     (let continue = (\<lambda>out st.
            (case handle_connection sha256 from_str to_string rest st of
               (Panic, st) \<Rightarrow> (Panic, st)
             | (Return outs, st) \<Rightarrow> (Return (out @ outs), st)));
          frame = (\<lambda>resp. if sent then [to_string resp] else [])
      in (case msg of
            Text text \<Rightarrow>
              (case from_str text of
                 Inl e \<Rightarrow> continue (frame (WsResponse_err (''MalformedRequest: '' @ e))) st
               | Inr req \<Rightarrow>
                   (case handle_request sha256 env req st of
                      (Panic, st) \<Rightarrow> (Panic, st)
                    | (Return resp, st) \<Rightarrow>
                        if sent then continue (frame resp) st else (Return [], st)))
          | Binary _ \<Rightarrow> continue (frame (WsResponse_err ''BinaryFramesNotAllowed'')) st
          | Close \<Rightarrow> (Return [], st)
          | Ping_Pong \<Rightarrow> continue [] st
          | Stream_Error _ \<Rightarrow> (Return [], st)))"

section \<open>Interleaving\<close>

text \<open>
  The handler awaits a lock up to three times, so requests of different connections interleave
  between their rate check, their proof-of-work check and their access to a store. A task is a
  request with the phase it has reached; \<open>Done\<close> keeps whether its proof of work was accepted.
\<close>

datatype ws_task =
    Fresh WsRequest
  | Limited WsRequest
  | Proved WsRequest
  | Done WsRequest bool "WsResponse run"

definition after_check ::
  "WsRequest \<Rightarrow> ws_task \<Rightarrow> WsResponse option run \<times> WsState \<Rightarrow> ws_task \<times> WsState" where
  "after_check req next p =
     (case p of
        (Panic, st) \<Rightarrow> (Done req False Panic, st)
      | (Return (Some resp), st) \<Rightarrow> (Done req False (Return resp), st)
      | (Return None, st) \<Rightarrow> (next, st))"

definition finish :: "WsRequest \<Rightarrow> bool \<Rightarrow> WsResponse run \<times> WsState \<Rightarrow> ws_task \<times> WsState" where
  "finish req proved p = (Done req proved (fst p), snd p)"

fun task_step :: "(bytes \<Rightarrow> bytes) \<Rightarrow> WsEnv \<Rightarrow> ws_task \<Rightarrow> WsState \<Rightarrow> ws_task \<times> WsState" where
  "task_step sha256 env (Fresh req) st =
     after_check req (Limited req) (check_rate env (req_recipient req) st)"
| "task_step sha256 env (Limited (ReqChallenge r)) st =
     finish (ReqChallenge r) False (issue_challenge env st)"
| "task_step sha256 env (Limited (LookupPrekey r)) st =
     finish (LookupPrekey r) False (fetch_prekey env r st)"
| "task_step sha256 env (Limited (PickupEnvelope r)) st =
     finish (PickupEnvelope r) False (fetch_envelope env r st)"
| "task_step sha256 env (Limited (PublishPrekey r b c p)) st =
     after_check (PublishPrekey r b c p) (Proved (PublishPrekey r b c p))
       (check_pow sha256 env r c p st)"
| "task_step sha256 env (Limited (SendEnvelope r e c p)) st =
     after_check (SendEnvelope r e c p) (Proved (SendEnvelope r e c p))
       (check_pow sha256 env r c p st)"
| "task_step sha256 env (Proved (PublishPrekey r b c p)) st =
     finish (PublishPrekey r b c p) True (store_prekey env r b st)"
| "task_step sha256 env (Proved (SendEnvelope r e c p)) st =
     finish (SendEnvelope r e c p) True (store_envelope env r e st)"
| "task_step sha256 env t st = (t, st)"

text \<open>The requests in flight: a new one arrives, or one takes its next step.\<close>

inductive pool_step ::
  "(bytes \<Rightarrow> bytes) \<Rightarrow> WsState \<times> ws_task list \<Rightarrow> WsState \<times> ws_task list \<Rightarrow> bool" for sha256 where
  arrive: "pool_step sha256 (st, ts) (st, ts @ [Fresh req])"
| advance: "i < length ts \<Longrightarrow> task_step sha256 env (ts ! i) st = (t', st') \<Longrightarrow>
    pool_step sha256 (st, ts) (st', ts[i := t'])"

inductive_cases pool_stepE: "pool_step sha256 (st, ts) (st', ts')"

definition served :: "(bytes \<Rightarrow> bytes) \<Rightarrow> u32 \<Rightarrow> WsState \<times> ws_task list \<Rightarrow> bool" where
  "served sha256 limit p = (pool_step sha256)\<^sup>*\<^sup>* (WsState_new limit, []) p"

fun accepted :: "ws_task \<Rightarrow> bool" where
  "accepted (Proved req) = True"
| "accepted (Done req proved resp) = proved"
| "accepted _ = False"

fun issued :: "ws_task \<Rightarrow> bool" where
  "issued (Done (ReqChallenge r) proved (Return (RespOk ok b e (Some c) i))) = True"
| "issued _ = False"

fun task_request :: "ws_task \<Rightarrow> WsRequest" where
  "task_request (Fresh req) = req"
| "task_request (Limited req) = req"
| "task_request (Proved req) = req"
| "task_request (Done req proved resp) = req"

section \<open>Lemmas\<close>

lemmas ws_defs = check_rate_def check_pow_def verify_pow_def issue_challenge_def store_prekey_def
  store_envelope_def fetch_prekey_def fetch_envelope_def and_then_def after_check_def finish_def

lemma log_then_cases: "log_then b i (Return x) = Return y \<Longrightarrow> y = x"
  by (auto simp: log_then_def split: if_splits)

lemma challenge_new_ok:
  "Challenge_new POW_CONTEXT POW_DIFFICULTY n =
     Return \<lparr>ch_context = POW_CONTEXT, ch_nonce = n, ch_difficulty = POW_DIFFICULTY\<rparr>"
  by (simp add: Challenge_new_def POW_DIFFICULTY_def)

lemma RelayStore_store_ok [simp]: "fst (RelayStore_store t k v ttl s) = Inr ()"
  by (rule rs.put_ok)

text \<open>Run alone, the phases of a task are the handler.\<close>

definition task_run :: "(bytes \<Rightarrow> bytes) \<Rightarrow> WsEnv \<Rightarrow> ws_task \<times> WsState \<Rightarrow> ws_task \<times> WsState" where
  "task_run sha256 env p = task_step sha256 env (fst p) (snd p)"

lemma task_run_handle_request:
  "\<exists>proved. task_run sha256 env (task_run sha256 env (task_run sha256 env (Fresh req, st))) =
     (Done req proved (fst (handle_request sha256 env req st)), snd (handle_request sha256 env req st))"
proof -
  obtain r1 st1 where c: "check_rate env (req_recipient req) st = (r1, st1)" by fastforce
  show ?thesis
  proof (cases req)
    case (PublishPrekey a b c' p)
    obtain r2 st2 where p: "check_pow sha256 env a c' p st1 = (r2, st2)" by fastforce
    show ?thesis using c p PublishPrekey
      by (auto simp: task_run_def handle_request_def and_then_def after_check_def finish_def
          split: run.splits option.splits)
  next
    case (SendEnvelope a b c' p)
    obtain r2 st2 where p: "check_pow sha256 env a c' p st1 = (r2, st2)" by fastforce
    show ?thesis using c p SendEnvelope
      by (auto simp: task_run_def handle_request_def and_then_def after_check_def finish_def
          split: run.splits option.splits)
  qed (use c in \<open>auto simp: task_run_def handle_request_def and_then_def after_check_def finish_def
          split: run.splits option.splits\<close>)
qed

lemma pool_step_last:
  "task_step sha256 env t st = (t', st') \<Longrightarrow> pool_step sha256 (st, ts @ [t]) (st', ts @ [t'])"
  using pool_step.advance [of "length ts" "ts @ [t]" sha256 env st t' st'] by simp

text \<open>A request handled with nothing in between is one way to serve it.\<close>

lemma served_request:
  assumes "served sha256 limit (st, ts)" "handle_request sha256 env req st = (resp, st')"
  shows "\<exists>proved. served sha256 limit (st', ts @ [Done req proved resp])"
proof -
  obtain t1 s1 where 1: "task_step sha256 env (Fresh req) st = (t1, s1)" by fastforce
  obtain t2 s2 where 2: "task_step sha256 env t1 s1 = (t2, s2)" by fastforce
  obtain t3 s3 where 3: "task_step sha256 env t2 s2 = (t3, s3)" by fastforce
  obtain proved where "t3 = Done req proved resp" "s3 = st'"
    using task_run_handle_request [of sha256 env req st] 1 2 3 assms(2)
    by (auto simp: task_run_def)
  moreover have "pool_step sha256 (st, ts) (st, ts @ [Fresh req])" by (rule pool_step.arrive)
  ultimately show ?thesis
    using assms(1) 1 2 3 pool_step_last unfolding served_def
    by (meson rtranclp.rtrancl_into_rtrancl)
qed

lemma served_new: "served sha256 limit (WsState_new limit, [])"
  by (simp add: served_def)

lemma count_update:
  "i < length xs \<Longrightarrow> length (filter P (xs[i := x])) + (if P (xs ! i) then 1 else 0) =
     length (filter P xs) + (if P x then 1 else 0)"
proof (induction xs arbitrary: i)
  case (Cons y ys)
  then show ?case by (cases i) auto
qed simp

subsection \<open>Frame conditions of the phases\<close>

lemma check_rate_frame:
  assumes "check_rate env r st = (x, st')"
  shows "ws_challenges st' = ws_challenges st" "ws_store st' = ws_store st"
    "ws_prekeys st' = ws_prekeys st"
  using assms by (auto simp: check_rate_def Let_def split: prod.splits sum.splits)

lemma check_pow_frame:
  assumes "check_pow sha256 env r c p st = (x, st')"
  shows "ws_store st' = ws_store st" "ws_prekeys st' = ws_prekeys st"
    "ws_rate_limiter st' = ws_rate_limiter st"
  using assms by (auto simp: check_pow_def verify_pow_def Let_def
      split: prod.splits sum.splits option.splits run.splits)

lemma check_pow_spends:
  assumes "check_pow sha256 env r c p st = (Return None, st')"
  shows "\<exists>challenge solution. map_of (ws_challenges st) c = Some challenge \<and>
    b64_decode p = Inr solution \<and> verify sha256 challenge solution = Return (Inr ()) \<and>
    ws_challenges st' = hm_remove c (ws_challenges st)"
  using assms by (auto simp: check_pow_def verify_pow_def Let_def log_then_def
      split: prod.splits sum.splits option.splits run.splits if_splits)

lemma check_pow_challenges:
  assumes "check_pow sha256 env r c p st = (x, st')"
  shows "ws_challenges st' = ws_challenges st \<or> ws_challenges st' = hm_remove c (ws_challenges st)"
  using assms by (auto simp: check_pow_def verify_pow_def Let_def
      split: prod.splits sum.splits option.splits run.splits)

lemma length_hm_remove_le: "length (hm_remove k m) \<le> length m"
  by (simp add: hm_remove_def)

lemma length_hm_remove_less: "map_of m k = Some v \<Longrightarrow> length (hm_remove k m) < length m"
  unfolding hm_remove_def by (rule length_filter_less [of "(k, v)"]) (auto dest: map_of_SomeD)

lemma length_hm_insert_le: "length (hm_insert k v m) \<le> Suc (length m)"
  using length_hm_remove_le [of k m] by (simp add: hm_insert_def)

subsection \<open>Ledgers\<close>

text \<open>
  What is conserved while requests interleave: a task may have earned a unit or spent one, the shared
  state holds units, and no step lets spent and held units outgrow the earned ones.
\<close>

locale ledger =
  fixes spent earned :: "ws_task \<Rightarrow> bool"
    and held :: "WsState \<Rightarrow> nat"
  assumes fresh_unspent: "\<not> spent (Fresh req)"
    and held_new: "held (WsState_new limit) = 0"
    and step_balance: "task_step sha256 env t st = (t', st') \<Longrightarrow>
      (if spent t' then 1 else 0) + held st' + (if earned t then 1 else 0)
        \<le> (if spent t then 1 else 0) + held st + (if earned t' then 1 else 0 :: nat)"
begin

lemma pool_balance:
  assumes "pool_step sha256 p q"
    and "length (filter spent (snd p)) + held (fst p) \<le> length (filter earned (snd p))"
  shows "length (filter spent (snd q)) + held (fst q) \<le> length (filter earned (snd q))"
  using assms
proof (induction rule: pool_step.induct)
  case (advance i ts env st t' st')
  then show ?case
    using count_update [of i ts spent t'] count_update [of i ts earned t'] step_balance [OF advance(2)]
    by simp
qed (simp add: fresh_unspent)

lemma balance:
  assumes "served sha256 limit (st, ts)"
  shows "length (filter spent ts) + held st \<le> length (filter earned ts)"
proof -
  have "length (filter spent (snd p)) + held (fst p) \<le> length (filter earned (snd p))"
    if "(pool_step sha256)\<^sup>*\<^sup>* (WsState_new limit, []) p" for p
    using that
    by (induction rule: rtranclp_induct) (simp add: held_new, blast intro: pool_balance)
  then show ?thesis using assms by (fastforce simp: served_def)
qed

end

subsection \<open>The challenge budget\<close>

text \<open>A step spends a challenge when it newly accepts a task and adds one only when it issues one.\<close>

lemma task_step_budget:
  assumes "task_step sha256 env t st = (t', st')"
  shows "(if accepted t' then 1 else 0) + length (ws_challenges st') + (if issued t then 1 else 0)
    \<le> (if accepted t then 1 else 0) + length (ws_challenges st) + (if issued t' then 1 else 0 :: nat)"
proof -
  have pow: "length (ws_challenges st') + (if accepted (fst q) then 1 else 0) \<le> length (ws_challenges st)"
    if "q = after_check req (Proved req) (check_pow sha256 env r c p st)" "snd q = st'" for q req r c p
  proof -
    obtain x s where x: "check_pow sha256 env r c p st = (x, s)" by fastforce
    then have s: "s = st'" using that by (auto simp: after_check_def split: run.splits option.splits)
    show ?thesis
    proof (cases "x = Return None")
      case True
      then show ?thesis
        using check_pow_spends x s length_hm_remove_less that
        by (fastforce simp: after_check_def)
    next
      case False
      then have "\<not> accepted (fst q)" using that x by (auto simp: after_check_def split: run.splits option.splits)
      then show ?thesis
        using check_pow_challenges [OF x] s length_hm_remove_le [of c "ws_challenges st"] by auto
    qed
  qed
  show ?thesis
  proof (cases "(sha256, env, t, st)" rule: task_step.cases)
    case (1 _ _ req _)
    obtain x s where x: "check_rate env (req_recipient req) st = (x, s)" by fastforce
    have "\<not> accepted t'" "ws_challenges st' = ws_challenges st"
      using assms 1 x check_rate_frame(1) [OF x]
      by (auto simp: after_check_def split: run.splits option.splits)
    then show ?thesis using 1 by simp
  next
    case (2 _ _ r _)
    then show ?thesis
      using assms length_hm_insert_le
      by (auto simp: finish_def issue_challenge_def challenge_new_ok Let_def WsResponse_ok_challenge_def)
  next
    case (5 _ _ r b c p _)
    then show ?thesis using assms pow [of "(t', st')" "task_request t" r c p] by simp
  next
    case (6 _ _ r b c p _)
    then show ?thesis using assms pow [of "(t', st')" "task_request t" r c p] by simp
  qed (use assms in \<open>auto simp: finish_def fetch_prekey_def fetch_envelope_def store_prekey_def
      store_envelope_def Let_def split: prod.splits sum.splits\<close>)
qed

interpretation challenges: ledger accepted issued "\<lambda>st. length (ws_challenges st)"
  by unfold_locales (simp, simp add: WsState_new_def, rule task_step_budget)

subsection \<open>Where stored content comes from\<close>

text \<open>The task that could have left content \<open>e\<close> under \<open>k\<close>: one whose proof of work was accepted.\<close>

definition envelope_writer :: "string \<Rightarrow> bytes \<Rightarrow> ws_task \<Rightarrow> bool" where
  "envelope_writer k e t =
     (accepted t \<and> (case task_request t of
        SendEnvelope r txt c p \<Rightarrow> r = k \<and> b64_decode txt = Inr e | _ \<Rightarrow> False))"

definition prekey_writer :: "string \<Rightarrow> bytes \<Rightarrow> ws_task \<Rightarrow> bool" where
  "prekey_writer k e t =
     (accepted t \<and> (case task_request t of
        PublishPrekey r txt c p \<Rightarrow> ''prekey:'' @ r = k \<and> b64_decode txt = Inr e | _ \<Rightarrow> False))"

lemma task_step_accepted:
  assumes "task_step sha256 env t st = (t', st')"
  shows "task_request t' = task_request t" "accepted t \<Longrightarrow> accepted t'"
  using assms
  by (cases "(sha256, env, t, st)" rule: task_step.cases;
      auto simp: after_check_def finish_def split: prod.splits run.splits option.splits)+

lemma pickup_slot:
  "RelayStore_pickup now k s = (r, s') \<Longrightarrow> map_of (rs_inner s') = (map_of (rs_inner s))(k := None)"
  using rs.slot_take [of now k s] by simp

lemma store_slot:
  "RelayStore_store now k v ttl s = (r, s') \<Longrightarrow>
     map_of (rs_inner s') = (map_of (rs_inner s))(k \<mapsto> (v, now + ttl))"
  using rs.slot_put [of now k v ttl s] by simp

lemma task_step_slots:
  assumes "task_step sha256 env t st = (t', st')"
  shows "map_of (rs_inner (ws_store st')) k = Some (e, x) \<Longrightarrow>
      map_of (rs_inner (ws_store st)) k = Some (e, x) \<or> envelope_writer k e t'"
    and "map_of (rs_inner (ws_prekeys st')) k = Some (e, x) \<Longrightarrow>
      map_of (rs_inner (ws_prekeys st)) k = Some (e, x) \<or> prekey_writer k e t'"
proof -
  have "(map_of (rs_inner (ws_store st')) k = Some (e, x) \<longrightarrow>
      map_of (rs_inner (ws_store st)) k = Some (e, x) \<or> envelope_writer k e t') \<and>
    (map_of (rs_inner (ws_prekeys st')) k = Some (e, x) \<longrightarrow>
      map_of (rs_inner (ws_prekeys st)) k = Some (e, x) \<or> prekey_writer k e t')"
  proof (cases "(sha256, env, t, st)" rule: task_step.cases)
    case (1 _ _ req _)
    obtain y s where y: "check_rate env (req_recipient req) st = (y, s)" by fastforce
    have "st' = s" using assms 1 y by (auto simp: after_check_def split: run.splits option.splits)
    then show ?thesis using check_rate_frame [OF y] by simp
  next
    case (5 _ _ r b c p _)
    obtain y s where y: "check_pow sha256 env r c p st = (y, s)" by fastforce
    have "st' = s" using assms 5 y by (auto simp: after_check_def split: run.splits option.splits)
    then show ?thesis using check_pow_frame [OF y] by simp
  next
    case (6 _ _ r b c p _)
    obtain y s where y: "check_pow sha256 env r c p st = (y, s)" by fastforce
    have "st' = s" using assms 6 y by (auto simp: after_check_def split: run.splits option.splits)
    then show ?thesis using check_pow_frame [OF y] by simp
  qed (use assms in \<open>auto simp: finish_def fetch_prekey_def fetch_envelope_def store_prekey_def
      store_envelope_def issue_challenge_def challenge_new_ok Let_def envelope_writer_def
      prekey_writer_def dest!: pickup_slot store_slot
      split: prod.splits sum.splits if_splits\<close>)
  then show "map_of (rs_inner (ws_store st')) k = Some (e, x) \<Longrightarrow>
      map_of (rs_inner (ws_store st)) k = Some (e, x) \<or> envelope_writer k e t'"
    and "map_of (rs_inner (ws_prekeys st')) k = Some (e, x) \<Longrightarrow>
      map_of (rs_inner (ws_prekeys st)) k = Some (e, x) \<or> prekey_writer k e t'"
    by blast+
qed

lemma writer_kept:
  assumes "i < length ts" "task_step sha256 env (ts ! i) st = (t', st')"
  shows "\<exists>t\<in>set ts. envelope_writer k e t \<Longrightarrow> \<exists>t\<in>set (ts[i := t']). envelope_writer k e t"
    and "\<exists>t\<in>set ts. prekey_writer k e t \<Longrightarrow> \<exists>t\<in>set (ts[i := t']). prekey_writer k e t"
proof -
  have keep: "\<exists>t\<in>set (ts[i := t']). P t" if "\<exists>t\<in>set ts. P t" "P (ts ! i) \<Longrightarrow> P t'" for P
    using that assms(1) by (metis in_set_conv_nth length_list_update nth_list_update_eq nth_list_update_neq)
  show "\<exists>t\<in>set ts. envelope_writer k e t \<Longrightarrow> \<exists>t\<in>set (ts[i := t']). envelope_writer k e t"
    by (erule keep) (use task_step_accepted [OF assms(2)] in \<open>simp add: envelope_writer_def\<close>)
  show "\<exists>t\<in>set ts. prekey_writer k e t \<Longrightarrow> \<exists>t\<in>set (ts[i := t']). prekey_writer k e t"
    by (erule keep) (use task_step_accepted [OF assms(2)] in \<open>simp add: prekey_writer_def\<close>)
qed

definition provenance :: "WsState \<times> ws_task list \<Rightarrow> bool" where
  "provenance p \<longleftrightarrow>
     (\<forall>k e x. map_of (rs_inner (ws_store (fst p))) k = Some (e, x) \<longrightarrow>
        (\<exists>t\<in>set (snd p). envelope_writer k e t)) \<and>
     (\<forall>k e x. map_of (rs_inner (ws_prekeys (fst p))) k = Some (e, x) \<longrightarrow>
        (\<exists>t\<in>set (snd p). prekey_writer k e t))"

lemma provenance_step: "pool_step sha256 p q \<Longrightarrow> provenance p \<Longrightarrow> provenance q"
proof (induction rule: pool_step.induct)
  case (arrive st ts req)
  then show ?case by (force simp: provenance_def)
next
  case (advance i ts env st t' st')
  have t': "t' \<in> set (ts[i := t'])" using advance(1) by (simp add: set_update_memI)
  show ?case
    unfolding provenance_def
  proof (intro conjI allI impI)
    fix k e x
    assume "map_of (rs_inner (ws_store (fst (st', ts[i := t'])))) k = Some (e, x)"
    then show "\<exists>t\<in>set (snd (st', ts[i := t'])). envelope_writer k e t"
      using task_step_slots(1) [OF advance(2), of k e x] writer_kept(1) [OF advance(1,2), of k e]
        advance(3) t' by (force simp: provenance_def)
  next
    fix k e x
    assume "map_of (rs_inner (ws_prekeys (fst (st', ts[i := t'])))) k = Some (e, x)"
    then show "\<exists>t\<in>set (snd (st', ts[i := t'])). prekey_writer k e t"
      using task_step_slots(2) [OF advance(2), of k e x] writer_kept(2) [OF advance(1,2), of k e]
        advance(3) t' by (force simp: provenance_def)
  qed
qed

lemma provenance_served: "served sha256 limit p \<Longrightarrow> provenance p"
  unfolding served_def
proof (induction rule: rtranclp_induct)
  case base
  then show ?case by (simp add: provenance_def WsState_new_def RelayStore_new_def)
next
  case (step p q)
  then show ?case using provenance_step by blast
qed

subsection \<open>The challenges a relay has issued\<close>

definition challenges_wf :: "WsState \<Rightarrow> bool" where
  "challenges_wf st \<longleftrightarrow>
     (\<forall>p\<in>set (ws_challenges st). fst p = hex_encode (ch_nonce (snd p)) \<and>
        ch_context (snd p) = POW_CONTEXT \<and> ch_difficulty (snd p) = POW_DIFFICULTY)"

lemma set_hm_remove: "set (hm_remove k m) = {p \<in> set m. fst p \<noteq> k}"
  by (auto simp: hm_remove_def)

lemma challenges_wf_remove:
  "challenges_wf st \<Longrightarrow> ws_challenges st' = hm_remove k (ws_challenges st) \<Longrightarrow> challenges_wf st'"
  by (simp add: challenges_wf_def set_hm_remove)

lemma challenges_wf_cong: "ws_challenges st' = ws_challenges st \<Longrightarrow> challenges_wf st' = challenges_wf st"
  by (simp add: challenges_wf_def)

lemma challenges_wf_step:
  assumes "task_step sha256 env t st = (t', st')" "challenges_wf st"
  shows "challenges_wf st'"
proof (cases "(sha256, env, t, st)" rule: task_step.cases)
  case (1 _ _ req _)
  obtain y s where y: "check_rate env (req_recipient req) st = (y, s)" by fastforce
  have "st' = s" using assms 1 y by (auto simp: after_check_def split: run.splits option.splits)
  then show ?thesis using check_rate_frame [OF y] assms challenges_wf_cong by blast
next
  case (2 _ _ r _)
  then show ?thesis
    using assms
    by (auto simp: challenges_wf_def finish_def issue_challenge_def challenge_new_ok Let_def
        hm_insert_def set_hm_remove)
next
  case (5 _ _ r b c p _)
  obtain y s where y: "check_pow sha256 env r c p st = (y, s)" by fastforce
  have "st' = s" using assms 5 y by (auto simp: after_check_def split: run.splits option.splits)
  then show ?thesis
    using check_pow_challenges [OF y] assms challenges_wf_remove challenges_wf_cong by blast
next
  case (6 _ _ r b c p _)
  obtain y s where y: "check_pow sha256 env r c p st = (y, s)" by fastforce
  have "st' = s" using assms 6 y by (auto simp: after_check_def split: run.splits option.splits)
  then show ?thesis
    using check_pow_challenges [OF y] assms challenges_wf_remove challenges_wf_cong by blast
qed (use assms in \<open>auto simp: challenges_wf_def finish_def fetch_prekey_def fetch_envelope_def
    store_prekey_def store_envelope_def Let_def split: prod.splits sum.splits\<close>)

lemma challenges_wf_served: "served sha256 limit p \<Longrightarrow> challenges_wf (fst p)"
  unfolding served_def
proof (induction rule: rtranclp_induct)
  case base
  then show ?case by (simp add: challenges_wf_def WsState_new_def)
next
  case (step p q)
  from step(2,3) show ?case
    by (induction rule: pool_step.induct) (auto dest: challenges_wf_step)
qed

subsection \<open>The handler, branch by branch\<close>

lemma check_rate_outcome:
  "check_rate env r st =
     (if rl_admits (ws_rate_limiter st) (str_bytes r) (from_secs (env_unix_secs env)) then Return None
      else log_then (env_warn env) r (Return (Some (WsResponse_err ''RateLimitExceeded''))),
      st\<lparr>ws_rate_limiter := snd (RateLimiter_check (str_bytes r) (from_secs (env_unix_secs env))
           (ws_rate_limiter st))\<rparr>)"
  using rl.check_admits [of "str_bytes r" "from_secs (env_unix_secs env)" "ws_rate_limiter st"]
  by (auto simp: check_rate_def Let_def split: prod.splits sum.splits)

lemma verify_issued:
  assumes "digest32 sha256" "challenges_wf st" "map_of (ws_challenges st) c = Some ch"
  shows "c = hex_encode (ch_nonce ch)"
    and "verify sha256 ch s = Return (if be_nat (sha256 (POW_CONTEXT @ ch_nonce ch @ s)) < 2 ^ 236
           then Inr () else Inl (Invalid 20))"
proof -
  have "(c, ch) \<in> set (ws_challenges st)" using assms(3) by (rule map_of_SomeD)
  then have ch: "c = hex_encode (ch_nonce ch)" "ch_context ch = POW_CONTEXT" "ch_difficulty ch = 20"
    using assms(2) by (auto simp: challenges_wf_def POW_DIFFICULTY_def)
  show "c = hex_encode (ch_nonce ch)" by (rule ch(1))
  show "verify sha256 ch s = Return (if be_nat (sha256 (POW_CONTEXT @ ch_nonce ch @ s)) < 2 ^ 236
           then Inr () else Inl (Invalid 20))"
    using assms(1) ch by (simp add: verify_number)
qed

lemma verify_pow_never_panics:
  assumes "digest32 sha256"
  shows "fst (verify_pow sha256 c p st) \<noteq> Panic"
  using assms by (auto simp: verify_pow_def verify_number Let_def split: sum.splits option.splits)

lemma check_pow_pass:
  assumes "map_of (ws_challenges st) c = Some ch" "b64_decode p = Inr s"
    "verify sha256 ch s = Return (Inr ())"
  shows "check_pow sha256 env r c p st =
    (Return None, st\<lparr>ws_challenges := hm_remove c (ws_challenges st)\<rparr>)"
  using assms by (simp add: check_pow_def verify_pow_def Let_def)

lemma check_pow_fail:
  assumes "check_pow sha256 env r c p st = (x, st')" "x \<noteq> Return None"
  shows "x = Panic \<or> (\<exists>e. x = Return (Some (WsResponse_err e)))"
  using assms by (auto simp: check_pow_def verify_pow_def log_then_def Let_def
      split: prod.splits sum.splits option.splits run.splits if_splits)

lemma fetch_prekey_empties:
  "map_of (rs_inner (ws_prekeys (snd (fetch_prekey env r st)))) (''prekey:'' @ r) = None"
  by (auto simp: fetch_prekey_def RelayStore_pickup_def Let_def split: option.splits)

section \<open>A concrete run\<close>

text \<open>A small run used by the witnesses: a challenge for \<open>bob\<close>, then an envelope to \<open>bob\<close>.\<close>

definition demo_sha :: "bytes \<Rightarrow> bytes" where
  "demo_sha m = replicate 32 0"

definition demo_env :: WsEnv where
  "demo_env = \<lparr>env_unix_secs = 0, env_instant = 0, env_nonce = [1], env_warn = True, env_info = True\<rparr>"

definition demo_limited :: "u32 \<Rightarrow> RateLimiter" where
  "demo_limited k = \<lparr>rl_capacity = 10, rl_window = from_secs 60,
     rl_buckets = [(str_bytes ''bob'', \<lparr>tokens = k, window_start_secs = 0\<rparr>)]\<rparr>"

definition demo_challenged :: WsState where
  "demo_challenged =
     \<lparr>ws_store = RelayStore_new, ws_prekeys = RelayStore_new, ws_rate_limiter = demo_limited 9,
      ws_challenges = [(hex_encode [1], \<lparr>ch_context = POW_CONTEXT, ch_nonce = [1], ch_difficulty = POW_DIFFICULTY\<rparr>)]\<rparr>"

definition demo_send :: WsRequest where
  "demo_send = SendEnvelope ''bob'' (b64_encode [7]) (hex_encode [1]) (b64_encode [0])"

definition demo_sent :: WsState where
  "demo_sent =
     \<lparr>ws_store = \<lparr>rs_inner = [(''bob'', ([7], DEFAULT_ENVELOPE_TTL))]\<rparr>, ws_prekeys = RelayStore_new,
      ws_rate_limiter = demo_limited 8, ws_challenges = []\<rparr>"

definition demo_published :: WsState where
  "demo_published = (WsState_new 10)\<lparr>ws_prekeys := \<lparr>rs_inner = [(''prekey:bob'', ([5], 3))]\<rparr>\<rparr>"

definition demo_looked_up :: WsState where
  "demo_looked_up = (WsState_new 10)\<lparr>ws_rate_limiter := demo_limited 9\<rparr>"

text \<open>Seven letters and a two-byte character: byte 8 is inside the character.\<close>

definition demo_accented :: string where
  "demo_accented = ''abcdefg'' @ [CHR 0xC3, CHR 0xA9]"

lemma demo_digest: "digest32 demo_sha"
  by (simp add: digest32_def demo_sha_def)

lemma demo_first:
  "RateLimiter_check (str_bytes ''bob'') (from_secs 0) (RateLimiter_per_identity 10) = (Inr (), demo_limited 9)"
  by (simp add: RateLimiter_check_def RateLimiter_per_identity_def RateLimiter_per_identity_in_def
      demo_limited_def hm_insert_def hm_remove_def max_def from_secs_def as_secs_def
      word_le_nat_alt)

lemma demo_next:
  "k \<noteq> 0 \<Longrightarrow> RateLimiter_check (str_bytes ''bob'') (from_secs 0) (demo_limited k) = (Inr (), demo_limited (k - 1))"
  by (simp add: RateLimiter_check_def demo_limited_def hm_insert_def hm_remove_def from_secs_def as_secs_def)

lemma demo_challenge:
  "handle_request demo_sha demo_env (ReqChallenge ''bob'') (WsState_new 10) =
     (Return (WsResponse_ok_challenge (hex_encode [1]) (b64_encode (Challenge_to_wire
        \<lparr>ch_context = POW_CONTEXT, ch_nonce = [1], ch_difficulty = POW_DIFFICULTY\<rparr>))), demo_challenged)"
  by (simp add: handle_request_def check_rate_def and_then_def WsState_new_def demo_first demo_env_def
      issue_challenge_def challenge_new_ok demo_challenged_def hm_insert_def hm_remove_def Let_def)

lemma demo_lookup:
  "handle_request demo_sha demo_env (LookupPrekey ''bob'') demo_published =
     (Return (WsResponse_ok_bundle (b64_encode [5])), demo_looked_up)"
  by (simp add: handle_request_def check_rate_def and_then_def WsState_new_def demo_first demo_env_def
      demo_published_def demo_looked_up_def fetch_prekey_def RelayStore_pickup_def RelayStore_new_def
      hm_remove_def)

lemma demo_verify:
  "verify demo_sha \<lparr>ch_context = POW_CONTEXT, ch_nonce = [1], ch_difficulty = POW_DIFFICULTY\<rparr> s = Return (Inr ())"
  using demo_digest by (simp add: verify_number POW_DIFFICULTY_def demo_sha_def be_nat_replicate_zero)

lemma demo_handled:
  "handle_request demo_sha demo_env demo_send demo_challenged = (Return WsResponse_ok_simple, demo_sent)"
  by (simp add: handle_request_def demo_send_def check_rate_def and_then_def demo_challenged_def
      demo_next demo_env_def check_pow_def verify_pow_def demo_verify store_envelope_def
      RelayStore_store_def RelayStore_new_def hm_insert_def hm_remove_def log_then_def
      truncate_id_def demo_sent_def)

lemma demo_served: "\<exists>ts. served demo_sha 10 (demo_challenged, ts)" "\<exists>ts. served demo_sha 10 (demo_sent, ts)"
proof -
  obtain ts where ts: "served demo_sha 10 (demo_challenged, ts)"
    using served_request [OF served_new demo_challenge] by blast
  then show "\<exists>ts. served demo_sha 10 (demo_challenged, ts)" by blast
  show "\<exists>ts. served demo_sha 10 (demo_sent, ts)"
    using served_request [OF ts demo_handled] by blast
qed

section \<open>Properties\<close>

text \<open>
  C2: However the phases of concurrent requests interleave, the relay accepts no more
  proof-of-work requests than it has issued challenges: the tasks past the proof-of-work check,
  together with the challenges still open, never outnumber the challenges handed out. Hence no
  challenge is spent twice.
\<close>

theorem challenges_are_single_use:
  assumes "served sha256 limit (st, ts)"
  shows "length (filter accepted ts) + length (ws_challenges st) \<le> length (filter issued ts)"
  using assms by (rule challenges.balance)

theorem challenges_are_single_use_witness:
  "\<exists>ts. served demo_sha 10 (demo_challenged, ts) \<and> length (ws_challenges demo_challenged) = 1 \<and>
     length (filter accepted ts) + length (ws_challenges demo_challenged) \<le> length (filter issued ts)"
proof -
  obtain ts where ts: "served demo_sha 10 (demo_challenged, ts)" using demo_served(1) by blast
  then show ?thesis
    using challenges_are_single_use [OF ts] by (intro exI [of _ ts]) (simp add: demo_challenged_def)
qed

text \<open>
  C7: Whatever the interleaving, everything the relay holds was put there by a request whose
  proof of work it had accepted: an envelope under \<open>k\<close> is the payload of an accepted
  \<open>send_envelope\<close> to \<open>k\<close>, a prekey bundle that of an accepted \<open>publish_prekey\<close> for that recipient.
\<close>

theorem stored_content_was_paid_for:
  assumes "served sha256 limit (st, ts)"
  shows "(map_of (rs_inner (ws_store st)) k = Some (e, x) \<longrightarrow>
      (\<exists>t\<in>set ts. \<exists>txt c p. accepted t \<and> task_request t = SendEnvelope k txt c p \<and>
         b64_decode txt = Inr e)) \<and>
    (map_of (rs_inner (ws_prekeys st)) k = Some (e, x) \<longrightarrow>
      (\<exists>t\<in>set ts. \<exists>r txt c p. accepted t \<and> task_request t = PublishPrekey r txt c p \<and>
         k = ''prekey:'' @ r \<and> b64_decode txt = Inr e))"
proof -
  have "provenance (st, ts)" using assms by (rule provenance_served)
  moreover have "\<exists>txt c p. accepted t \<and> task_request t = SendEnvelope k txt c p \<and> b64_decode txt = Inr e"
    if "envelope_writer k e t" for t
    using that by (auto simp: envelope_writer_def split: WsRequest.splits)
  moreover have "\<exists>r txt c p. accepted t \<and> task_request t = PublishPrekey r txt c p \<and>
      k = ''prekey:'' @ r \<and> b64_decode txt = Inr e"
    if "prekey_writer k e t" for t
    using that by (auto simp: prekey_writer_def split: WsRequest.splits)
  ultimately show ?thesis
    unfolding provenance_def fst_conv snd_conv by (intro conjI impI) (meson bexE bexI)+
qed

theorem stored_content_was_paid_for_witness:
  "\<exists>ts. served demo_sha 10 (demo_sent, ts) \<and>
     (\<exists>t\<in>set ts. \<exists>txt c p. accepted t \<and> task_request t = SendEnvelope ''bob'' txt c p \<and>
        b64_decode txt = Inr [7])"
proof -
  obtain ts where ts: "served demo_sha 10 (demo_sent, ts)" using demo_served(2) by blast
  have "map_of (rs_inner (ws_store demo_sent)) ''bob'' = Some ([7], DEFAULT_ENVELOPE_TTL)"
    by (simp add: demo_sent_def)
  with stored_content_was_paid_for [OF ts, of "''bob''" "[7]" DEFAULT_ENVELOPE_TTL] ts
  show ?thesis by blast
qed

text \<open>What storing an envelope does after the gates have passed.\<close>

lemma store_envelope_outcome:
  assumes "store_envelope env r txt st = (Return resp, st')"
  shows "resp = WsResponse_ok_simple \<and> ws_challenges st' = ws_challenges st \<and>
      (\<exists>e. b64_decode txt = Inr e \<and> map_of (rs_inner (ws_store st')) =
         (map_of (rs_inner (ws_store st)))(r \<mapsto> (e, env_instant env + DEFAULT_ENVELOPE_TTL)))
    \<or> \<not> resp_ok resp \<and> ws_store st' = ws_store st \<and> ws_prekeys st' = ws_prekeys st"
  using assms
  by (cases "b64_decode txt")
    (auto simp: store_envelope_def RelayStore_store_def WsResponse_err_def Let_def dest: log_then_cases)

text \<open>
  C16: On a state the relay can reach, a \<open>send_envelope\<close> that returns a response either succeeds,
  in which case the bucket of the recipient id admitted it, it named an open challenge, supplied a
  solution whose digest is below \<open>2^236\<close>, and the decoded envelope now waits for the recipient
  for seven days while the challenge is spent; or it fails with an error and both stores are
  exactly as before.
\<close>

theorem send_envelope_fails_closed:
  assumes "digest32 sha256" "served sha256 limit (st, ts)"
    and "handle_request sha256 env (SendEnvelope r txt c p) st = (Return resp, st')"
  shows "resp = WsResponse_ok_simple \<and>
      rl_admits (ws_rate_limiter st) (str_bytes r) (from_secs (env_unix_secs env)) \<and>
      (\<exists>nonce s e. c = hex_encode nonce \<and> b64_decode p = Inr s \<and> b64_decode txt = Inr e \<and>
         map_of (ws_challenges st) c \<noteq> None \<and> map_of (ws_challenges st') c = None \<and>
         be_nat (sha256 (POW_CONTEXT @ nonce @ s)) < 2 ^ 236 \<and>
         map_of (rs_inner (ws_store st')) =
           (map_of (rs_inner (ws_store st)))(r \<mapsto> (e, env_instant env + DEFAULT_ENVELOPE_TTL)))
    \<or> \<not> resp_ok resp \<and> ws_store st' = ws_store st \<and> ws_prekeys st' = ws_prekeys st"
proof -
  define st1 where "st1 = st\<lparr>ws_rate_limiter := snd (RateLimiter_check (str_bytes r)
      (from_secs (env_unix_secs env)) (ws_rate_limiter st))\<rparr>"
  have same: "ws_challenges st1 = ws_challenges st" "ws_store st1 = ws_store st"
    "ws_prekeys st1 = ws_prekeys st" by (simp_all add: st1_def)
  show ?thesis
  proof (cases "rl_admits (ws_rate_limiter st) (str_bytes r) (from_secs (env_unix_secs env))")
    case False
    then show ?thesis
      using assms(3) same
      by (auto simp: handle_request_def and_then_def check_rate_outcome st1_def [symmetric]
          WsResponse_err_def dest: log_then_cases split: run.splits option.splits)
  next
    case admits: True
    obtain x st2 where x: "check_pow sha256 env r c p st1 = (x, st2)" by fastforce
    then have h: "and_then (x, st2) (store_envelope env r txt) = (Return resp, st')"
      using assms(3) admits
      by (simp add: handle_request_def check_rate_outcome and_then_def st1_def [symmetric])
    show ?thesis
    proof (cases "x = Return None")
      case False
      then show ?thesis
        using check_pow_fail [OF x] check_pow_frame [OF x] h same
        by (auto simp: and_then_def WsResponse_err_def)
    next
      case True
      then obtain ch s where ch: "map_of (ws_challenges st) c = Some ch" "b64_decode p = Inr s"
        "verify sha256 ch s = Return (Inr ())" "ws_challenges st2 = hm_remove c (ws_challenges st)"
        using check_pow_spends x same by fastforce
      have "challenges_wf st" using challenges_wf_served [OF assms(2)] by simp
      note v = verify_issued [OF assms(1) this ch(1)]
      have below: "be_nat (sha256 (POW_CONTEXT @ ch_nonce ch @ s)) < 2 ^ 236"
        using ch(3) v(2) by (auto split: if_splits)
      have "store_envelope env r txt st2 = (Return resp, st')" using h True by (simp add: and_then_def)
      from store_envelope_outcome [OF this] show ?thesis
        using admits ch v(1) below check_pow_frame [OF x] same by auto
    qed
  qed
qed

theorem send_envelope_fails_closed_witness:
  "handle_request demo_sha demo_env demo_send demo_challenged = (Return WsResponse_ok_simple, demo_sent) \<and>
   map_of (rs_inner (ws_store demo_sent)) =
     (map_of (rs_inner (ws_store demo_challenged)))(''bob'' \<mapsto> ([7], DEFAULT_ENVELOPE_TTL))"
proof -
  obtain ts where ts: "served demo_sha 10 (demo_challenged, ts)" using demo_served(1) by blast
  from send_envelope_fails_closed
    [OF demo_digest ts demo_handled [unfolded demo_send_def]] demo_handled
  show ?thesis by (auto simp: WsResponse_ok_simple_def demo_env_def)
qed

text \<open>
  \<open>lookup_prekey\<close> consumes what it reads: once a lookup has returned a bundle, the next lookup
  for the same recipient that is not rate-limited answers \<open>NotFound\<close>, at any later time.
\<close>

theorem lookup_consumes_bundle:
  assumes "handle_request sha256 env (LookupPrekey r) st = (Return (WsResponse_ok_bundle b), st1)"
    and "rl_admits (ws_rate_limiter st1) (str_bytes r) (from_secs (env_unix_secs env'))"
  shows "fst (handle_request sha256 env' (LookupPrekey r) st1) = Return (WsResponse_err ''NotFound'')"
proof -
  have "\<exists>s. fetch_prekey env r s = (Return (WsResponse_ok_bundle b), st1)"
    using assms(1)
    by (auto simp: handle_request_def and_then_def check_rate_outcome log_then_def
        WsResponse_err_def WsResponse_ok_bundle_def split: if_splits)
  then have "map_of (rs_inner (ws_prekeys st1)) (''prekey:'' @ r) = None"
    using fetch_prekey_empties [of env r] by (metis snd_conv)
  then show ?thesis
    using assms(2)
    by (simp add: handle_request_def and_then_def check_rate_outcome fetch_prekey_def
        RelayStore_pickup_def)
qed

theorem lookup_consumes_bundle_witness:
  "handle_request demo_sha demo_env (LookupPrekey ''bob'') demo_published =
     (Return (WsResponse_ok_bundle (b64_encode [5])), demo_looked_up) \<and>
   fst (handle_request demo_sha demo_env (LookupPrekey ''bob'') demo_looked_up) =
     Return (WsResponse_err ''NotFound'')"
proof -
  have "rl_admits (ws_rate_limiter demo_looked_up) (str_bytes ''bob'') (from_secs (env_unix_secs demo_env))"
    by (simp add: rl_admits_def demo_looked_up_def demo_env_def demo_next)
  from lookup_consumes_bundle [OF demo_lookup this] demo_lookup show ?thesis by simp
qed

text \<open>
  C40: A recipient id longer than eight bytes with a multi-byte character across byte 8 makes
  \<open>truncate_id\<close> panic, so with \<open>info\<close> logging on an otherwise accepted \<open>send_envelope\<close> stores the
  envelope and then dies without a response.
\<close>

theorem accepted_send_may_panic_after_storing:
  assumes "8 < length r" "128 \<le> (of_char (r ! 8) :: nat)" "(of_char (r ! 8) :: nat) < 192"
    and "env_info env" "b64_decode txt = Inr e"
    and "rl_admits (ws_rate_limiter st) (str_bytes r) (from_secs (env_unix_secs env))"
    and "map_of (ws_challenges st) c = Some ch" "b64_decode p = Inr s"
    and "verify sha256 ch s = Return (Inr ())"
  shows "fst (handle_request sha256 env (SendEnvelope r txt c p) st) = Panic \<and>
    map_of (rs_inner (ws_store (snd (handle_request sha256 env (SendEnvelope r txt c p) st)))) r =
      Some (e, env_instant env + DEFAULT_ENVELOPE_TTL)"
proof -
  have "truncate_id r = Panic" using assms(1-3) by (simp add: truncate_id_def is_char_boundary_def)
  then show ?thesis
    using assms by (simp add: handle_request_def and_then_def check_rate_outcome check_pow_pass
        store_envelope_def log_then_def RelayStore_store_def)
qed

theorem accepted_send_may_panic_after_storing_witness:
  "\<exists>st. fst (handle_request demo_sha demo_env
       (SendEnvelope demo_accented (b64_encode [7]) (hex_encode [1]) (b64_encode [0])) st) = Panic"
proof -
  let ?st = "(WsState_new 10)\<lparr>ws_challenges := ws_challenges demo_challenged\<rparr>"
  let ?ch = "\<lparr>ch_context = POW_CONTEXT, ch_nonce = [1], ch_difficulty = POW_DIFFICULTY\<rparr>"
  have "8 < length demo_accented" "128 \<le> (of_char (demo_accented ! 8) :: nat)"
    "(of_char (demo_accented ! 8) :: nat) < 192" "env_info demo_env"
    by (simp_all add: demo_accented_def demo_env_def of_char_def)
  moreover have "rl_admits (ws_rate_limiter ?st) (str_bytes demo_accented) (from_secs (env_unix_secs demo_env))"
    by (simp add: rl_admits_def WsState_new_def RateLimiter_check_def RateLimiter_per_identity_def
        RateLimiter_per_identity_in_def max_def word_le_nat_alt)
  moreover have "map_of (ws_challenges ?st) (hex_encode [1]) = Some ?ch"
    by (simp add: demo_challenged_def)
  ultimately show ?thesis
    using accepted_send_may_panic_after_storing
      [of demo_accented demo_env "b64_encode [7]" "[7]" ?st "hex_encode [1]" ?ch "b64_encode [0]" "[0]" demo_sha]
      demo_verify
    by (intro exI [of _ ?st]) simp
qed

end
