(* ===== verification/Ws_Client.thy ===== *)
theory Ws_Client
  imports Ws_Bridge "HOL-Library.Countable"
begin

text \<open>
  The client of the WebSocket bridge (\<open>WsRelayClient\<close> in \<open>relay/src/ws.rs\<close>). A connected stream
  is the frames that have arrived and the peer at the other end; \<open>react\<close> says what the peer does
  with a text frame: whether the write succeeded, and the frames it sends back. When no frame is
  left the stream has ended. The printers and parsers of \<open>serde_json\<close> are parameters; the JSON
  objects themselves are those of the source's \<open>json!\<close> macros and \<open>serde\<close> attributes.
\<close>

section \<open>JSON values\<close>

datatype json = JNull | JBool bool | JNum int | JStr string | JArr "json list" | JObj "(string \<times> json) list"

instance json :: countable
  by countable_datatype

text \<open>\<open>value[key]\<close> and \<open>value.as_str()\<close>.\<close>

definition json_index :: "json \<Rightarrow> string \<Rightarrow> json" where
  "json_index v k =
     (case v of JObj obj \<Rightarrow> unwrap_or JNull (map_of obj k) | _ \<Rightarrow> JNull)"

definition as_str :: "json \<Rightarrow> string option" where
  "as_str v = (case v of JStr s \<Rightarrow> Some s | _ \<Rightarrow> None)"

definition opt_field :: "string \<Rightarrow> string option \<Rightarrow> (string \<times> json) list" where
  "opt_field k x = (case x of None \<Rightarrow> [] | Some s \<Rightarrow> [(k, JStr s)])"

text \<open>\<open>#[serde(untagged)]\<close> with \<open>skip_serializing_if = "Option::is_none"\<close>.\<close>

definition WsResponse_json :: "WsResponse \<Rightarrow> json" where
  "WsResponse_json r =
     (case r of
        RespOk ok bundle envelope challenge challenge_id \<Rightarrow>
          JObj ([(''ok'', JBool ok)] @ opt_field ''bundle'' bundle @ opt_field ''envelope'' envelope
            @ opt_field ''challenge'' challenge @ opt_field ''challenge_id'' challenge_id)
      | RespErr ok err \<Rightarrow> JObj [(''ok'', JBool ok), (''error'', JStr err)])"

section \<open>The connection\<close>

datatype WsClientError =
    ConnectionUnavailable
  | Relay string
  | PowFailed string
  | Decode string
  | ClientNotFound

definition WsClientError_display :: "WsClientError \<Rightarrow> string" where
  "WsClientError_display e =
     (case e of
        ConnectionUnavailable \<Rightarrow> ''relay connection unavailable '' @ [CHR 0xE2, CHR 0x80, CHR 0x94]
          @ '' message not sent (fail closed)''
      | Relay msg \<Rightarrow> ''relay error: '' @ msg
      | PowFailed msg \<Rightarrow> ''PoW solve failed: '' @ msg
      | Decode msg \<Rightarrow> ''decode error: '' @ msg
      | ClientNotFound \<Rightarrow> ''not found'')"

record 'p ws_stream =
  inbox :: "ws_message list"
  peer :: 'p

record 'p WsRelayClient =
  wc_stream :: "'p ws_stream option"

definition WsRelayClient_connect :: "'p ws_stream option \<Rightarrow> WsClientError + 'p WsRelayClient" where
  "WsRelayClient_connect connected =
     (case connected of
        Some stream \<Rightarrow> Inr \<lparr>wc_stream = Some stream\<rparr>
      | None \<Rightarrow> Inl ConnectionUnavailable)"

definition WsRelayClient_close :: "'p WsRelayClient \<Rightarrow> 'p WsRelayClient" where
  "WsRelayClient_close c = c\<lparr>wc_stream := None\<rparr>"

text \<open>The read loop of \<open>round_trip\<close>: the first text frame is the answer, others are skipped.\<close>

fun read_reply ::
  "(string \<Rightarrow> string + json) \<Rightarrow> 'p \<Rightarrow> ws_message list \<Rightarrow>
   (WsClientError + json) \<times> 'p ws_stream option" where
  "read_reply from_str p [] = (Inl ConnectionUnavailable, None)"
| "read_reply from_str p (m # ms) =
     (case m of
        Text text \<Rightarrow> (map_err (\<lambda>e. Relay (''invalid JSON response: '' @ e)) (from_str text),
                      Some \<lparr>inbox = ms, peer = p\<rparr>)
      | Stream_Error _ \<Rightarrow> (Inl ConnectionUnavailable, Some \<lparr>inbox = ms, peer = p\<rparr>)
      | _ \<Rightarrow> read_reply from_str p ms)"

text \<open>What the client needs from its environment: the peer, the JSON text layer, SHA-256.\<close>

record 'p ws_net =
  react :: "string \<Rightarrow> 'p \<Rightarrow> bool \<times> ws_message list \<times> 'p"
  print_json :: "json \<Rightarrow> string"
  parse_json :: "string \<Rightarrow> string + json"
  net_sha256 :: "bytes \<Rightarrow> bytes"

definition WsRelayClient_stream_mut :: "'p WsRelayClient \<Rightarrow> WsClientError + 'p ws_stream" where
  "WsRelayClient_stream_mut c = ok_or ConnectionUnavailable (wc_stream c)"

definition WsRelayClient_round_trip ::
  "'p ws_net \<Rightarrow> json \<Rightarrow> 'p WsRelayClient \<Rightarrow> (WsClientError + json) \<times> 'p WsRelayClient" where
  "WsRelayClient_round_trip net req c =
     (case WsRelayClient_stream_mut c of
        Inl e \<Rightarrow> (Inl e, c)
      | Inr stream \<Rightarrow>
          (case react net (print_json net req) (peer stream) of
             (False, _, p) \<Rightarrow> (Inl ConnectionUnavailable, c\<lparr>wc_stream := Some (stream\<lparr>peer := p\<rparr>)\<rparr>)
           | (True, frames, p) \<Rightarrow>
               let (r, stream') = read_reply (parse_json net) p (inbox stream @ frames)
               in (r, c\<lparr>wc_stream := stream'\<rparr>)))"

section \<open>Solving the relay's challenge\<close>

definition check_pow_difficulty :: "(bytes \<Rightarrow> bytes) \<Rightarrow> bytes \<Rightarrow> bytes \<Rightarrow> u32 \<Rightarrow> bool run" where
  "check_pow_difficulty sha256 preimage sfx difficulty =
     (let digest = sha256 (preimage @ sfx);
          full_bytes = unat (difficulty div 8)
      in if length digest < full_bytes \<or> list_ex (\<lambda>b. b \<noteq> 0) (take full_bytes digest)
         then Return False
         else let extra_bits = unat (difficulty mod 8)
              in if extra_bits = 0 then Return True
                 else let mask = push_bit (8 - extra_bits) (255 :: u8)
                      in (case index_at digest full_bytes of
                            Panic \<Rightarrow> Panic
                          | Return b \<Rightarrow> Return (b AND mask = 0)))"

text \<open>The counter is a \<open>u64\<close> that stays below \<open>2^32 + 2\<close>, so a \<open>nat\<close> does not change the loop.\<close>

function client_solve_loop ::
  "(bytes \<Rightarrow> bytes) \<Rightarrow> bytes \<Rightarrow> u32 \<Rightarrow> nat \<Rightarrow> (WsClientError + bytes) run" where
  "client_solve_loop sha256 preimage difficulty counter =
     (let sfx = le_bytes 8 counter
      in (case check_pow_difficulty sha256 preimage sfx difficulty of
            Panic \<Rightarrow> Panic
          | Return True \<Rightarrow> Return (Inr sfx)
          | Return False \<Rightarrow>
              (let counter = counter + 1
               in if counter > 2 ^ 32
                  then Return (Inl (PowFailed ''exceeded iteration limit''))
                  else client_solve_loop sha256 preimage difficulty counter)))"
  by pat_completeness auto
termination
  by (relation "measure (\<lambda>(h, p, d, c). 2 ^ 32 + 1 - c)") auto

declare client_solve_loop.simps [simp del]

text \<open>The unchecked indexing of the wire bytes: preimage and difficulty.\<close>

definition read_challenge_wire :: "bytes \<Rightarrow> (bytes \<times> u32) run" where
  "read_challenge_wire challenge_wire =
     run_bind (index_at challenge_wire 0) (\<lambda>c0.
     run_bind (index_at challenge_wire 1) (\<lambda>c1.
       let context_len = be_nat [c0, c1] in
     run_bind (slice_range challenge_wire (2 + context_len) (2 + context_len + 16)) (\<lambda>nonce.
     run_bind (index_at challenge_wire (2 + context_len + 16)) (\<lambda>d0.
     run_bind (index_at challenge_wire (2 + context_len + 16 + 1)) (\<lambda>d1.
     run_bind (index_at challenge_wire (2 + context_len + 16 + 2)) (\<lambda>d2.
     run_bind (index_at challenge_wire (2 + context_len + 16 + 3)) (\<lambda>d3.
       let difficulty = word_of_nat (be_nat [d0, d1, d2, d3]) in
     run_bind (slice_range challenge_wire 2 (2 + context_len)) (\<lambda>ctxt.
       Return (ctxt @ nonce, difficulty)))))))))"

definition response_error :: "json \<Rightarrow> string" where
  "response_error resp = unwrap_or ''unknown error'' (as_str (json_index resp ''error''))"

definition WsRelayClient_solve_challenge ::
  "'p ws_net \<Rightarrow> string \<Rightarrow> 'p WsRelayClient \<Rightarrow>
   (WsClientError + string \<times> string) run \<times> 'p WsRelayClient" where
  "WsRelayClient_solve_challenge net recipient_id c =
     (let req = JObj [(''op'', JStr ''challenge''), (''recipient_id'', JStr recipient_id)];
          (r, c) = WsRelayClient_round_trip net req c
      in (case r of
            Inl e \<Rightarrow> (Return (Inl e), c)
          | Inr resp \<Rightarrow>
              if json_index resp ''ok'' \<noteq> JBool True
              then (Return (Inl (Relay (response_error resp))), c)
              else (case as_str (json_index resp ''challenge'') of
                 None \<Rightarrow> (Return (Inl (Relay ''missing challenge field'')), c)
               | Some challenge_b64 \<Rightarrow>
              (case as_str (json_index resp ''challenge_id'') of
                 None \<Rightarrow> (Return (Inl (Relay ''missing challenge_id field'')), c)
               | Some challenge_id \<Rightarrow>
              (case b64_decode challenge_b64 of
                 Inl e \<Rightarrow> (Return (Inl (Decode (''challenge wire: '' @ e))), c)
               | Inr challenge_wire \<Rightarrow>
                   (run_bind (read_challenge_wire challenge_wire) (\<lambda>(preimage, difficulty).
                    run_bind (client_solve_loop (net_sha256 net) preimage difficulty 0) (\<lambda>r.
                      Return (case r of
                                Inl e \<Rightarrow> Inl e
                              | Inr solution \<Rightarrow> Inr (challenge_id, b64_encode solution)))), c))))))"

section \<open>The four operations\<close>

text \<open>The answer to a write: \<open>ok\<close>, or the relay's error.\<close>

definition write_result :: "WsClientError + json \<Rightarrow> WsClientError + unit" where
  "write_result r =
     (case r of
        Inl e \<Rightarrow> Inl e
      | Inr resp \<Rightarrow> if json_index resp ''ok'' = JBool True then Inr ()
                     else Inl (Relay (response_error resp)))"

definition WsRelayClient_publish_prekey ::
  "'p ws_net \<Rightarrow> string \<Rightarrow> bytes \<Rightarrow> 'p WsRelayClient \<Rightarrow> (WsClientError + unit) run \<times> 'p WsRelayClient" where
  "WsRelayClient_publish_prekey net recipient_id bundle c =
     (case WsRelayClient_solve_challenge net recipient_id c of
        (Panic, c) \<Rightarrow> (Panic, c)
      | (Return (Inl e), c) \<Rightarrow> (Return (Inl e), c)
      | (Return (Inr (challenge_id, pow_solution)), c) \<Rightarrow>
          let req = JObj [(''op'', JStr ''publish_prekey''), (''recipient_id'', JStr recipient_id),
                          (''bundle'', JStr (b64_encode bundle)),
                          (''challenge_id'', JStr challenge_id), (''pow_solution'', JStr pow_solution)];
              (r, c) = WsRelayClient_round_trip net req c
          in (Return (write_result r), c))"

definition WsRelayClient_send_envelope ::
  "'p ws_net \<Rightarrow> string \<Rightarrow> bytes \<Rightarrow> 'p WsRelayClient \<Rightarrow> (WsClientError + unit) run \<times> 'p WsRelayClient" where
  "WsRelayClient_send_envelope net recipient_id envelope c =
     (case WsRelayClient_solve_challenge net recipient_id c of
        (Panic, c) \<Rightarrow> (Panic, c)
      | (Return (Inl e), c) \<Rightarrow> (Return (Inl e), c)
      | (Return (Inr (challenge_id, pow_solution)), c) \<Rightarrow>
          let req = JObj [(''op'', JStr ''send_envelope''), (''recipient_id'', JStr recipient_id),
                          (''envelope'', JStr (b64_encode envelope)),
                          (''challenge_id'', JStr challenge_id), (''pow_solution'', JStr pow_solution)];
              (r, c) = WsRelayClient_round_trip net req c
          in (Return (write_result r), c))"

text \<open>The answer to a read: the named field decoded, or an error; \<open>Expired\<close> counts as not found.\<close>

definition read_result :: "string \<Rightarrow> WsClientError + json \<Rightarrow> WsClientError + bytes" where
  "read_result field r =
     (case r of
        Inl e \<Rightarrow> Inl e
      | Inr resp \<Rightarrow>
          if json_index resp ''ok'' = JBool True
          then (case as_str (json_index resp field) of
                  None \<Rightarrow> Inl (Relay (''missing '' @ field @ '' field''))
                | Some b64 \<Rightarrow> map_err Decode (b64_decode b64))
          else let err = response_error resp
               in if err = ''NotFound'' \<or> err = ''Expired'' then Inl ClientNotFound else Inl (Relay err))"

definition WsRelayClient_lookup_prekey ::
  "'p ws_net \<Rightarrow> string \<Rightarrow> 'p WsRelayClient \<Rightarrow> (WsClientError + bytes) \<times> 'p WsRelayClient" where
  "WsRelayClient_lookup_prekey net recipient_id c =
     (let req = JObj [(''op'', JStr ''lookup_prekey''), (''recipient_id'', JStr recipient_id)];
          (r, c) = WsRelayClient_round_trip net req c
      in (read_result ''bundle'' r, c))"

definition WsRelayClient_pickup_envelope ::
  "'p ws_net \<Rightarrow> string \<Rightarrow> 'p WsRelayClient \<Rightarrow> (WsClientError + bytes) \<times> 'p WsRelayClient" where
  "WsRelayClient_pickup_envelope net recipient_id c =
     (let req = JObj [(''op'', JStr ''pickup_envelope''), (''recipient_id'', JStr recipient_id)];
          (r, c) = WsRelayClient_round_trip net req c
      in (read_result ''envelope'' r, c))"

section \<open>A relay at the other end\<close>

text \<open>The object the client sends for each request.\<close>

definition WsRequest_json :: "WsRequest \<Rightarrow> json" where
  "WsRequest_json q =
     (case q of
        ReqChallenge r \<Rightarrow> JObj [(''op'', JStr ''challenge''), (''recipient_id'', JStr r)]
      | PublishPrekey r b i p \<Rightarrow>
          JObj [(''op'', JStr ''publish_prekey''), (''recipient_id'', JStr r), (''bundle'', JStr b),
                (''challenge_id'', JStr i), (''pow_solution'', JStr p)]
      | LookupPrekey r \<Rightarrow> JObj [(''op'', JStr ''lookup_prekey''), (''recipient_id'', JStr r)]
      | SendEnvelope r e i p \<Rightarrow>
          JObj [(''op'', JStr ''send_envelope''), (''recipient_id'', JStr r), (''envelope'', JStr e),
                (''challenge_id'', JStr i), (''pow_solution'', JStr p)]
      | PickupEnvelope r \<Rightarrow> JObj [(''op'', JStr ''pickup_envelope''), (''recipient_id'', JStr r)])"

text \<open>
  The relay as a peer: its state and the environments its next requests will see. Each text
  frame goes through \<open>handle_connection\<close>; a handler that panics closes the connection.
\<close>

definition relay_react ::
  "(bytes \<Rightarrow> bytes) \<Rightarrow> (string \<Rightarrow> string + WsRequest) \<Rightarrow> (WsResponse \<Rightarrow> string) \<Rightarrow> string \<Rightarrow>
   WsState \<times> WsEnv list \<Rightarrow> bool \<times> ws_message list \<times> (WsState \<times> WsEnv list)" where
  "relay_react sha256 from_str to_string text p =
     (case p of
        (st, []) \<Rightarrow> (False, [], p)
      | (st, env # envs) \<Rightarrow>
          (case handle_connection sha256 from_str to_string [(env, Text text, True)] st of
             (Panic, st) \<Rightarrow> (True, [], (st, []))
           | (Return outs, st) \<Rightarrow> (True, map Text outs, (st, envs))))"

text \<open>
  What is relied on of \<open>serde_json\<close>: a request printed by the client is parsed to the same
  request, and a response printed by the relay is parsed to its JSON object.
\<close>

definition serde_ok ::
  "(WsState \<times> WsEnv list) ws_net \<Rightarrow> (string \<Rightarrow> string + WsRequest) \<Rightarrow> (WsResponse \<Rightarrow> string) \<Rightarrow> bool" where
  "serde_ok net from_str to_string \<longleftrightarrow>
     (\<forall>q. from_str (print_json net (WsRequest_json q)) = Inr q) \<and>
     (\<forall>r. parse_json net (to_string r) = Inr (WsResponse_json r))"

definition relay_client :: "WsState \<Rightarrow> WsEnv list \<Rightarrow> (WsState \<times> WsEnv list) WsRelayClient" where
  "relay_client st envs = \<lparr>wc_stream = Some \<lparr>inbox = [], peer = (st, envs)\<rparr>\<rparr>"

section \<open>Lemmas\<close>

lemma check_pow_difficulty_eq: "check_pow_difficulty = meets_difficulty"
  by (intro ext) (simp add: check_pow_difficulty_def meets_difficulty_def)

interpretation client_search: counter_search
  "\<lambda>c. meets_difficulty sha256 preimage (le_bytes 8 c) difficulty"
  "\<lambda>c. Return (Inr (le_bytes 8 c))"
  "Return (Inl (PowFailed ''exceeded iteration limit''))"
  "2 ^ 32"
  "client_solve_loop sha256 preimage difficulty"
  for sha256 preimage difficulty
  by unfold_locales
    (subst client_solve_loop.simps, simp only: Let_def check_pow_difficulty_eq)

lemma json_index_response [simp]:
  "json_index (WsResponse_json (RespOk ok b e ch i)) ''ok'' = JBool ok"
  "as_str (json_index (WsResponse_json (RespOk ok b e ch i)) ''bundle'') = b"
  "as_str (json_index (WsResponse_json (RespOk ok b e ch i)) ''envelope'') = e"
  "as_str (json_index (WsResponse_json (RespOk ok b e ch i)) ''challenge'') = ch"
  "as_str (json_index (WsResponse_json (RespOk ok b e ch i)) ''challenge_id'') = i"
  "json_index (WsResponse_json (RespErr ok err)) ''ok'' = JBool ok"
  "response_error (WsResponse_json (RespErr ok err)) = err"
  by (auto simp: json_index_def WsResponse_json_def opt_field_def unwrap_or_def as_str_def
      response_error_def split: option.splits)

lemma round_trip_relay:
  assumes "serde_ok net from_str to_string" "react net = relay_react sha256 from_str to_string"
    and "handle_request sha256 env q st = (Return resp, st')"
  shows "WsRelayClient_round_trip net (WsRequest_json q) (relay_client st (env # envs)) =
    (Inr (WsResponse_json resp), relay_client st' envs)"
  using assms
  by (simp add: WsRelayClient_round_trip_def WsRelayClient_stream_mut_def ok_or_def relay_client_def relay_react_def serde_ok_def Let_def)

lemma be_nat_nth4:
  assumes "length bs = 4"
  shows "[bs ! 0, bs ! 1, bs ! 2, bs ! 3] = bs"
  using assms by (auto simp: numeral_eq_Suc length_Suc_conv)

lemma be_nat_nth2:
  assumes "length bs = 2"
  shows "[bs ! 0, bs ! 1] = bs"
  using assms by (auto simp: numeral_eq_Suc length_Suc_conv)

lemma read_wire_round_trip:
  assumes "length (ch_nonce ch) = 16" "length (ch_context ch) < 65536"
  shows "read_challenge_wire (Challenge_to_wire ch) =
    Return (Challenge_preimage_prefix ch, ch_difficulty ch)"
proof -
  define cl where "cl = length (ch_context ch)"
  define hdr where "hdr = be_bytes 2 cl"
  define dif where "dif = be_bytes 4 (unat (ch_difficulty ch))"
  have len: "length hdr = 2" "length dif = 4" by (simp_all add: hdr_def dif_def)
  have wire: "Challenge_to_wire ch = hdr @ ch_context ch @ ch_nonce ch @ dif"
    by (simp add: Challenge_to_wire_def hdr_def dif_def cl_def)
  have hdr: "be_nat [hdr ! 0, hdr ! 1] = cl"
    using be_nat_nth2 [OF len(1)] assms by (simp add: hdr_def cl_def)
  have "unat (ch_difficulty ch) < 4294967296"
    using unsigned_less [of "ch_difficulty ch"] by simp
  then have dif: "word_of_nat (be_nat [dif ! 0, dif ! 1, dif ! 2, dif ! 3]) = ch_difficulty ch"
    using be_nat_nth4 [OF len(2)] by (simp add: dif_def)
  have at: "index_at (Challenge_to_wire ch) 0 = Return (hdr ! 0)"
    "index_at (Challenge_to_wire ch) 1 = Return (hdr ! 1)"
    "\<And>i. i < 4 \<Longrightarrow> index_at (Challenge_to_wire ch) (2 + cl + 16 + i) = Return (dif ! i)"
    using len assms(1) by (simp_all add: wire index_at_def nth_append cl_def)
  have sl: "slice_range (Challenge_to_wire ch) (2 + cl) (2 + cl + 16) = Return (ch_nonce ch)"
    "slice_range (Challenge_to_wire ch) 2 (2 + cl) = Return (ch_context ch)"
    using len assms(1) by (simp_all add: wire slice_range_def cl_def)
  show ?thesis
    unfolding read_challenge_wire_def
    using at(3) [of 0] at(3) [of 1] at(3) [of 2] at(3) [of 3] dif
    by (simp only: at(1,2) run_bind_simps hdr Let_def sl) (simp add: Challenge_preimage_prefix_def)
qed

text \<open>A challenge this relay issues, and that it can be solved within the counter range.\<close>

definition issued_challenge :: "bytes \<Rightarrow> Challenge" where
  "issued_challenge nonce =
     \<lparr>ch_context = POW_CONTEXT, ch_nonce = nonce, ch_difficulty = POW_DIFFICULTY\<rparr>"

definition solvable :: "(bytes \<Rightarrow> bytes) \<Rightarrow> bytes \<Rightarrow> bool" where
  "solvable sha256 nonce \<longleftrightarrow>
     (\<exists>k \<le> 2 ^ 32. be_nat (sha256 (POW_CONTEXT @ nonce @ le_bytes 8 k)) < 2 ^ 236)"

lemma verify_issued_challenge:
  "digest32 sha256 \<Longrightarrow> verify sha256 (issued_challenge nonce) s =
     Return (if be_nat (sha256 (POW_CONTEXT @ nonce @ s)) < 2 ^ 236 then Inr () else Inl (Invalid 20))"
  by (simp add: verify_number issued_challenge_def POW_DIFFICULTY_def)

lemma client_solves:
  assumes "digest32 sha256" "solvable sha256 nonce"
  shows "\<exists>k. client_solve_loop sha256 (POW_CONTEXT @ nonce) POW_DIFFICULTY 0 = Return (Inr (le_bytes 8 k)) \<and>
    verify sha256 (issued_challenge nonce) (le_bytes 8 k) = Return (Inr ())"
proof -
  have test: "meets_difficulty sha256 (POW_CONTEXT @ nonce) (le_bytes 8 k) POW_DIFFICULTY =
      Return (be_nat (sha256 (POW_CONTEXT @ nonce @ le_bytes 8 k)) < 2 ^ 236)" for k
    using assms(1) by (simp add: meets_difficulty_number POW_DIFFICULTY_def)
  show ?thesis
    using client_search.search_total [of sha256 "POW_CONTEXT @ nonce" POW_DIFFICULTY] assms
    unfolding test by (auto simp: solvable_def verify_issued_challenge)
qed

lemma solve_challenge_relay:
  assumes "serde_ok net from_str to_string" "react net = relay_react sha256 from_str to_string"
    and "net_sha256 net = sha256" "digest32 sha256" "solvable sha256 (env_nonce env)"
    and "length (env_nonce env) = 16"
    and "handle_request sha256 env (ReqChallenge r) st =
      (Return (WsResponse_ok_challenge i (b64_encode (Challenge_to_wire (issued_challenge (env_nonce env))))), st')"
  shows "\<exists>s. WsRelayClient_solve_challenge net r (relay_client st (env # envs)) =
      (Return (Inr (i, b64_encode s)), relay_client st' envs) \<and>
      verify sha256 (issued_challenge (env_nonce env)) s = Return (Inr ())"
proof -
  obtain k where k: "client_solve_loop sha256 (POW_CONTEXT @ env_nonce env) POW_DIFFICULTY 0 =
      Return (Inr (le_bytes 8 k))"
    "verify sha256 (issued_challenge (env_nonce env)) (le_bytes 8 k) = Return (Inr ())"
    using client_solves [OF assms(4,5)] by blast
  have req: "JObj [(''op'', JStr ''challenge''), (''recipient_id'', JStr r)] = WsRequest_json (ReqChallenge r)"
    by (simp add: WsRequest_json_def)
  have wire: "read_challenge_wire (Challenge_to_wire (issued_challenge (env_nonce env))) =
      Return (POW_CONTEXT @ env_nonce env, POW_DIFFICULTY)"
    using read_wire_round_trip [of "issued_challenge (env_nonce env)"] assms(6)
    by (simp add: issued_challenge_def Challenge_preimage_prefix_def POW_CONTEXT_def)
  show ?thesis
    unfolding WsRelayClient_solve_challenge_def Let_def req round_trip_relay [OF assms(1,2,7)]
    using k assms(3)
    by (intro exI [of _ "le_bytes 8 k"]) (simp add: WsResponse_ok_challenge_def wire)
qed

text \<open>An identity the limiter has not seen is admitted as often as the capacity allows.\<close>

lemma check_fresh:
  assumes "rl_wf l" "rl_view l i = None"
  shows "\<exists>l'. RateLimiter_check i t l = (Inr (), l') \<and> rl_wf l' \<and> rl_capacity l' = rl_capacity l \<and>
    (\<exists>s. rl_view l' i = Some (s, unat (rl_capacity l) - 1))"
proof -
  obtain l' where "RateLimiter_check i t l = (Inr (), l')"
    "rl_view l' i = Some (as_secs t, unat (rl_capacity l) - 1)"
    using check_view [OF assms(1), of i t] assms(2) by auto
  then show ?thesis
    using check_wf [OF assms(1), of i t] check_params(1) [of i t l] by auto
qed

lemma check_again:
  assumes "rl_wf l" "rl_view l i = Some (s, k)" "Suc n \<le> k" "Suc n < unat (rl_capacity l)"
  shows "\<exists>l'. RateLimiter_check i t l = (Inr (), l') \<and> rl_wf l' \<and> rl_capacity l' = rl_capacity l \<and>
    (\<exists>s' k'. rl_view l' i = Some (s', k') \<and> n \<le> k')"
proof -
  obtain l' where l': "RateLimiter_check i t l = (Inr (), l')"
    "rl_view l' i = Some (as_secs t, unat (rl_capacity l) - 1) \<or> rl_view l' i = Some (s, k - 1)"
    using check_view [OF assms(1), of i t] assms(2,3) by (auto split: if_splits)
  then show ?thesis
    using check_wf [OF assms(1), of i t] check_params(1) [of i t l] assms(3,4) by auto
qed

lemma admits_check: "RateLimiter_check i t l = (Inr (), l') \<Longrightarrow> rl_admits l i t"
  by (simp add: rl_admits_def)

lemma handle_challenge:
  assumes "RateLimiter_check (str_bytes r) (from_secs (env_unix_secs env)) (ws_rate_limiter st) = (Inr (), l)"
  shows "handle_request sha256 env (ReqChallenge r) st =
    (Return (WsResponse_ok_challenge (hex_encode (env_nonce env))
       (b64_encode (Challenge_to_wire (issued_challenge (env_nonce env))))),
     st\<lparr>ws_rate_limiter := l, ws_challenges :=
        hm_insert (hex_encode (env_nonce env)) (issued_challenge (env_nonce env)) (ws_challenges st)\<rparr>)"
  using assms
  by (simp add: handle_request_def and_then_def check_rate_def issue_challenge_def challenge_new_ok
      issued_challenge_def Let_def)

lemma handle_send:
  assumes "RateLimiter_check (str_bytes r) (from_secs (env_unix_secs env)) (ws_rate_limiter st) = (Inr (), l)"
    and "map_of (ws_challenges st) c = Some ch" "verify sha256 ch s = Return (Inr ())"
    and "truncate_id r \<noteq> Panic"
  shows "handle_request sha256 env (SendEnvelope r (b64_encode e) c (b64_encode s)) st =
    (Return WsResponse_ok_simple, st\<lparr>ws_rate_limiter := l,
       ws_challenges := hm_remove c (ws_challenges st),
       ws_store := snd (RelayStore_store (env_instant env) r e DEFAULT_ENVELOPE_TTL (ws_store st))\<rparr>)"
proof -
  have "check_pow sha256 env r c (b64_encode s) (st\<lparr>ws_rate_limiter := l\<rparr>) =
      (Return None, st\<lparr>ws_rate_limiter := l, ws_challenges := hm_remove c (ws_challenges st)\<rparr>)"
    using check_pow_pass [of "st\<lparr>ws_rate_limiter := l\<rparr>" c ch "b64_encode s" s sha256 env r] assms
    by simp
  then show ?thesis
    using assms
    by (simp add: handle_request_def and_then_def check_rate_def store_envelope_def log_then_def
        RelayStore_store_def Let_def)
qed

lemma handle_publish:
  assumes "RateLimiter_check (str_bytes r) (from_secs (env_unix_secs env)) (ws_rate_limiter st) = (Inr (), l)"
    and "map_of (ws_challenges st) c = Some ch" "verify sha256 ch s = Return (Inr ())"
    and "truncate_id r \<noteq> Panic"
  shows "handle_request sha256 env (PublishPrekey r (b64_encode e) c (b64_encode s)) st =
    (Return WsResponse_ok_simple, st\<lparr>ws_rate_limiter := l,
       ws_challenges := hm_remove c (ws_challenges st),
       ws_prekeys := snd (RelayStore_store (env_instant env) (''prekey:'' @ r) e DEFAULT_PREKEY_TTL (ws_prekeys st))\<rparr>)"
proof -
  have "check_pow sha256 env r c (b64_encode s) (st\<lparr>ws_rate_limiter := l\<rparr>) =
      (Return None, st\<lparr>ws_rate_limiter := l, ws_challenges := hm_remove c (ws_challenges st)\<rparr>)"
    using check_pow_pass [of "st\<lparr>ws_rate_limiter := l\<rparr>" c ch "b64_encode s" s sha256 env r] assms
    by simp
  then show ?thesis
    using assms
    by (simp add: handle_request_def and_then_def check_rate_def store_prekey_def log_then_def
        RelayStore_store_def Let_def)
qed

lemma handle_pickup:
  assumes "RateLimiter_check (str_bytes r) (from_secs (env_unix_secs env)) (ws_rate_limiter st) = (Inr (), l)"
    and "map_of (rs_inner (ws_store st)) r = Some (e, x)" "env_instant env \<le> x"
  shows "\<exists>st'. handle_request sha256 env (PickupEnvelope r) st =
      (Return (WsResponse_ok_envelope (b64_encode e)), st') \<and> ws_rate_limiter st' = l"
  using assms
  by (simp add: handle_request_def and_then_def check_rate_def fetch_envelope_def
      RelayStore_pickup_def Let_def)

lemma handle_lookup:
  assumes "RateLimiter_check (str_bytes r) (from_secs (env_unix_secs env)) (ws_rate_limiter st) = (Inr (), l)"
    and "map_of (rs_inner (ws_prekeys st)) (''prekey:'' @ r) = Some (e, x)" "env_instant env \<le> x"
  shows "\<exists>st'. handle_request sha256 env (LookupPrekey r) st =
      (Return (WsResponse_ok_bundle (b64_encode e)), st') \<and> ws_rate_limiter st' = l"
  using assms
  by (simp add: handle_request_def and_then_def check_rate_def fetch_prekey_def
      RelayStore_pickup_def Let_def)

text \<open>The limiter has at least \<open>n\<close> admissions left for an identity, whenever they are asked for.\<close>

definition rl_ready :: "nat \<Rightarrow> RateLimiter \<Rightarrow> bytes \<Rightarrow> bool" where
  "rl_ready n l i \<longleftrightarrow> rl_wf l \<and>
     (case rl_view l i of
        None \<Rightarrow> n \<le> unat (rl_capacity l)
      | Some (s, k) \<Rightarrow> n \<le> k \<and> n < unat (rl_capacity l))"

lemma ready_check:
  assumes "rl_ready (Suc n) l i"
  obtains l' where "RateLimiter_check i t l = (Inr (), l')" "rl_ready n l' i"
proof (cases "rl_view l i")
  case None
  then have l: "rl_wf l" "Suc n \<le> unat (rl_capacity l)" using assms by (simp_all add: rl_ready_def)
  obtain l' s where "RateLimiter_check i t l = (Inr (), l')" "rl_wf l'" "rl_capacity l' = rl_capacity l"
    "rl_view l' i = Some (s, unat (rl_capacity l) - 1)"
    using check_fresh [OF l(1) None, of t] by blast
  with l(2) show thesis by (intro that [of l']) (simp_all add: rl_ready_def)
next
  case (Some v)
  then obtain s k where v: "rl_view l i = Some (s, k)" by (cases v) simp
  with assms have l: "rl_wf l" "Suc n \<le> k" "Suc n < unat (rl_capacity l)" by (simp_all add: rl_ready_def)
  obtain l' s' k' where "RateLimiter_check i t l = (Inr (), l')" "rl_wf l'" "rl_capacity l' = rl_capacity l"
    "rl_view l' i = Some (s', k')" "n \<le> k'"
    using check_again [OF l(1) v l(2,3), of t] by blast
  with l(3) show thesis by (intro that [of l']) (simp_all add: rl_ready_def)
qed

text \<open>
  The client's environment is a relay reached through serde's JSON and the SHA-256 it verifies
  with; \<open>issues\<close> says a request sees a nonce that makes a solvable challenge.
\<close>

definition relay_net ::
  "(WsState \<times> WsEnv list) ws_net \<Rightarrow> (string \<Rightarrow> string + WsRequest) \<Rightarrow> (WsResponse \<Rightarrow> string) \<Rightarrow> bool" where
  "relay_net net from_str to_string \<longleftrightarrow>
     serde_ok net from_str to_string \<and> react net = relay_react (net_sha256 net) from_str to_string \<and>
     digest32 (net_sha256 net)"

definition issues :: "(bytes \<Rightarrow> bytes) \<Rightarrow> WsEnv \<Rightarrow> bool" where
  "issues sha256 e \<longleftrightarrow> solvable sha256 (env_nonce e) \<and> length (env_nonce e) = 16"

lemma solve_step:
  assumes net: "relay_net net from_str to_string" and e: "issues (net_sha256 net) e"
    and ready: "rl_ready (Suc n) (ws_rate_limiter st) (str_bytes r)"
  obtains st1 s where
    "WsRelayClient_solve_challenge net r (relay_client st (e # es)) =
       (Return (Inr (hex_encode (env_nonce e), b64_encode s)), relay_client st1 es)"
    "verify (net_sha256 net) (issued_challenge (env_nonce e)) s = Return (Inr ())"
    "map_of (ws_challenges st1) (hex_encode (env_nonce e)) = Some (issued_challenge (env_nonce e))"
    "rl_ready n (ws_rate_limiter st1) (str_bytes r)" "ws_store st1 = ws_store st" "ws_prekeys st1 = ws_prekeys st"
proof -
  obtain l where l: "RateLimiter_check (str_bytes r) (from_secs (env_unix_secs e)) (ws_rate_limiter st) = (Inr (), l)"
    "rl_ready n l (str_bytes r)" by (rule ready_check [OF ready])
  have n: "serde_ok net from_str to_string" "react net = relay_react (net_sha256 net) from_str to_string"
    "digest32 (net_sha256 net)" using net by (simp_all add: relay_net_def)
  have i: "solvable (net_sha256 net) (env_nonce e)" "length (env_nonce e) = 16" using e by (simp_all add: issues_def)
  from solve_challenge_relay [OF n(1,2) refl n(3) i handle_challenge [OF l(1)], of es]
  show thesis using that l(2) by fastforce
qed

lemma send_step:
  assumes net: "relay_net net from_str to_string" and e: "issues (net_sha256 net) e1" and id: "truncate_id r \<noteq> Panic"
    and ready: "rl_ready (Suc (Suc n)) (ws_rate_limiter st) (str_bytes r)"
  obtains st2 where
    "WsRelayClient_send_envelope net r envelope (relay_client st (e1 # e2 # es)) = (Return (Inr ()), relay_client st2 es)"
    "rl_ready n (ws_rate_limiter st2) (str_bytes r)" "ws_prekeys st2 = ws_prekeys st"
    "map_of (rs_inner (ws_store st2)) r = Some (envelope, env_instant e2 + DEFAULT_ENVELOPE_TTL)"
proof -
  obtain st1 s where s: "WsRelayClient_solve_challenge net r (relay_client st (e1 # e2 # es)) =
       (Return (Inr (hex_encode (env_nonce e1), b64_encode s)), relay_client st1 (e2 # es))"
    "verify (net_sha256 net) (issued_challenge (env_nonce e1)) s = Return (Inr ())"
    "map_of (ws_challenges st1) (hex_encode (env_nonce e1)) = Some (issued_challenge (env_nonce e1))"
    "rl_ready (Suc n) (ws_rate_limiter st1) (str_bytes r)" "ws_store st1 = ws_store st" "ws_prekeys st1 = ws_prekeys st"
    by (rule solve_step [OF net e ready])
  obtain l where l: "RateLimiter_check (str_bytes r) (from_secs (env_unix_secs e2)) (ws_rate_limiter st1) = (Inr (), l)"
    "rl_ready n l (str_bytes r)" by (rule ready_check [OF s(4)])
  have n: "serde_ok net from_str to_string" "react net = relay_react (net_sha256 net) from_str to_string"
    using net by (simp_all add: relay_net_def)
  show thesis
    using round_trip_relay [OF n handle_send [OF l(1) s(3,2) id, of envelope], of es] l(2) s(5,6)
    by (intro that [of "st1\<lparr>ws_rate_limiter := l,
        ws_challenges := hm_remove (hex_encode (env_nonce e1)) (ws_challenges st1),
        ws_store := snd (RelayStore_store (env_instant e2) r envelope DEFAULT_ENVELOPE_TTL (ws_store st1))\<rparr>"])
      (simp_all add: WsRelayClient_send_envelope_def s(1) WsRequest_json_def write_result_def
        WsResponse_ok_simple_def RelayStore_store_def)
qed

lemma publish_step:
  assumes net: "relay_net net from_str to_string" and e: "issues (net_sha256 net) e1" and id: "truncate_id r \<noteq> Panic"
    and ready: "rl_ready (Suc (Suc n)) (ws_rate_limiter st) (str_bytes r)"
  obtains st2 where
    "WsRelayClient_publish_prekey net r bundle (relay_client st (e1 # e2 # es)) = (Return (Inr ()), relay_client st2 es)"
    "rl_ready n (ws_rate_limiter st2) (str_bytes r)" "ws_store st2 = ws_store st"
    "map_of (rs_inner (ws_prekeys st2)) (''prekey:'' @ r) = Some (bundle, env_instant e2 + DEFAULT_PREKEY_TTL)"
proof -
  obtain st1 s where s: "WsRelayClient_solve_challenge net r (relay_client st (e1 # e2 # es)) =
       (Return (Inr (hex_encode (env_nonce e1), b64_encode s)), relay_client st1 (e2 # es))"
    "verify (net_sha256 net) (issued_challenge (env_nonce e1)) s = Return (Inr ())"
    "map_of (ws_challenges st1) (hex_encode (env_nonce e1)) = Some (issued_challenge (env_nonce e1))"
    "rl_ready (Suc n) (ws_rate_limiter st1) (str_bytes r)" "ws_store st1 = ws_store st" "ws_prekeys st1 = ws_prekeys st"
    by (rule solve_step [OF net e ready])
  obtain l where l: "RateLimiter_check (str_bytes r) (from_secs (env_unix_secs e2)) (ws_rate_limiter st1) = (Inr (), l)"
    "rl_ready n l (str_bytes r)" by (rule ready_check [OF s(4)])
  have n: "serde_ok net from_str to_string" "react net = relay_react (net_sha256 net) from_str to_string"
    using net by (simp_all add: relay_net_def)
  show thesis
    using round_trip_relay [OF n handle_publish [OF l(1) s(3,2) id, of "bundle"], of es] l(2) s(5,6)
    by (intro that [of "st1\<lparr>ws_rate_limiter := l,
        ws_challenges := hm_remove (hex_encode (env_nonce e1)) (ws_challenges st1),
        ws_prekeys := snd (RelayStore_store (env_instant e2) (''prekey:'' @ r) bundle DEFAULT_PREKEY_TTL (ws_prekeys st1))\<rparr>"])
      (simp_all add: WsRelayClient_publish_prekey_def s(1) WsRequest_json_def write_result_def
        WsResponse_ok_simple_def RelayStore_store_def)
qed

lemma pickup_step:
  assumes net: "relay_net net from_str to_string"
    and ready: "rl_ready (Suc n) (ws_rate_limiter st) (str_bytes r)"
    and stored: "map_of (rs_inner (ws_store st)) r = Some (envelope, x)" "env_instant e \<le> x"
  obtains st' where "WsRelayClient_pickup_envelope net r (relay_client st (e # es)) = (Inr envelope, relay_client st' es)"
    "rl_ready n (ws_rate_limiter st') (str_bytes r)"
proof -
  obtain l where l: "RateLimiter_check (str_bytes r) (from_secs (env_unix_secs e)) (ws_rate_limiter st) = (Inr (), l)"
    "rl_ready n l (str_bytes r)" by (rule ready_check [OF ready])
  obtain st' where st': "handle_request (net_sha256 net) e (PickupEnvelope r) st =
      (Return (WsResponse_ok_envelope (b64_encode envelope)), st')" "ws_rate_limiter st' = l"
    using handle_pickup [OF l(1) stored] by blast
  have n: "serde_ok net from_str to_string" "react net = relay_react (net_sha256 net) from_str to_string"
    using net by (simp_all add: relay_net_def)
  show thesis
    using round_trip_relay [OF n st'(1), of es] l(2) st'(2)
    by (intro that [of st']) (simp_all add: WsRelayClient_pickup_envelope_def WsRequest_json_def read_result_def
        WsResponse_ok_envelope_def)
qed

lemma lookup_step:
  assumes net: "relay_net net from_str to_string"
    and ready: "rl_ready (Suc n) (ws_rate_limiter st) (str_bytes r)"
    and stored: "map_of (rs_inner (ws_prekeys st)) (''prekey:'' @ r) = Some (bundle, x)" "env_instant e \<le> x"
  obtains st' where "WsRelayClient_lookup_prekey net r (relay_client st (e # es)) = (Inr bundle, relay_client st' es)"
    "rl_ready n (ws_rate_limiter st') (str_bytes r)"
proof -
  obtain l where l: "RateLimiter_check (str_bytes r) (from_secs (env_unix_secs e)) (ws_rate_limiter st) = (Inr (), l)"
    "rl_ready n l (str_bytes r)" by (rule ready_check [OF ready])
  obtain st' where st': "handle_request (net_sha256 net) e (LookupPrekey r) st =
      (Return (WsResponse_ok_bundle (b64_encode bundle)), st')" "ws_rate_limiter st' = l"
    using handle_lookup [OF l(1) stored] by blast
  have n: "serde_ok net from_str to_string" "react net = relay_react (net_sha256 net) from_str to_string"
    using net by (simp_all add: relay_net_def)
  show thesis
    using round_trip_relay [OF n st'(1), of es] l(2) st'(2)
    by (intro that [of st']) (simp_all add: WsRelayClient_lookup_prekey_def WsRequest_json_def read_result_def
        WsResponse_ok_bundle_def)
qed

lemma read_wire_short:
  assumes "length w < 22"
  shows "read_challenge_wire w = Panic"
proof (cases "length w < 2")
  case True
  then show ?thesis by (auto simp: read_challenge_wire_def index_at_def)
next
  case False
  then have at: "index_at w 0 = Return (w ! 0)" "index_at w 1 = Return (w ! 1)"
    by (auto simp add: index_at_def)
  define cl where "cl = be_nat [w ! 0, w ! 1]"
  have "index_at w (2 + cl + 16 + 3) = Panic" using assms by (simp add: index_at_def)
  then show ?thesis
    unfolding read_challenge_wire_def at run_bind_simps Let_def cl_def [symmetric] by simp
qed

section \<open>A concrete exchange\<close>

text \<open>A JSON text layer by enumeration, for the witnesses.\<close>

definition demo_request :: "json \<Rightarrow> WsRequest" where
  "demo_request j =
     (let f = (\<lambda>k. unwrap_or [] (as_str (json_index j k)))
      in if f ''op'' = ''challenge'' then ReqChallenge (f ''recipient_id'')
         else if f ''op'' = ''publish_prekey''
         then PublishPrekey (f ''recipient_id'') (f ''bundle'') (f ''challenge_id'') (f ''pow_solution'')
         else if f ''op'' = ''lookup_prekey'' then LookupPrekey (f ''recipient_id'')
         else if f ''op'' = ''send_envelope''
         then SendEnvelope (f ''recipient_id'') (f ''envelope'') (f ''challenge_id'') (f ''pow_solution'')
         else PickupEnvelope (f ''recipient_id''))"

definition demo_print :: "json \<Rightarrow> string" where
  "demo_print j = replicate (to_nat j) (CHR ''x'')"

definition demo_from_str :: "string \<Rightarrow> string + WsRequest" where
  "demo_from_str s = Inr (demo_request (from_nat (length s)))"

definition demo_to_string :: "WsResponse \<Rightarrow> string" where
  "demo_to_string r = demo_print (WsResponse_json r)"

definition demo_net :: "(WsState \<times> WsEnv list) ws_net" where
  "demo_net = \<lparr>react = relay_react demo_sha demo_from_str demo_to_string, print_json = demo_print,
     parse_json = (\<lambda>s. Inr (from_nat (length s))), net_sha256 = demo_sha\<rparr>"

definition demo_env16 :: WsEnv where
  "demo_env16 = demo_env\<lparr>env_nonce := replicate 16 1\<rparr>"

lemma demo_request_json: "demo_request (WsRequest_json q) = q"
  by (cases q) (simp_all add: demo_request_def WsRequest_json_def json_index_def as_str_def unwrap_or_def)

lemma demo_serde: "serde_ok demo_net demo_from_str demo_to_string"
  by (simp add: serde_ok_def demo_net_def demo_from_str_def demo_to_string_def demo_print_def
      demo_request_json)

lemma demo_solvable: "solvable demo_sha nonce"
  by (auto simp: solvable_def demo_sha_def be_nat_replicate_zero)

lemma demo_relay_net: "relay_net demo_net demo_from_str demo_to_string"
  using demo_serde by (simp add: relay_net_def) (simp add: demo_net_def demo_digest)

lemma demo_issues: "issues (net_sha256 demo_net) demo_env16"
  by (simp add: issues_def demo_net_def demo_solvable demo_env16_def)

lemma demo_relay_limiter:
  "rl_wf (ws_rate_limiter (WsState_new 10))" "rl_view (ws_rate_limiter (WsState_new 10)) i = None"
  "unat (rl_capacity (ws_rate_limiter (WsState_new 10))) = 10"
  by (simp_all add: WsState_new_def RateLimiter_per_identity_def new_wf max_def word_le_nat_alt)

section \<open>Properties\<close>

text \<open>
  Against a relay with any contents, for a recipient the rate limiter has not met and whose
  challenge is solvable, \<open>send_envelope\<close> (request a challenge, parse its wire form, brute-force
  it, submit) succeeds, and a \<open>pickup_envelope\<close> within seven days returns exactly the bytes sent.
\<close>

theorem send_then_pickup_delivers:
  assumes "relay_net net from_str to_string" "issues (net_sha256 net) e1" "truncate_id r \<noteq> Panic"
    and "rl_wf (ws_rate_limiter st)" "rl_view (ws_rate_limiter st) (str_bytes r) = None"
    and "3 \<le> unat (rl_capacity (ws_rate_limiter st))"
    and "env_instant e3 \<le> env_instant e2 + DEFAULT_ENVELOPE_TTL"
  shows "\<exists>c. WsRelayClient_send_envelope net r envelope (relay_client st [e1, e2, e3]) = (Return (Inr ()), c) \<and>
    fst (WsRelayClient_pickup_envelope net r c) = Inr envelope"
proof -
  have ready: "rl_ready (Suc (Suc 1)) (ws_rate_limiter st) (str_bytes r)"
    using assms(4-6) by (simp add: rl_ready_def)
  obtain st2 where st2:
    "WsRelayClient_send_envelope net r envelope (relay_client st [e1, e2, e3]) = (Return (Inr ()), relay_client st2 [e3])"
    "rl_ready 1 (ws_rate_limiter st2) (str_bytes r)"
    "map_of (rs_inner (ws_store st2)) r = Some (envelope, env_instant e2 + DEFAULT_ENVELOPE_TTL)"
    by (rule send_step [OF assms(1-3) ready, of envelope e2 "[e3]"])
  have "rl_ready (Suc 0) (ws_rate_limiter st2) (str_bytes r)" using st2(2) by simp
  then obtain st3 where "WsRelayClient_pickup_envelope net r (relay_client st2 [e3]) = (Inr envelope, relay_client st3 [])"
    by (rule pickup_step [OF assms(1) _ st2(3) assms(7)])
  then show ?thesis using st2(1) by auto
qed

theorem send_then_pickup_delivers_witness:
  "\<exists>c. WsRelayClient_send_envelope demo_net ''bob'' [1, 2, 3]
       (relay_client (WsState_new 10) [demo_env16, demo_env16, demo_env16]) = (Return (Inr ()), c) \<and>
     fst (WsRelayClient_pickup_envelope demo_net ''bob'' c) = Inr [1, 2, 3]"
  by (rule send_then_pickup_delivers [OF demo_relay_net demo_issues])
    (simp_all add: truncate_id_def demo_relay_limiter)

text \<open>
  For every challenge the relay can issue (16-byte nonce, context below 64 KiB) the client's
  index arithmetic on the wire bytes recovers exactly the preimage and the difficulty the relay
  will verify against.
\<close>

theorem client_reads_challenge_wire:
  assumes "length (ch_nonce ch) = 16" "length (ch_context ch) < 65536"
  shows "read_challenge_wire (Challenge_to_wire ch) =
    Return (Challenge_preimage_prefix ch, ch_difficulty ch)"
  using assms by (rule read_wire_round_trip)

theorem client_reads_challenge_wire_witness:
  "read_challenge_wire (Challenge_to_wire (issued_challenge (replicate 16 9))) =
     Return (POW_CONTEXT @ replicate 16 9, 20)"
  using client_reads_challenge_wire [of "issued_challenge (replicate 16 9)"]
  by (simp add: issued_challenge_def POW_CONTEXT_def Challenge_preimage_prefix_def POW_DIFFICULTY_def)

text \<open>
  A client whose stream is gone fails closed: every operation returns
  \<open>ConnectionUnavailable\<close>, with nothing handed to the network and the client unchanged.
\<close>

theorem closed_client_fails_closed:
  "WsRelayClient_publish_prekey net r b (WsRelayClient_close c) =
     (Return (Inl ConnectionUnavailable), WsRelayClient_close c) \<and>
   WsRelayClient_send_envelope net r b (WsRelayClient_close c) =
     (Return (Inl ConnectionUnavailable), WsRelayClient_close c) \<and>
   WsRelayClient_lookup_prekey net r (WsRelayClient_close c) =
     (Inl ConnectionUnavailable, WsRelayClient_close c) \<and>
   WsRelayClient_pickup_envelope net r (WsRelayClient_close c) =
     (Inl ConnectionUnavailable, WsRelayClient_close c)"
  by (simp add: WsRelayClient_close_def WsRelayClient_publish_prekey_def WsRelayClient_send_envelope_def
      WsRelayClient_lookup_prekey_def WsRelayClient_pickup_envelope_def read_result_def
      WsRelayClient_solve_challenge_def WsRelayClient_round_trip_def WsRelayClient_stream_mut_def ok_or_def)

text \<open>
  A relay that answers the challenge request with fewer than 22 wire bytes makes the client
  panic on an out-of-range index instead of returning an error.
\<close>

theorem short_challenge_panics_client:
  assumes "WsRelayClient_round_trip net
      (JObj [(''op'', JStr ''challenge''), (''recipient_id'', JStr r)]) c =
      (Inr (WsResponse_json (WsResponse_ok_challenge i (b64_encode wire))), c')"
    and "length wire < 22"
  shows "fst (WsRelayClient_solve_challenge net r c) = Panic"
  using assms read_wire_short [OF assms(2)]
  by (simp add: WsRelayClient_solve_challenge_def WsResponse_ok_challenge_def)

theorem short_challenge_panics_client_witness:
  "\<exists>net c. fst (WsRelayClient_solve_challenge net ''bob'' (c :: unit WsRelayClient)) = Panic"
proof -
  let ?resp = "WsResponse_json (WsResponse_ok_challenge ''id'' (b64_encode [1]))"
  let ?net = "\<lparr>react = (\<lambda>_ p. (True, [Text (demo_print ?resp)], p)), print_json = demo_print,
     parse_json = (\<lambda>s. Inr (from_nat (length s))), net_sha256 = demo_sha\<rparr>"
  let ?c = "\<lparr>wc_stream = Some \<lparr>inbox = [], peer = ()\<rparr>\<rparr> :: unit WsRelayClient"
  have "WsRelayClient_round_trip ?net
      (JObj [(''op'', JStr ''challenge''), (''recipient_id'', JStr ''bob'')]) ?c = (Inr ?resp, ?c)"
    by (simp add: WsRelayClient_round_trip_def WsRelayClient_stream_mut_def ok_or_def demo_print_def)
  from short_challenge_panics_client [OF this] show ?thesis by auto
qed

end
