(* ===== verification/Ws_Listener.thy ===== *)
theory Ws_Listener
  imports Ws_Bridge "HOL-Library.Multiset"
begin

text \<open>
  The accept loop of the WebSocket bridge (\<open>serve_listener\<close>, \<open>start_ws_listener_for_test\<close> and the
  listener handle of \<open>relay/src/ws.rs\<close>) and the connections it spawns. A connection is a state
  machine: it waits for the handshake, then for a frame, and while it serves a request it is at
  one of the phases of \<open>Ws_Bridge\<close>; all connections share one \<open>WsState\<close>. The theorems carry the
  results on interleaved requests over to the listener. \<open>conn_step\<close> is the loop of
  \<open>handle_connection\<close> cut at its awaits; \<open>conn_run_outcome\<close> keeps the two in step, and both are
  then measured against a closed form that has no loop: which frames are answered, with what, and
  where the connection ends.
\<close>

section \<open>One connection\<close>

datatype conn_phase =
    Handshaking
  | Waiting
  | Serving ws_task
  | Ended

text \<open>
  What a connection task awaits: the handshake, the next frame (with whether an immediate reply
  to it can be written) or the end of the stream, and the next lock of the request it serves
  (with whether the reply can be written, should the step produce it).
\<close>

datatype conn_event =
    Handshake_Result bool
  | Next_Frame ws_message bool
  | Next_None
  | Resume WsEnv bool

text \<open>\<open>conn_handled\<close> lists the requests the connection has completed; it only serves the proofs.\<close>

record Conn =
  conn_phase :: conn_phase
  conn_written :: "string list"
  conn_handled :: "ws_task list"

definition Conn_accepted :: Conn where
  "Conn_accepted = \<lparr>conn_phase = Handshaking, conn_written = [], conn_handled = []\<rparr>"

definition reply :: "(WsResponse \<Rightarrow> string) \<Rightarrow> bool \<Rightarrow> WsResponse \<Rightarrow> Conn \<Rightarrow> Conn" where
  "reply to_string sent resp c =
     (if sent then c\<lparr>conn_written := conn_written c @ [to_string resp]\<rparr> else c)"

text \<open>The body of the loop for one frame; a failed reply to a refused frame is ignored.\<close>

definition on_frame ::
  "(string \<Rightarrow> string + WsRequest) \<Rightarrow> (WsResponse \<Rightarrow> string) \<Rightarrow> ws_message \<Rightarrow> bool \<Rightarrow> Conn \<Rightarrow> Conn" where
  "on_frame from_str to_string msg sent c =
     (case msg of
        Text text \<Rightarrow>
          (case from_str text of
             Inl e \<Rightarrow> reply to_string sent (WsResponse_err (''MalformedRequest: '' @ e)) c
           | Inr req \<Rightarrow> c\<lparr>conn_phase := Serving (Fresh req)\<rparr>)
      | Binary _ \<Rightarrow> reply to_string sent (WsResponse_err ''BinaryFramesNotAllowed'') c
      | Close \<Rightarrow> c\<lparr>conn_phase := Ended\<rparr>
      | Ping_Pong \<Rightarrow> c
      | Stream_Error _ \<Rightarrow> c\<lparr>conn_phase := Ended\<rparr>)"

text \<open>A completed request: its reply is written and the loop goes on, or the task ends.\<close>

definition on_progress :: "(WsResponse \<Rightarrow> string) \<Rightarrow> bool \<Rightarrow> ws_task \<Rightarrow> Conn \<Rightarrow> Conn" where
  "on_progress to_string sent t c =
     (case t of
        Done req proved resp \<Rightarrow>
          let c = c\<lparr>conn_handled := conn_handled c @ [t]\<rparr>
          in (case resp of
                Panic \<Rightarrow> c\<lparr>conn_phase := Ended\<rparr>
              | Return r \<Rightarrow>
                  if sent then reply to_string True r (c\<lparr>conn_phase := Waiting\<rparr>)
                  else c\<lparr>conn_phase := Ended\<rparr>)
      | _ \<Rightarrow> c\<lparr>conn_phase := Serving t\<rparr>)"

fun conn_step ::
  "(bytes \<Rightarrow> bytes) \<Rightarrow> (string \<Rightarrow> string + WsRequest) \<Rightarrow> (WsResponse \<Rightarrow> string) \<Rightarrow>
   conn_event \<Rightarrow> Conn \<times> WsState \<Rightarrow> Conn \<times> WsState" where
  "conn_step sha256 from_str to_string ev (c, st) =
     (case (conn_phase c, ev) of
        (Handshaking, Handshake_Result ok) \<Rightarrow>
          (c\<lparr>conn_phase := (if ok then Waiting else Ended)\<rparr>, st)
      | (Waiting, Next_Frame msg sent) \<Rightarrow> (on_frame from_str to_string msg sent c, st)
      | (Waiting, Next_None) \<Rightarrow> (c\<lparr>conn_phase := Ended\<rparr>, st)
      | (Serving t, Resume env sent) \<Rightarrow>
          let (t, st) = task_step sha256 env t st
          in (on_progress to_string sent t c, st)
      | _ \<Rightarrow> (c, st))"

section \<open>The accept loop\<close>

text \<open>
  \<open>ln_open\<close> tells whether the accept loop still runs. The loop ends when \<open>accept\<close> fails
  (\<open>serve_listener\<close> returns that error, the listener for tests logs it) or when the test handle is
  dropped; connections already spawned are tasks of their own and go on.
\<close>

record Listener =
  ln_state :: WsState
  ln_conns :: "Conn list"
  ln_open :: bool

definition Listener_new :: "u32 \<Rightarrow> Listener" where
  "Listener_new rate_limit_per_minute =
     \<lparr>ln_state = WsState_new rate_limit_per_minute, ln_conns = [], ln_open = True\<rparr>"

definition Listener_accept :: "'e + unit \<Rightarrow> Listener \<Rightarrow> Listener" where
  "Listener_accept r L =
     (if \<not> ln_open L then L
      else (case r of
              Inl _ \<Rightarrow> L\<lparr>ln_open := False\<rparr>
            | Inr _ \<Rightarrow> L\<lparr>ln_conns := ln_conns L @ [Conn_accepted]\<rparr>))"

definition WsListenerHandle_drop :: "Listener \<Rightarrow> Listener" where
  "WsListenerHandle_drop L = L\<lparr>ln_open := False\<rparr>"

definition Listener_deliver ::
  "(bytes \<Rightarrow> bytes) \<Rightarrow> (string \<Rightarrow> string + WsRequest) \<Rightarrow> (WsResponse \<Rightarrow> string) \<Rightarrow>
   nat \<Rightarrow> conn_event \<Rightarrow> Listener \<Rightarrow> Listener" where
  "Listener_deliver sha256 from_str to_string i ev L =
     (if i < length (ln_conns L) then
        (case conn_step sha256 from_str to_string ev (ln_conns L ! i, ln_state L) of
           (c, st) \<Rightarrow> L\<lparr>ln_conns := (ln_conns L)[i := c], ln_state := st\<rparr>)
      else L)"

inductive listener_step ::
  "(bytes \<Rightarrow> bytes) \<Rightarrow> (string \<Rightarrow> string + WsRequest) \<Rightarrow> (WsResponse \<Rightarrow> string) \<Rightarrow>
   Listener \<Rightarrow> Listener \<Rightarrow> bool" for sha256 from_str to_string where
  accept_next: "listener_step sha256 from_str to_string L (Listener_accept (r :: string + unit) L)"
| deliver: "listener_step sha256 from_str to_string L (Listener_deliver sha256 from_str to_string i ev L)"
| handle_dropped: "listener_step sha256 from_str to_string L (WsListenerHandle_drop L)"

definition listening ::
  "(bytes \<Rightarrow> bytes) \<Rightarrow> (string \<Rightarrow> string + WsRequest) \<Rightarrow> (WsResponse \<Rightarrow> string) \<Rightarrow> u32 \<Rightarrow>
   Listener \<Rightarrow> bool" where
  "listening sha256 from_str to_string limit L =
     (listener_step sha256 from_str to_string)\<^sup>*\<^sup>* (Listener_new limit) L"

text \<open>The requests of all connections: those completed and those being served.\<close>

definition conn_tasks :: "Conn \<Rightarrow> ws_task list" where
  "conn_tasks c = conn_handled c @ (case conn_phase c of Serving t \<Rightarrow> [t] | _ \<Rightarrow> [])"

definition listener_tasks :: "Listener \<Rightarrow> ws_task list" where
  "listener_tasks L = concat (map conn_tasks (ln_conns L))"

section \<open>Simulations\<close>

text \<open>
  A concrete system that follows an abstract one with any number of abstract steps, none
  included, for each of its own: what it reaches is matched by something the abstract one reaches.
\<close>

locale follows =
  fixes concrete :: "'c \<Rightarrow> 'c \<Rightarrow> bool"
    and abstract :: "'a \<Rightarrow> 'a \<Rightarrow> bool"
    and matches :: "'c \<Rightarrow> 'a \<Rightarrow> bool"
  assumes follow: "concrete c c' \<Longrightarrow> matches c a \<Longrightarrow> \<exists>a'. abstract\<^sup>*\<^sup>* a a' \<and> matches c' a'"
begin

lemma follow_run:
  assumes "concrete\<^sup>*\<^sup>* c c'" "matches c a"
  shows "\<exists>a'. abstract\<^sup>*\<^sup>* a a' \<and> matches c' a'"
  using assms
proof (induction rule: rtranclp_induct)
  case (step d e)
  then obtain b where "abstract\<^sup>*\<^sup>* a b" "matches d b" by blast
  moreover obtain b' where "abstract\<^sup>*\<^sup>* b b'" "matches e b'"
    using follow [OF step.hyps(2) calculation(2)] by blast
  ultimately show ?case using rtranclp_trans by fast
qed blast

lemma invariant_along:
  assumes "\<And>b b'. abstract b b' \<Longrightarrow> I b \<Longrightarrow> I b'" "I a" "concrete\<^sup>*\<^sup>* c c'" "matches c a"
  shows "\<exists>a'. I a' \<and> matches c' a'"
proof -
  obtain a' where "abstract\<^sup>*\<^sup>* a a'" "matches c' a'" using follow_run assms(3,4) by blast
  moreover from this(1) have "I a'" using assms(1,2) by (induction rule: rtranclp_induct) auto
  ultimately show ?thesis by blast
qed

end

section \<open>The listener follows the pool\<close>

lemmas conn_defs = on_frame_def on_progress_def reply_def conn_tasks_def

text \<open>An event at one connection is no request step, the arrival of one, or a phase of one.\<close>

lemma conn_step_cases:
  assumes "conn_step sha256 from_str to_string ev (c, st) = (c', st')"
  obtains (quiet) "st' = st" "mset (conn_tasks c') = mset (conn_tasks c)"
  | (arrival) req where "st' = st" "mset (conn_tasks c') = add_mset (Fresh req) (mset (conn_tasks c))"
  | (phase) env t t' where "t \<in># mset (conn_tasks c)" "task_step sha256 env t st = (t', st')"
      "mset (conn_tasks c') = add_mset t' (mset (conn_tasks c) - {#t#})"
proof (cases "conn_phase c")
  case Handshaking
  then show ?thesis using assms quiet by (auto simp: conn_defs split: conn_event.splits)
next
  case Waiting
  show ?thesis
  proof (cases "\<exists>text sent req. ev = Next_Frame (Text text) sent \<and> from_str text = Inr req")
    case True
    then show ?thesis using assms Waiting arrival by (auto simp: conn_defs)
  next
    case False
    then show ?thesis
      using assms Waiting quiet
      by (auto simp: conn_defs split: conn_event.splits ws_message.splits sum.splits if_splits)
  qed
next
  case (Serving t)
  show ?thesis
  proof (cases "\<exists>env sent. ev = Resume env sent")
    case True
    then obtain env sent where ev: "ev = Resume env sent" by blast
    obtain t' s where t': "task_step sha256 env t st = (t', s)" by fastforce
    have "s = st'" "c' = on_progress to_string sent t' c" using assms Serving ev t' by auto
    then show ?thesis
      using phase [of t env t'] t' Serving
      by (auto simp: conn_defs Let_def split: ws_task.splits run.splits)
  next
    case False
    then show ?thesis using assms Serving quiet by (auto split: conn_event.splits)
  qed
next
  case Ended
  then show ?thesis using assms quiet by auto
qed

definition pool_matches :: "Listener \<Rightarrow> WsState \<times> ws_task list \<Rightarrow> bool" where
  "pool_matches L p \<longleftrightarrow> fst p = ln_state L \<and> mset (snd p) = mset (listener_tasks L)"

lemma mset_concat_cons_update:
  "mset (concat (map f (as @ c # bs))) = mset (concat (map f (as @ d # bs))) - mset (f d) + mset (f c)"
  by simp

lemma mset_concat_update:
  "i < length cs \<Longrightarrow> mset (concat (map f (cs[i := c]))) = mset (concat (map f cs)) - mset (f (cs ! i)) + mset (f c)"
proof -
  assume "i < length cs"
  then obtain as bs where "cs = as @ cs ! i # bs" "length as = i"
    by (metis id_take_nth_drop length_take min.absorb4)
  then show ?thesis by (metis (no_types, lifting) mset_concat_cons_update list_update_length)
qed

lemma listener_tasks_deliver:
  assumes "i < length (ln_conns L)" "conn_step sha256 from_str to_string ev (ln_conns L ! i, ln_state L) = (c, st)"
  shows "mset (listener_tasks (Listener_deliver sha256 from_str to_string i ev L)) =
    mset (listener_tasks L) - mset (conn_tasks (ln_conns L ! i)) + mset (conn_tasks c)"
  using assms by (simp add: Listener_deliver_def listener_tasks_def mset_concat_update del: conn_step.simps)

lemma conn_tasks_sub:
  "i < length (ln_conns L) \<Longrightarrow> mset (conn_tasks (ln_conns L ! i)) \<subseteq># mset (listener_tasks L)"
proof -
  assume "i < length (ln_conns L)"
  then have "conn_tasks (ln_conns L ! i) \<in> set (map conn_tasks (ln_conns L))" by simp
  then obtain as bs where "map conn_tasks (ln_conns L) = as @ conn_tasks (ln_conns L ! i) # bs"
    by (meson split_list)
  then show ?thesis by (simp add: listener_tasks_def)
qed

lemma pool_advance_member:
  assumes "t \<in># mset ts" "task_step sha256 env t st = (t', st')"
  shows "\<exists>ts'. pool_step sha256 (st, ts) (st', ts') \<and> mset ts' = add_mset t' (mset ts - {#t#})"
proof -
  obtain i where "i < length ts" "ts ! i = t" using assms(1) by (auto simp: in_set_conv_nth)
  then show ?thesis
    using pool_step.advance [of i ts sha256 env st t' st'] assms(2)
    by (intro exI [of _ "ts[i := t']"]) (simp add: mset_update)
qed

lemma listener_follows:
  assumes "listener_step sha256 from_str to_string L L'" "pool_matches L p"
  shows "\<exists>p'. (pool_step sha256)\<^sup>*\<^sup>* p p' \<and> pool_matches L' p'"
  using assms
proof (cases rule: listener_step.cases)
  case (accept_next r)
  then have "pool_matches L' p"
    using assms(2) by (auto simp: pool_matches_def Listener_accept_def listener_tasks_def conn_tasks_def
        Conn_accepted_def split: sum.splits)
  then show ?thesis by blast
next
  case handle_dropped
  then have "pool_matches L' p" using assms(2) by (simp add: pool_matches_def WsListenerHandle_drop_def listener_tasks_def)
  then show ?thesis by blast
next
  case (deliver i ev)
  show ?thesis
  proof (cases "i < length (ln_conns L)")
    case True
    let ?old = "mset (conn_tasks (ln_conns L ! i))"
    obtain c st where s: "conn_step sha256 from_str to_string ev (ln_conns L ! i, ln_state L) = (c, st)" by fastforce
    have tasks: "mset (listener_tasks L') = mset (listener_tasks L) - ?old + mset (conn_tasks c)"
      and state: "ln_state L' = st"
      using listener_tasks_deliver [OF True s] deliver s True
      by (simp_all add: Listener_deliver_def del: conn_step.simps)
    have sub: "?old \<subseteq># mset (listener_tasks L)" by (rule conn_tasks_sub [OF True])
    obtain ts where p: "p = (ln_state L, ts)" "mset ts = mset (listener_tasks L)"
      using assms(2) by (cases p) (simp add: pool_matches_def)
    from s show ?thesis
    proof (cases rule: conn_step_cases)
      case quiet
      then have "pool_matches L' p" using tasks state p sub by (simp add: pool_matches_def)
      then show ?thesis by blast
    next
      case (arrival req)
      then have "pool_matches L' (ln_state L, ts @ [Fresh req])"
        using tasks state p sub by (simp add: pool_matches_def)
      then show ?thesis using pool_step.arrive p(1) by blast
    next
      case (phase env t t')
      have "t \<in># mset ts" using phase(1) sub p(2) by (metis mset_subset_eqD)
      from pool_advance_member [OF this phase(2)] obtain ts' where
        a: "pool_step sha256 (ln_state L, ts) (st, ts')" "mset ts' = add_mset t' (mset ts - {#t#})" by blast
      have "mset (listener_tasks L) - ?old + (?old - {#t#}) = mset (listener_tasks L) - {#t#}"
        using sub phase(1) by (metis add.commute multiset_diff_union_assoc mset_subset_eq_single subset_mset.diff_add)
      then have "pool_matches L' (st, ts')"
        using phase(3) tasks state p(2) a(2) by (simp add: pool_matches_def)
      then show ?thesis using a(1) p(1) by blast
    qed
  next
    case False
    then have "pool_matches L' p" using deliver assms(2) by (simp add: Listener_deliver_def)
    then show ?thesis by blast
  qed
qed

interpretation listener: follows "listener_step sha256 from_str to_string" "pool_step sha256" pool_matches
  for sha256 from_str to_string
  by unfold_locales (rule listener_follows)

section \<open>Well-formed bridge states\<close>

text \<open>
  What holds of the shared state at every moment: each map has one entry per key, no bucket
  holds more tokens than the capacity the operator configured (at least one), the window is a
  minute, and each open challenge is filed under its own nonce with the bridge's context and
  difficulty.
\<close>

definition ws_state_wf :: "u32 \<Rightarrow> WsState \<Rightarrow> bool" where
  "ws_state_wf limit st \<longleftrightarrow>
     store_wf (ws_store st) \<and> store_wf (ws_prekeys st) \<and> hm_wf (ws_challenges st) \<and> challenges_wf st \<and>
     hm_wf (rl_buckets (ws_rate_limiter st)) \<and> rl_wf (ws_rate_limiter st) \<and>
     rl_capacity (ws_rate_limiter st) = max limit 1 \<and> rl_window (ws_rate_limiter st) = from_secs 60"

lemma ws_state_wf_new: "ws_state_wf limit (WsState_new limit)"
  using new_wf [of limit "from_secs 60"]
  by (simp add: ws_state_wf_def WsState_new_def store_wf_new hm_wf_def challenges_wf_def
      RateLimiter_per_identity_def RateLimiter_per_identity_in_def)

lemma RateLimiter_check_keeps:
  assumes "RateLimiter_check i t l = (r, l')"
  shows "rl_capacity l' = rl_capacity l" "rl_window l' = rl_window l"
    "rl_wf l \<Longrightarrow> rl_wf l'" "hm_wf (rl_buckets l) \<Longrightarrow> hm_wf (rl_buckets l')"
  using assms check_wf [of l i t]
  by (auto simp: RateLimiter_check_def Let_def hm_wf_insert split: if_splits)

lemma store_wf_ops:
  assumes "store_wf s"
  shows "store_wf (snd (RelayStore_store t k v ttl s))" "store_wf (snd (RelayStore_pickup t k s))"
  using assms store_wf_step [of s "StoreOp t k v ttl"] store_wf_step [of s "PickupOp t k"] by auto

lemma ws_state_wf_rate:
  assumes "ws_state_wf limit st" "check_rate env r st = (x, st')"
  shows "ws_state_wf limit st'"
proof -
  obtain y l where l: "RateLimiter_check (str_bytes r) (from_secs (env_unix_secs env)) (ws_rate_limiter st) = (y, l)"
    by fastforce
  then have "st' = st\<lparr>ws_rate_limiter := l\<rparr>"
    using assms(2) by (auto simp: check_rate_def Let_def split: sum.splits)
  then show ?thesis using assms(1) RateLimiter_check_keeps [OF l] by (simp add: ws_state_wf_def challenges_wf_def)
qed

lemma check_pow_state:
  assumes "check_pow sha256 env r c p st = (x, st')"
  shows "st' = st \<or> st' = st\<lparr>ws_challenges := hm_remove c (ws_challenges st)\<rparr>"
  using assms by (auto simp: check_pow_def verify_pow_def Let_def
      split: prod.splits sum.splits option.splits run.splits)

lemma ws_state_wf_pow:
  assumes "ws_state_wf limit st" "check_pow sha256 env r c p st = (x, st')"
  shows "ws_state_wf limit st'"
  using check_pow_state [OF assms(2)] assms(1)
  by (auto simp: ws_state_wf_def hm_wf_remove challenges_wf_def set_hm_remove)

lemma snd_after_check: "snd (after_check req t p) = snd p"
  by (auto simp: after_check_def split: prod.splits run.splits option.splits)

lemma ws_state_wf_step:
  assumes "task_step sha256 env t st = (t', st')" "ws_state_wf limit st"
  shows "ws_state_wf limit st'"
proof -
  have w: "snd (task_step sha256 env t st) = st'" using assms(1) by simp
  note pow = ws_state_wf_pow [OF assms(2) prod.collapse [symmetric]]
  note rate = ws_state_wf_rate [OF assms(2) prod.collapse [symmetric]]
  note store = store_wf_ops [of "ws_store st"] store_wf_ops [of "ws_prekeys st"]
  show ?thesis
  proof (cases "(sha256, env, t, st)" rule: task_step.cases)
    case (1 _ _ req _)
    then show ?thesis using w rate [of env "req_recipient req"] by (simp add: snd_after_check)
  next
    case (2 _ _ r _)
    then show ?thesis using assms challenges_wf_step [OF assms(1)]
      by (auto simp: ws_state_wf_def finish_def issue_challenge_def challenge_new_ok Let_def hm_wf_insert)
  next
    case (5 _ _ r b c p _)
    then show ?thesis using w pow [of sha256 env r c p] by (simp add: snd_after_check)
  next
    case (6 _ _ r b c p _)
    then show ?thesis using w pow [of sha256 env r c p] by (simp add: snd_after_check)
  qed (use w assms(2) store in \<open>auto simp: ws_state_wf_def finish_def fetch_prekey_def fetch_envelope_def
      store_prekey_def store_envelope_def challenges_wf_def case_prod_beta Let_def
      split: sum.splits\<close>)
qed

lemma ws_state_wf_pool: "pool_step sha256 p q \<Longrightarrow> ws_state_wf limit (fst p) \<Longrightarrow> ws_state_wf limit (fst q)"
  by (induction rule: pool_step.induct) (auto dest: ws_state_wf_step)

lemma Listener_new_matches: "pool_matches (Listener_new limit) (WsState_new limit, [])"
  by (simp add: pool_matches_def Listener_new_def listener_tasks_def)

section \<open>A connection on its own\<close>

text \<open>
  The events of one connection that is not interleaved with others: each frame is read and, if it
  carried a request, the request is resumed until it is complete (at most three locks; resuming a
  connection that serves nothing does nothing).
\<close>

definition frame_events :: "WsEnv \<times> ws_message \<times> bool \<Rightarrow> conn_event list" where
  "frame_events f = (case f of (env, msg, sent) \<Rightarrow> Next_Frame msg sent # replicate 3 (Resume env sent))"

definition conn_run ::
  "(bytes \<Rightarrow> bytes) \<Rightarrow> (string \<Rightarrow> string + WsRequest) \<Rightarrow> (WsResponse \<Rightarrow> string) \<Rightarrow>
   conn_event list \<Rightarrow> Conn \<times> WsState \<Rightarrow> Conn \<times> WsState" where
  "conn_run sha256 from_str to_string evs = fold (conn_step sha256 from_str to_string) evs"

lemma conn_run_append:
  "conn_run sha256 fs ts (xs @ ys) p = conn_run sha256 fs ts ys (conn_run sha256 fs ts xs p)"
  by (simp add: conn_run_def)

lemma conn_run_ended: "conn_phase c = Ended \<Longrightarrow> conn_run sha256 fs ts evs (c, st) = (c, st)"
  by (induction evs) (simp_all add: conn_run_def)

lemma conn_run_no_request:
  "conn_phase c = Waiting \<or> conn_phase c = Ended \<Longrightarrow>
   conn_run sha256 fs ts (replicate n (Resume env sent)) (c, st) = (c, st)"
  by (induction n) (auto simp: conn_run_def)

fun is_done :: "ws_task \<Rightarrow> bool" where
  "is_done (Done req proved resp) = True"
| "is_done _ = False"

lemma resume_step:
  "conn_step sha256 fs ts (Resume env sent) (c\<lparr>conn_phase := Serving t\<rparr>, st) =
     (on_progress ts sent (fst (task_run sha256 env (t, st))) (c\<lparr>conn_phase := Serving t\<rparr>),
      snd (task_run sha256 env (t, st)))"
  by (simp add: task_run_def case_prod_beta)

lemma progress_pending: "\<not> is_done t \<Longrightarrow> on_progress ts sent t (c\<lparr>conn_phase := x\<rparr>) = c\<lparr>conn_phase := Serving t\<rparr>"
  by (cases t) (simp_all add: on_progress_def)

lemma progress_phase: "is_done t \<Longrightarrow> on_progress ts sent t (c\<lparr>conn_phase := x\<rparr>) = on_progress ts sent t (c\<lparr>conn_phase := y\<rparr>)"
  by (cases t) (auto simp: on_progress_def Let_def reply_def split: run.splits)

lemma progress_settled:
  "is_done t \<Longrightarrow> conn_phase (on_progress ts sent t c) = Waiting \<or> conn_phase (on_progress ts sent t c) = Ended"
  by (cases t) (auto simp: on_progress_def Let_def reply_def split: run.splits)

lemma task_run_done: "is_done (fst p) \<Longrightarrow> task_run sha256 env p = p"
  by (cases p; cases "fst p") (auto simp: task_run_def)

text \<open>Resuming often enough completes a request, whatever number of locks it takes.\<close>

lemma resume_until_done:
  assumes "is_done (fst ((task_run sha256 env ^^ n) (t, st)))" "\<not> is_done t"
  shows "conn_run sha256 fs ts (replicate n (Resume env sent)) (c\<lparr>conn_phase := Serving t\<rparr>, st) =
    (on_progress ts sent (fst ((task_run sha256 env ^^ n) (t, st))) (c\<lparr>conn_phase := Waiting\<rparr>),
     snd ((task_run sha256 env ^^ n) (t, st)))"
  using assms
proof (induction n arbitrary: t st)
  case (Suc n)
  obtain t' st' where t': "task_run sha256 env (t, st) = (t', st')" by fastforce
  have n: "(task_run sha256 env ^^ Suc n) (t, st) = (task_run sha256 env ^^ n) (t', st')"
    using t' by (simp add: funpow_swap1)
  have first: "conn_run sha256 fs ts (replicate (Suc n) (Resume env sent)) (c\<lparr>conn_phase := Serving t\<rparr>, st) =
    conn_run sha256 fs ts (replicate n (Resume env sent)) (on_progress ts sent t' (c\<lparr>conn_phase := Serving t\<rparr>), st')"
    using t' resume_step [where t = t and c = c and env = env] by (simp add: conn_run_def del: conn_step.simps)
  show ?case
  proof (cases "is_done t'")
    case True
    have "(task_run sha256 env ^^ n) (t', st') = (t', st')"
      using True by (induction n) (simp_all add: task_run_done)
    then show ?thesis
      unfolding first n
      using True conn_run_no_request progress_settled progress_phase by (metis fst_conv snd_conv)
  next
    case False
    then show ?thesis using Suc unfolding first n by (simp add: progress_pending)
  qed
qed simp

lemma serve_request:
  "conn_run sha256 fs ts (replicate 3 (Resume env sent)) (c\<lparr>conn_phase := Serving (Fresh req)\<rparr>, st) =
     (case handle_request sha256 env req st of
        (resp, st') \<Rightarrow> (\<lambda>t. (on_progress ts sent t (c\<lparr>conn_phase := Waiting\<rparr>), st'))
          (fst ((task_run sha256 env ^^ 3) (Fresh req, st)))) \<and>
   (\<exists>proved. (task_run sha256 env ^^ 3) (Fresh req, st) =
      (Done req proved (fst (handle_request sha256 env req st)), snd (handle_request sha256 env req st)))"
proof -
  obtain proved where p: "(task_run sha256 env ^^ 3) (Fresh req, st) =
      (Done req proved (fst (handle_request sha256 env req st)), snd (handle_request sha256 env req st))"
    using task_run_handle_request [of sha256 env req st] by (auto simp: numeral_eq_Suc)
  then show ?thesis
    using resume_until_done [where n = 3 and t = "Fresh req" and c = c] by (simp add: case_prod_beta)
qed

definition same_outcome :: "string list \<Rightarrow> string list run \<times> WsState \<Rightarrow> Conn \<times> WsState \<Rightarrow> bool" where
  "same_outcome before p q \<longleftrightarrow>
     snd q = snd p \<and>
     (case fst p of
        Panic \<Rightarrow> conn_phase (fst q) = Ended
      | Return outs \<Rightarrow> conn_written (fst q) = before @ outs)"

lemma same_outcome_prepend:
  "same_outcome (before @ out) p q \<Longrightarrow>
   same_outcome before (case p of (Panic, st) \<Rightarrow> (Panic, st) | (Return outs, st) \<Rightarrow> (Return (out @ outs), st)) q"
  by (auto simp: same_outcome_def split: prod.splits run.splits)

lemma one_frame:
  "conn_run sha256 fs ts (frame_events (env, msg, sent)) (c\<lparr>conn_phase := Waiting\<rparr>, st) =
     (case msg of
        Text text \<Rightarrow>
          (case fs text of
             Inl e \<Rightarrow> (reply ts sent (WsResponse_err (''MalformedRequest: '' @ e)) (c\<lparr>conn_phase := Waiting\<rparr>), st)
           | Inr req \<Rightarrow>
               (on_progress ts sent (fst ((task_run sha256 env ^^ 3) (Fresh req, st))) (c\<lparr>conn_phase := Waiting\<rparr>),
                snd (handle_request sha256 env req st)))
      | Binary _ \<Rightarrow> (reply ts sent (WsResponse_err ''BinaryFramesNotAllowed'') (c\<lparr>conn_phase := Waiting\<rparr>), st)
      | Ping_Pong \<Rightarrow> (c\<lparr>conn_phase := Waiting\<rparr>, st)
      | _ \<Rightarrow> (c\<lparr>conn_phase := Ended\<rparr>, st))"
proof -
  let ?r = "replicate 3 (Resume env sent)"
  have "conn_run sha256 fs ts (frame_events (env, msg, sent)) (c\<lparr>conn_phase := Waiting\<rparr>, st) =
      conn_run sha256 fs ts ?r (on_frame fs ts msg sent (c\<lparr>conn_phase := Waiting\<rparr>), st)"
    by (simp add: conn_run_def frame_events_def)
  moreover have "conn_run sha256 fs ts ?r (reply ts sent resp (c\<lparr>conn_phase := Waiting\<rparr>), st) =
      (reply ts sent resp (c\<lparr>conn_phase := Waiting\<rparr>), st)" for resp
    by (rule conn_run_no_request) (simp add: reply_def)
  moreover have "conn_run sha256 fs ts ?r (c\<lparr>conn_phase := Waiting\<rparr>, st) = (c\<lparr>conn_phase := Waiting\<rparr>, st)"
    by (rule conn_run_no_request) simp
  ultimately show ?thesis
    using serve_request [of sha256 fs ts env sent _ c st]
    by (auto simp: on_frame_def conn_run_ended case_prod_beta split: ws_message.splits sum.splits)
qed

lemma conn_run_outcome:
  "same_outcome (conn_written c) (handle_connection sha256 fs ts frames st)
     (conn_run sha256 fs ts (concat (map frame_events frames)) (c\<lparr>conn_phase := Waiting\<rparr>, st))"
proof (induction frames arbitrary: c st)
  case Nil
  then show ?case by (simp add: same_outcome_def conn_run_def)
next
  case (Cons f frames)
  obtain env msg sent where f: "f = (env, msg, sent)" by (cases f) auto
  let ?more = "\<lambda>c st. conn_run sha256 fs ts (concat (map frame_events frames)) (c, st)"
  have run: "conn_run sha256 fs ts (concat (map frame_events ((env, msg, sent) # frames))) (c\<lparr>conn_phase := Waiting\<rparr>, st) =
      (case conn_run sha256 fs ts (frame_events (env, msg, sent)) (c\<lparr>conn_phase := Waiting\<rparr>, st) of (c', st') \<Rightarrow> ?more c' st')"
    by (simp add: conn_run_append case_prod_beta)
  have go: "same_outcome (conn_written c)
      (case handle_connection sha256 fs ts frames st' of (Panic, st) \<Rightarrow> (Panic, st) | (Return outs, st) \<Rightarrow> (Return (out @ outs), st))
      (?more c' st')"
    if "conn_phase c' = Waiting" "conn_written c' = conn_written c @ out" for c' st' out
  proof -
    have "c' = c'\<lparr>conn_phase := Waiting\<rparr>" using that(1) by (cases c') simp
    then show ?thesis using same_outcome_prepend [OF Cons.IH [of c' st', unfolded that(2)]] by argo
  qed
  have ended: "same_outcome (conn_written c) (Return [], st') (?more c' st')" "same_outcome (conn_written c) (Panic, st') (?more c' st')"
    if "conn_phase c' = Ended" "conn_written c' = conn_written c" for c' st'
    using that by (simp_all add: same_outcome_def conn_run_ended)
  show ?case
  proof (cases msg)
    case (Text s)
    show ?thesis
    proof (cases "fs s")
      case (Inl e)
      then show ?thesis unfolding f run one_frame using Text
        by (cases sent; simp add: reply_def; intro go; simp)
    next
      case (Inr req)
      obtain proved where h: "fst ((task_run sha256 env ^^ 3) (Fresh req, st)) = Done req proved (fst (handle_request sha256 env req st))"
        using serve_request [of sha256 fs ts env sent req c st] by auto
      obtain resp st' where hr: "handle_request sha256 env req st = (resp, st')" by fastforce
      show ?thesis unfolding f run one_frame using Text Inr hr h
        by (cases resp; cases sent; simp add: on_progress_def reply_def Let_def; intro go ended; simp)
    qed
  next
    case (Binary bs)
    then show ?thesis unfolding f run one_frame
      by (cases sent; simp add: reply_def; intro go; simp)
  next
    case Ping_Pong
    then show ?thesis unfolding f run one_frame by (simp; intro go; simp)
  qed (unfold f run one_frame, simp_all add: ended)
qed

section \<open>The frames of a connection in closed form\<close>

text \<open>
  What a frame means: the request it carries, if any; what handling that request gives; the
  response the frame is due; whether a reply to it is written; and whether it is the last.
\<close>

type_synonym frame_in = "WsEnv \<times> ws_message \<times> bool"

definition request_of :: "(string \<Rightarrow> string + WsRequest) \<Rightarrow> frame_in \<Rightarrow> WsRequest option" where
  "request_of from_str f =
     (case f of (_, Text text, _) \<Rightarrow> (case from_str text of Inl _ \<Rightarrow> None | Inr req \<Rightarrow> Some req) | _ \<Rightarrow> None)"

definition handler_run ::
  "(bytes \<Rightarrow> bytes) \<Rightarrow> (string \<Rightarrow> string + WsRequest) \<Rightarrow> frame_in \<Rightarrow> WsState \<Rightarrow> (WsResponse run \<times> WsState) option" where
  "handler_run sha256 from_str f st =
     map_option (\<lambda>req. handle_request sha256 (fst f) req st) (request_of from_str f)"

definition answer_to :: "(bytes \<Rightarrow> bytes) \<Rightarrow> (string \<Rightarrow> string + WsRequest) \<Rightarrow> frame_in \<Rightarrow> WsState \<Rightarrow> WsResponse" where
  "answer_to sha256 from_str f st =
     (case handler_run sha256 from_str f st of
        Some (Return resp, _) \<Rightarrow> resp
      | _ \<Rightarrow> (case f of
               (_, Text text, _) \<Rightarrow> WsResponse_err (''MalformedRequest: '' @ projl (from_str text))
             | _ \<Rightarrow> WsResponse_err ''BinaryFramesNotAllowed''))"

definition gets_reply :: "frame_in \<Rightarrow> bool" where
  "gets_reply f = (case f of (_, Text _, sent) \<Rightarrow> sent | (_, Binary _, sent) \<Rightarrow> sent | _ \<Rightarrow> False)"

definition ends_connection :: "(string \<Rightarrow> string + WsRequest) \<Rightarrow> frame_in \<Rightarrow> bool" where
  "ends_connection from_str f =
     (case f of (_, Close, _) \<Rightarrow> True | (_, Stream_Error _, _) \<Rightarrow> True
      | (_, _, sent) \<Rightarrow> \<not> sent \<and> request_of from_str f \<noteq> None)"

definition state_after ::
  "(bytes \<Rightarrow> bytes) \<Rightarrow> (string \<Rightarrow> string + WsRequest) \<Rightarrow> frame_in list \<Rightarrow> WsState \<Rightarrow> WsState" where
  "state_after sha256 from_str fs st =
     fold (\<lambda>f st. case handler_run sha256 from_str f st of None \<Rightarrow> st | Some (_, st') \<Rightarrow> st') fs st"

lemma state_after_Cons [simp]:
  "state_after sha256 from_str (f # fs) st =
     state_after sha256 from_str fs (case handler_run sha256 from_str f st of None \<Rightarrow> st | Some (_, st') \<Rightarrow> st')"
  "state_after sha256 from_str [] st = st"
  by (simp_all add: state_after_def)

definition closed_form ::
  "(bytes \<Rightarrow> bytes) \<Rightarrow> (string \<Rightarrow> string + WsRequest) \<Rightarrow> (WsResponse \<Rightarrow> string) \<Rightarrow> frame_in list \<Rightarrow> WsState \<Rightarrow>
   string list run \<times> WsState \<Rightarrow> bool" where
  "closed_form sha256 from_str to_string frames st p \<longleftrightarrow>
     (let live = takeWhile (\<lambda>f. \<not> ends_connection from_str f) frames in
      case p of
        (Return outs, st') \<Rightarrow>
          outs = map (\<lambda>i. to_string (answer_to sha256 from_str (frames ! i) (state_after sha256 from_str (take i frames) st)))
              (filter (\<lambda>i. gets_reply (frames ! i)) [0..<length live]) \<and>
          st' = state_after sha256 from_str (take (Suc (length live)) frames) st
      | (Panic, st') \<Rightarrow>
          \<exists>i \<le> length live. i < length frames \<and>
            handler_run sha256 from_str (frames ! i) (state_after sha256 from_str (take i frames) st) = Some (Panic, st'))"

text \<open>A frame that does not end the connection and does not panic is followed by the rest.\<close>

lemma closed_form_step:
  assumes "closed_form sha256 from_str to_string frames st' p" "\<not> ends_connection from_str f"
    and "st' = (case handler_run sha256 from_str f st of None \<Rightarrow> st | Some (_, st') \<Rightarrow> st')"
    and "out = (if gets_reply f then [to_string (answer_to sha256 from_str f st)] else [])"
  shows "closed_form sha256 from_str to_string (f # frames) st
    (case p of (Panic, st) \<Rightarrow> (Panic, st) | (Return outs, st) \<Rightarrow> (Return (out @ outs), st))"
proof -
  let ?live = "takeWhile (\<lambda>f. \<not> ends_connection from_str f) frames"
  obtain r s where p: "p = (r, s)" by (cases p)
  have idx: "[0..<Suc n] = 0 # map Suc [0..<n]" for n by (simp add: upt_conv_Cons map_Suc_upt del: upt_Suc)
  show ?thesis
  proof (cases r)
    case Panic
    then obtain i where "i \<le> length ?live" "i < length frames"
      "handler_run sha256 from_str (frames ! i) (state_after sha256 from_str (take i frames) st') = Some (Panic, s)"
      using assms(1) by (auto simp: closed_form_def p Let_def)
    then show ?thesis using assms(2,3) Panic p
      by (auto simp: closed_form_def Let_def intro!: exI [of _ "Suc i"])
  next
    case (Return outs)
    then show ?thesis using assms p
      by (auto simp: closed_form_def Let_def idx filter_map comp_def simp del: upt_Suc)
  qed
qed

lemma closed_form_last:
  assumes "ends_connection from_str f"
  shows "case handler_run sha256 from_str f st of
      None \<Rightarrow> closed_form sha256 from_str to_string (f # frames) st (Return [], st)
    | Some (Panic, st') \<Rightarrow> closed_form sha256 from_str to_string (f # frames) st (Panic, st')
    | Some (Return _, st') \<Rightarrow> closed_form sha256 from_str to_string (f # frames) st (Return [], st')"
  using assms by (auto simp: closed_form_def Let_def split: option.splits prod.splits run.splits)

lemma closed_form_panic:
  assumes "handler_run sha256 from_str f st = Some (Panic, st')"
  shows "closed_form sha256 from_str to_string (f # frames) st (Panic, st')"
  using assms by (auto simp: closed_form_def Let_def intro!: exI [of _ 0])

lemmas frame_defs = request_of_def handler_run_def answer_to_def gets_reply_def ends_connection_def

lemma connection_closed_form:
  "closed_form sha256 from_str to_string frames st (handle_connection sha256 from_str to_string frames st)"
proof (induction frames arbitrary: st)
  case Nil
  then show ?case by (simp add: closed_form_def)
next
  case (Cons f frames)
  obtain env msg sent where f: "f = (env, msg, sent)" by (cases f) auto
  note step = closed_form_step [OF Cons.IH, where f = f and st = st]
  note last = closed_form_last [of from_str f sha256 to_string frames st]
  show ?case
  proof (cases "request_of from_str f")
    case None
    show ?thesis
    proof (cases "ends_connection from_str f")
      case True
      then show ?thesis using last None
        by (cases msg) (auto simp: f frame_defs split: sum.splits)
    next
      case False
      obtain r st' where h: "handle_connection sha256 from_str to_string frames st = (r, st')" by fastforce
      show ?thesis
        using step [OF False refl refl] None False
        by (cases msg; cases sent; cases r) (auto simp: f h frame_defs split: sum.splits)
    qed
  next
    case (Some req)
    then obtain tx where tx: "msg = Text tx" "from_str tx = Inr req"
      by (auto simp: f request_of_def split: ws_message.splits sum.splits)
    obtain r st' where h: "handle_request sha256 env req st = (r, st')" by fastforce
    show ?thesis
    proof (cases r)
      case Panic
      then show ?thesis
        using closed_form_panic [of sha256 from_str f st st' to_string frames] tx h by (simp add: f frame_defs)
    next
      case (Return resp)
      show ?thesis
      proof (cases sent)
        case True
        have "\<not> ends_connection from_str f" using True tx by (simp add: f frame_defs)
        from step [OF this refl refl] show ?thesis using tx h Return True
          by (cases "handle_connection sha256 from_str to_string frames st'"; cases "fst (handle_connection sha256 from_str to_string frames st')")
            (simp_all add: f frame_defs)
      next
        case False
        then have "ends_connection from_str f" using tx by (simp add: f frame_defs)
        from last [OF this] show ?thesis using tx h Return False by (simp add: f frame_defs)
      qed
    qed
  qed
qed

section \<open>A concrete listener\<close>

lemma listening_step:
  "listening sha256 fs ts limit L \<Longrightarrow> listener_step sha256 fs ts L L' \<Longrightarrow> listening sha256 fs ts limit L'"
  unfolding listening_def by (rule rtranclp.rtrancl_into_rtrancl)

lemma listening_deliver_all:
  assumes "listening sha256 fs ts limit L" "i < length (ln_conns L)"
    and "conn_run sha256 fs ts evs (ln_conns L ! i, ln_state L) = (c, st)"
  shows "listening sha256 fs ts limit (L\<lparr>ln_conns := (ln_conns L)[i := c], ln_state := st\<rparr>)"
  using assms
proof (induction evs arbitrary: L)
  case Nil
  then have "L\<lparr>ln_conns := (ln_conns L)[i := c], ln_state := st\<rparr> = L" by (cases L) (auto simp: conn_run_def)
  then show ?case using Nil.prems(1) by simp
next
  case (Cons ev evs)
  obtain c1 st1 where s: "conn_step sha256 fs ts ev (ln_conns L ! i, ln_state L) = (c1, st1)" by fastforce
  let ?L = "L\<lparr>ln_conns := (ln_conns L)[i := c1], ln_state := st1\<rparr>"
  have "?L = Listener_deliver sha256 fs ts i ev L"
    using s Cons.prems(2) by (simp add: Listener_deliver_def del: conn_step.simps)
  then have "listening sha256 fs ts limit ?L" using Cons.prems(1) listening_step listener_step.deliver by metis
  moreover have "conn_run sha256 fs ts evs (c1, st1) = (c, st)"
    using Cons.prems(3) s by (simp add: conn_run_def del: conn_step.simps)
  ultimately show ?case using Cons.IH [of ?L] Cons.prems(2) by simp
qed

text \<open>What \<open>handle_connection\<close> does to the state, a freshly started listener can do.\<close>

lemma listening_connection:
  assumes "handle_connection sha256 fs ts frames (WsState_new limit) = (r, st)"
  shows "\<exists>L. listening sha256 fs ts limit L \<and> ln_state L = st"
proof -
  let ?L = "Listener_accept (Inr () :: string + unit) (Listener_new limit)"
  have conns: "ln_conns ?L = [Conn_accepted]" "ln_state ?L = WsState_new limit"
    by (simp_all add: Listener_accept_def Listener_new_def)
  have "listening sha256 fs ts limit (Listener_new limit)" by (simp add: listening_def)
  then have L: "listening sha256 fs ts limit ?L" using listening_step listener_step.accept_next by metis
  let ?evs = "Handshake_Result True # concat (map frame_events frames)"
  have run: "conn_run sha256 fs ts ?evs (Conn_accepted, WsState_new limit) =
      conn_run sha256 fs ts (concat (map frame_events frames)) (Conn_accepted\<lparr>conn_phase := Waiting\<rparr>, WsState_new limit)"
    by (simp add: conn_run_def Conn_accepted_def)
  obtain c st' where c: "conn_run sha256 fs ts ?evs (Conn_accepted, WsState_new limit) = (c, st')" by fastforce
  have "st' = st" using conn_run_outcome [of Conn_accepted sha256 fs ts frames "WsState_new limit"] assms c
    unfolding run by (simp add: same_outcome_def)
  then show ?thesis using listening_deliver_all [OF L, of 0 ?evs c st] c conns by auto
qed

lemma listener_pool:
  assumes "listening sha256 from_str to_string limit L"
  obtains ts where "served sha256 limit (ln_state L, ts)"
    "mset ts = mset (listener_tasks L)" "\<forall>Q. length (filter Q ts) = length (filter Q (listener_tasks L))"
proof -
  obtain ts where ts: "served sha256 limit (ln_state L, ts)" "mset ts = mset (listener_tasks L)"
    using listener.follow_run [OF assms [unfolded listening_def] Listener_new_matches]
    by (auto simp: served_def pool_matches_def)
  moreover have "length (filter Q ts) = length (filter Q (listener_tasks L))" for Q
    using ts(2) by (metis mset_filter size_mset)
  ultimately show ?thesis using that by blast
qed

definition demo_frames :: "string \<Rightarrow> string + WsRequest" where
  "demo_frames s = (if s = ''challenge'' then Inr (ReqChallenge ''bob'')
     else if s = ''send'' then Inr demo_send else Inl ''unknown'')"

lemma demo_listening: "\<exists>L. listening demo_sha demo_frames resp_error 10 L \<and> ln_state L = demo_sent"
  by (rule listening_connection [where frames = "[(demo_env, Text ''challenge'', True), (demo_env, Text ''send'', True)]"])
    (simp add: demo_frames_def demo_challenge demo_handled)

section \<open>Properties\<close>

text \<open>
  C3: The accept loop with any number of connections is a refinement of the pool of requests: in
  every state the listener can reach, under every interleaving of its connections' awaits, with
  refused frames, failed handshakes, failed replies and panics, the shared state is one the pool
  serves with exactly the requests of the connections. So over all connections together the
  proofs of work accepted and the challenges open never outnumber the challenges issued.
\<close>

theorem listener_refines_pool:
  assumes "listening sha256 from_str to_string limit L"
  shows "(\<exists>ts. served sha256 limit (ln_state L, ts) \<and> mset ts = mset (listener_tasks L)) \<and>
    length (filter accepted (listener_tasks L)) + length (ws_challenges (ln_state L))
      \<le> length (filter issued (listener_tasks L))"
proof -
  obtain ts where ts: "served sha256 limit (ln_state L, ts)" "mset ts = mset (listener_tasks L)"
    "\<forall>Q. length (filter Q ts) = length (filter Q (listener_tasks L))"
    using listener_pool [OF assms] by metis
  then show ?thesis using challenges.balance [OF ts(1)] by auto
qed

theorem listener_refines_pool_witness:
  "\<exists>L ts. listening demo_sha demo_frames resp_error 10 L \<and> ln_state L = demo_sent \<and>
     served demo_sha 10 (demo_sent, ts) \<and> mset ts = mset (listener_tasks L)"
proof -
  obtain L where "listening demo_sha demo_frames resp_error 10 L" "ln_state L = demo_sent"
    using demo_listening by blast
  then show ?thesis using listener_refines_pool [of demo_sha demo_frames resp_error 10 L] by auto
qed

text \<open>
  C8: In every state the listener can reach the shared state is well-formed: one entry per key in
  each of its maps, a capacity of at least one equal to what was configured, no bucket above it, a
  window of one minute, and every open challenge filed under the hexadecimal form of its own nonce
  with the context and difficulty of the bridge.
\<close>

theorem listener_state_well_formed:
  assumes "listening sha256 from_str to_string limit L"
  shows "ws_state_wf limit (ln_state L)"
proof -
  have "\<exists>p. ws_state_wf limit (fst p) \<and> pool_matches L p"
    using ws_state_wf_pool ws_state_wf_new assms Listener_new_matches
    by (intro listener.invariant_along [of sha256 _ "(WsState_new limit, [])" from_str to_string "Listener_new limit"])
      (auto simp: listening_def)
  then show ?thesis by (auto simp: pool_matches_def)
qed

theorem listener_state_well_formed_witness:
  "\<exists>L. listening demo_sha demo_frames resp_error 10 L \<and> ln_state L = demo_sent \<and> ws_state_wf 10 demo_sent"
  using demo_listening listener_state_well_formed by metis

text \<open>
  C9: The frames of a connection, in closed form. The connection is served up to the first frame that
  ends it: a close, a broken stream, or a request whose reply cannot be written; of what comes
  after that frame nothing has any effect. Every text or binary frame before it gets exactly one
  reply if a reply can be written, in the order of the frames: a malformed request and a binary
  frame their error, which touches no state, a request the handler's response in the state its
  predecessors left, and a ping or pong none. The state left is that of handling the
  requests among these frames, and the request whose reply was lost, in order. The connection
  panics only where the handler does, on such a request. The connection of the listener, resumed lock by lock with no
  other connection in between, has written these very replies and leaves this very state.
\<close>

theorem connection_answers_each_frame_once:
  "let live = takeWhile (\<lambda>f. \<not> ends_connection from_str f) frames in
   case handle_connection sha256 from_str to_string frames st of
     (Return outs, st') \<Rightarrow>
       outs = map (\<lambda>i. to_string (answer_to sha256 from_str (frames ! i) (state_after sha256 from_str (take i frames) st)))
           (filter (\<lambda>i. gets_reply (frames ! i)) [0..<length live]) \<and>
       st' = state_after sha256 from_str (take (Suc (length live)) frames) st \<and>
       (case conn_run sha256 from_str to_string (concat (map frame_events frames)) (c\<lparr>conn_phase := Waiting\<rparr>, st) of
          (c', st'') \<Rightarrow> conn_written c' = conn_written c @ outs \<and> st'' = st')
   | (Panic, st') \<Rightarrow>
       \<exists>i \<le> length live. i < length frames \<and>
         handler_run sha256 from_str (frames ! i) (state_after sha256 from_str (take i frames) st) = Some (Panic, st') \<and>
         (case conn_run sha256 from_str to_string (concat (map frame_events frames)) (c\<lparr>conn_phase := Waiting\<rparr>, st) of
            (c', st'') \<Rightarrow> conn_phase c' = Ended \<and> st'' = st')"
  using connection_closed_form [of sha256 from_str to_string frames st] conn_run_outcome [of c sha256 from_str to_string frames st]
  by (auto simp: Let_def closed_form_def same_outcome_def split: prod.splits run.splits)

end
