(* ===== verification/Ws_Delivery.thy ===== *)
theory Ws_Delivery
  imports Ws_Listener
begin

text \<open>
  Delivery through the relay under concurrency: what the pickups and lookups of all connections
  return, against what their sends and publications have stored. Each is a \<open>ledger\<close> of the pool of
  requests, carried over to the accept loop by its refinement.
\<close>

section \<open>Storing and delivering tasks\<close>

definition stores_envelope :: "string \<Rightarrow> bytes \<Rightarrow> ws_task \<Rightarrow> bool" where
  "stores_envelope k e t =
     (case t of
        Done (SendEnvelope r txt c p) True _ \<Rightarrow> r = k \<and> b64_decode txt = Inr e
      | _ \<Rightarrow> False)"

definition delivers_envelope :: "string \<Rightarrow> bytes \<Rightarrow> ws_task \<Rightarrow> bool" where
  "delivers_envelope k e t =
     (case t of
        Done (PickupEnvelope r) _ (Return resp) \<Rightarrow> r = k \<and> resp = WsResponse_ok_envelope (b64_encode e)
      | _ \<Rightarrow> False)"

definition stores_bundle :: "string \<Rightarrow> bytes \<Rightarrow> ws_task \<Rightarrow> bool" where
  "stores_bundle k e t =
     (case t of
        Done (PublishPrekey r txt c p) True _ \<Rightarrow> r = k \<and> b64_decode txt = Inr e
      | _ \<Rightarrow> False)"

definition delivers_bundle :: "string \<Rightarrow> bytes \<Rightarrow> ws_task \<Rightarrow> bool" where
  "delivers_bundle k e t =
     (case t of
        Done (LookupPrekey r) _ (Return resp) \<Rightarrow> r = k \<and> resp = WsResponse_ok_bundle (b64_encode e)
      | _ \<Rightarrow> False)"

text \<open>Whether the content waits in a store, as a number.\<close>

definition holds :: "string \<Rightarrow> bytes \<Rightarrow> RelayStore \<Rightarrow> nat" where
  "holds k e s = (case map_of (rs_inner s) k of Some (v, _) \<Rightarrow> if v = e then 1 else 0 | None \<Rightarrow> 0)"

section \<open>Lemmas\<close>

lemmas delivery_defs = stores_envelope_def delivers_envelope_def stores_bundle_def delivers_bundle_def

lemma holds_new [simp]: "holds k e RelayStore_new = 0"
  by (simp add: holds_def RelayStore_new_def)

lemma holds_store:
  "RelayStore_store now r v ttl s = (x, s') \<Longrightarrow>
     holds k e s' = (if r = k then if v = e then 1 else 0 else holds k e s)"
  using rs.slot_put [of now r v ttl s] by (simp add: holds_def)

lemma holds_pickup:
  "RelayStore_pickup now r s = (x, s') \<Longrightarrow>
     holds k e s' + (if r = k \<and> x = Inr e then 1 else 0) \<le> holds k e s"
  using rs.slot_take [of now r s] rs.take_result [of now r s]
  by (auto simp: holds_def split: option.splits if_splits)

lemma b64_encode_inj [simp]: "b64_encode x = b64_encode y \<longleftrightarrow> x = y"
  by (metis b64_decode_encode sum.inject(2))

lemma check_rate_answer:
  assumes "check_rate env r st = (Return (Some resp), st')"
  shows "\<exists>msg. resp = WsResponse_err msg"
  using assms by (auto simp: check_rate_def Let_def log_then_def split: prod.splits sum.splits if_splits run.splits)

text \<open>The two checks move no content, and what they answer delivers none.\<close>

lemma rate_phase:
  assumes "task_step sha256 env (Fresh req) st = (t', st')"
  shows "ws_store st' = ws_store st" "ws_prekeys st' = ws_prekeys st"
    "\<not> stores_envelope k e t'" "\<not> delivers_envelope k e t'"
    "\<not> stores_bundle k e t'" "\<not> delivers_bundle k e t'"
proof -
  obtain y s where y: "check_rate env (req_recipient req) st = (y, s)" by fastforce
  have "st' = s" using assms y by (auto simp: after_check_def split: run.splits option.splits)
  then show "ws_store st' = ws_store st" "ws_prekeys st' = ws_prekeys st" using check_rate_frame [OF y] by simp_all
  have "t' = Limited req \<or> (\<exists>r. t' = Done req False r \<and> (r = Panic \<or> (\<exists>msg. r = Return (WsResponse_err msg))))"
    using assms y check_rate_answer [of env "req_recipient req" st]
    by (auto simp: after_check_def split: run.splits option.splits)
  then show "\<not> stores_envelope k e t'" "\<not> delivers_envelope k e t'"
    "\<not> stores_bundle k e t'" "\<not> delivers_bundle k e t'"
    by (cases req; auto simp: delivery_defs WsResponse_err_def WsResponse_ok_envelope_def WsResponse_ok_bundle_def)+
qed

lemma pow_phase:
  assumes "after_check req (Proved req) (check_pow sha256 env r c p st) = (t', st')"
    "req = SendEnvelope r b c p \<or> req = PublishPrekey r b c p"
  shows "ws_store st' = ws_store st" "ws_prekeys st' = ws_prekeys st"
    "\<not> stores_envelope k e t'" "\<not> delivers_envelope k e t'"
    "\<not> stores_bundle k e t'" "\<not> delivers_bundle k e t'"
proof -
  obtain y s where y: "check_pow sha256 env r c p st = (y, s)" by fastforce
  have "st' = s" using assms y by (auto simp: after_check_def split: run.splits option.splits)
  then show "ws_store st' = ws_store st" "ws_prekeys st' = ws_prekeys st" using check_pow_frame [OF y] by simp_all
  have "t' = Proved req \<or> (\<exists>r. t' = Done req False r)"
    using assms y by (auto simp: after_check_def split: run.splits option.splits)
  then show "\<not> stores_envelope k e t'" "\<not> delivers_envelope k e t'"
    "\<not> stores_bundle k e t'" "\<not> delivers_bundle k e t'"
    using assms(2) by (auto simp: delivery_defs)
qed

lemma envelope_balance:
  assumes "task_step sha256 env t st = (t', st')"
  shows "(if delivers_envelope k e t' then 1 else 0) + holds k e (ws_store st') + (if stores_envelope k e t then 1 else 0)
    \<le> (if delivers_envelope k e t then 1 else 0) + holds k e (ws_store st) + (if stores_envelope k e t' then 1 else 0 :: nat)"
proof (cases "(sha256, env, t, st)" rule: task_step.cases)
  case (1 _ _ req _)
  then have "task_step sha256 env (Fresh req) st = (t', st')" using assms by simp
  from rate_phase [OF this] 1 show ?thesis by (simp add: delivery_defs)
next
  case (4 _ _ r _)
  obtain x s where x: "RelayStore_pickup (env_instant env) r (ws_store st) = (x, s)" by fastforce
  show ?thesis
    using assms 4 x holds_pickup [OF x, of k e]
    by (auto simp: finish_def fetch_envelope_def delivery_defs WsResponse_ok_envelope_def WsResponse_err_def
        split: sum.splits StoreError.splits if_splits)
next
  case (5 _ _ r b c p _)
  then have "after_check (PublishPrekey r b c p) (Proved (PublishPrekey r b c p)) (check_pow sha256 env r c p st) = (t', st')"
    using assms by simp
  from pow_phase [OF this] 5 show ?thesis by (simp add: delivery_defs)
next
  case (6 _ _ r b c p _)
  then have "after_check (SendEnvelope r b c p) (Proved (SendEnvelope r b c p)) (check_pow sha256 env r c p st) = (t', st')"
    using assms by simp
  from pow_phase [OF this] 6 show ?thesis by (simp add: delivery_defs)
next
  case (8 _ _ r b c p _)
  then show ?thesis
    using assms
    by (auto simp: finish_def store_envelope_def delivery_defs Let_def holds_store split: prod.splits sum.splits)
qed (use assms in \<open>auto simp: finish_def fetch_prekey_def store_prekey_def issue_challenge_def challenge_new_ok
    delivery_defs Let_def split: prod.splits sum.splits\<close>)

lemma bundle_balance:
  assumes "task_step sha256 env t st = (t', st')"
  shows "(if delivers_bundle k e t' then 1 else 0) + holds (''prekey:'' @ k) e (ws_prekeys st') + (if stores_bundle k e t then 1 else 0)
    \<le> (if delivers_bundle k e t then 1 else 0) + holds (''prekey:'' @ k) e (ws_prekeys st) + (if stores_bundle k e t' then 1 else 0 :: nat)"
proof (cases "(sha256, env, t, st)" rule: task_step.cases)
  case (1 _ _ req _)
  then have "task_step sha256 env (Fresh req) st = (t', st')" using assms by simp
  from rate_phase [OF this] 1 show ?thesis by (simp add: delivery_defs)
next
  case (3 _ _ r _)
  obtain x s where x: "RelayStore_pickup (env_instant env) (''prekey:'' @ r) (ws_prekeys st) = (x, s)" by fastforce
  show ?thesis
    using assms 3 x holds_pickup [OF x, of "''prekey:'' @ k" e]
    by (auto simp: finish_def fetch_prekey_def delivery_defs WsResponse_ok_bundle_def WsResponse_err_def
        split: sum.splits StoreError.splits if_splits)
next
  case (5 _ _ r b c p _)
  then have "after_check (PublishPrekey r b c p) (Proved (PublishPrekey r b c p)) (check_pow sha256 env r c p st) = (t', st')"
    using assms by simp
  from pow_phase [OF this] 5 show ?thesis by (simp add: delivery_defs)
next
  case (6 _ _ r b c p _)
  then have "after_check (SendEnvelope r b c p) (Proved (SendEnvelope r b c p)) (check_pow sha256 env r c p st) = (t', st')"
    using assms by simp
  from pow_phase [OF this] 6 show ?thesis by (simp add: delivery_defs)
next
  case (7 _ _ r b c p _)
  then show ?thesis
    using assms
    by (auto simp: finish_def store_prekey_def delivery_defs Let_def holds_store split: prod.splits sum.splits)
qed (use assms in \<open>auto simp: finish_def fetch_envelope_def store_envelope_def issue_challenge_def challenge_new_ok
    delivery_defs Let_def split: prod.splits sum.splits\<close>)

interpretation envelopes: ledger "delivers_envelope k e" "stores_envelope k e" "\<lambda>st. holds k e (ws_store st)" for k e
  by unfold_locales (simp add: delivery_defs, simp add: WsState_new_def, rule envelope_balance)

interpretation bundles: ledger "delivers_bundle k e" "stores_bundle k e" "\<lambda>st. holds (''prekey:'' @ k) e (ws_prekeys st)" for k e
  by unfold_locales (simp add: delivery_defs, simp add: WsState_new_def, rule bundle_balance)

section \<open>Properties\<close>

text \<open>
  C31: At-most-once delivery over all connections: in every state the listener can reach, under every
  interleaving, the pickups that returned an envelope \<open>e\<close> for a recipient, together with the copy
  still waiting, are no more than the sends of \<open>e\<close> to that recipient that passed their proof of work and
  were stored; so nothing is delivered twice, invented or given to another recipient. The same holds
  of lookups against publications: one publication answers at most one lookup.
\<close>

theorem listener_delivers_at_most_once:
  assumes "listening sha256 from_str to_string limit L"
  shows "length (filter (delivers_envelope k e) (listener_tasks L)) + holds k e (ws_store (ln_state L))
      \<le> length (filter (stores_envelope k e) (listener_tasks L)) \<and>
    length (filter (delivers_bundle k e) (listener_tasks L)) + holds (''prekey:'' @ k) e (ws_prekeys (ln_state L))
      \<le> length (filter (stores_bundle k e) (listener_tasks L))"
proof -
  obtain ts where ts: "served sha256 limit (ln_state L, ts)"
    "\<forall>Q. length (filter Q ts) = length (filter Q (listener_tasks L))"
    using listener_pool [OF assms] by metis
  then show ?thesis using envelopes.balance [OF ts(1), of k e] bundles.balance [OF ts(1), of k e] by simp
qed

theorem listener_delivers_at_most_once_witness:
  "\<exists>L. listening demo_sha demo_frames resp_error 10 L \<and> ln_state L = demo_sent \<and>
     (\<exists>t \<in> set (listener_tasks L). stores_envelope ''bob'' [7] t)"
proof -
  obtain L where L: "listening demo_sha demo_frames resp_error 10 L" "ln_state L = demo_sent"
    using demo_listening by blast
  have "holds ''bob'' [7] (ws_store demo_sent) = 1" by (simp add: holds_def demo_sent_def)
  then have "filter (stores_envelope ''bob'' [7]) (listener_tasks L) \<noteq> []"
    using listener_delivers_at_most_once [OF L(1), of "''bob''" "[7]"] L(2) by auto
  then show ?thesis using L by (auto simp: filter_empty_conv)
qed

end
