(* ===== verification/Relay_Node.thy ===== *)
theory Relay_Node
  imports Ws_Listener
begin

text \<open>
  The relay process: the command line and its defaults (\<open>relay/src/main.rs\<close>), the swarm, the
  startup sequence with the optional WebSocket bridge, the event loop (\<open>relay/src/lib.rs\<close>), the
  entry points of the bridge's listener (\<open>relay/src/ws.rs\<close>) and the harness that serves the
  integration tests (\<open>relay/src/bin/ws_test_harness.rs\<close>). libp2p, the sockets of tokio and the
  parsers of addresses are the record \<open>node_lib\<close>. What the process does to the outside is
  recorded as a list of effects in the order the code performs them.
\<close>

section \<open>Libraries\<close>

text \<open>
  \<open>with_tcp\<close> and \<open>with_behaviour\<close> are the two fallible calls of the swarm builder; the closure given
  to the latter receives the keypair of the builder.
\<close>

record ('kp, 'pid, 'ma, 'sa, 'rb, 'pb) node_lib =
  nl_peer_id :: "'kp \<Rightarrow> 'pid"
  nl_relay_new :: "'pid \<Rightarrow> 'rb"
  nl_ping_default :: "'pb"
  nl_parse_multiaddr :: "string \<Rightarrow> 'ma option"
  nl_parse_socket :: "string \<Rightarrow> 'sa option"
  nl_parse_u32 :: "string \<Rightarrow> u32 option"
  nl_show_peer :: "'pid \<Rightarrow> string"
  nl_show_addr :: "'ma \<Rightarrow> string"
  nl_show_socket :: "'sa \<Rightarrow> string"

record ('rb, 'pb) RelayBehaviour =
  rb_relay :: 'rb
  rb_ping :: 'pb

record ('kp, 'bd, 'sw, 'ma, 'sa, 'ln, 'rb, 'pb, 'e) node_os =
  os_with_tcp :: "'kp \<Rightarrow> 'e + 'bd"
  os_with_behaviour :: "'bd \<Rightarrow> ('rb, 'pb) RelayBehaviour \<Rightarrow> 'e + 'sw"
  os_listen_on :: "'ma \<Rightarrow> 'sw \<Rightarrow> 'e + 'sw"
  os_bind :: "'sa \<Rightarrow> 'e + 'ln"
  os_local_addr :: "'ln \<Rightarrow> 'e + 'sa"

section \<open>Command line\<close>

record ('ma, 'sa) RelayOptions =
  ro_listen :: 'ma
  ro_ws_listen :: "'sa option"
  ro_ws_rate_limit_per_minute :: u32

record ('ma, 'sa) Cli =
  cli_listen :: 'ma
  cli_ws_listen :: "'sa option"
  cli_ws_rate_limit :: u32

definition DEFAULT_WS_RATE_LIMIT :: u32 where
  "DEFAULT_WS_RATE_LIMIT = 60"

text \<open>
  The values given to the three flags, absent when a flag is not passed; a value that does not
  parse ends the process (\<open>None\<close>). The default of \<open>--listen\<close> is parsed like a given value.
\<close>

definition Cli_parse ::
  "('kp, 'pid, 'ma, 'sa, 'rb, 'pb) node_lib \<Rightarrow> string option \<Rightarrow> string option \<Rightarrow> string option \<Rightarrow>
   ('ma, 'sa) Cli option" where
  "Cli_parse N listen ws_listen ws_rate_limit =
     (case nl_parse_multiaddr N (case listen of Some s \<Rightarrow> s | None \<Rightarrow> ''/ip4/0.0.0.0/tcp/4001'') of
        None \<Rightarrow> None
      | Some ma \<Rightarrow>
     (case (case ws_listen of None \<Rightarrow> Some None | Some s \<Rightarrow> map_option Some (nl_parse_socket N s)) of
        None \<Rightarrow> None
      | Some sa \<Rightarrow>
     (case (case ws_rate_limit of None \<Rightarrow> Some DEFAULT_WS_RATE_LIMIT | Some s \<Rightarrow> nl_parse_u32 N s) of
        None \<Rightarrow> None
      | Some n \<Rightarrow> Some \<lparr>cli_listen = ma, cli_ws_listen = sa, cli_ws_rate_limit = n\<rparr>)))"

definition relay_options :: "('ma, 'sa) Cli \<Rightarrow> ('ma, 'sa) RelayOptions" where
  "relay_options cli =
     \<lparr>ro_listen = cli_listen cli, ro_ws_listen = cli_ws_listen cli,
      ro_ws_rate_limit_per_minute = cli_ws_rate_limit cli\<rparr>"

section \<open>Swarm\<close>

definition build_relay_swarm ::
  "('kp, 'pid, 'ma, 'sa, 'rb, 'pb) node_lib \<Rightarrow> ('kp, 'bd, 'sw, 'ma, 'sa, 'ln, 'rb, 'pb, 'e) node_os \<Rightarrow>
   'kp \<Rightarrow> 'e + 'sw" where
  "build_relay_swarm N W keypair =
     (case os_with_tcp W keypair of
        Inl e \<Rightarrow> Inl e
      | Inr builder \<Rightarrow>
          let peer_id = nl_peer_id N keypair
          in os_with_behaviour W builder
               \<lparr>rb_relay = nl_relay_new N peer_id, rb_ping = nl_ping_default N\<rparr>)"

section \<open>Effects and events\<close>

datatype log_level = Info | Warn

text \<open>A log line: its level, its named fields in order and its message.\<close>

datatype ('ma, 'sa, 'ln) effect =
    Listen 'ma
  | Bind_Ws 'sa
  | Spawn_Ws 'ln u32
  | Log log_level "(string \<times> string) list" string

datatype ('pid, 'x) relay_event =
    ReservationReqAccepted 'pid bool
  | ReservationReqDenied 'pid
  | ReservationTimedOut 'pid
  | CircuitReqAccepted 'pid 'pid
  | CircuitReqDenied 'pid 'pid
  | OtherRelayEvent 'x

datatype ('pid, 'ma, 'x, 'c) SwarmEvent =
    NewListenAddr 'ma
  | RelayEvent "('pid, 'x) relay_event"
  | ConnectionEstablished 'pid
  | ConnectionClosed 'pid "'c option"
  | OtherSwarmEvent

definition show_bool :: "bool \<Rightarrow> string" where
  "show_bool b = (if b then ''true'' else ''false'')"

fun log_relay_event ::
  "('pid \<Rightarrow> string) \<Rightarrow> ('x \<Rightarrow> string) \<Rightarrow> ('pid, 'x) relay_event \<Rightarrow> ('ma, 'sa, 'ln) effect" where
  "log_relay_event sp dbg (ReservationReqAccepted p renewed) =
     Log Info [(''peer'', sp p), (''renewed'', show_bool renewed)] ''circuit reservation accepted''"
| "log_relay_event sp dbg (ReservationReqDenied p) = Log Info [(''peer'', sp p)] ''circuit reservation denied''"
| "log_relay_event sp dbg (ReservationTimedOut p) = Log Info [(''peer'', sp p)] ''circuit reservation timed out''"
| "log_relay_event sp dbg (CircuitReqAccepted src dst) =
     Log Info [(''src'', sp src), (''dst'', sp dst)] ''circuit accepted''"
| "log_relay_event sp dbg (CircuitReqDenied src dst) =
     Log Info [(''src'', sp src), (''dst'', sp dst)] ''circuit request denied (no reservation)''"
| "log_relay_event sp dbg (OtherRelayEvent x) = Log Info [] (''relay event: '' @ dbg x)"

text \<open>One turn of the event loop: at most one log line, and nothing else.\<close>

fun on_swarm_event ::
  "('kp, 'pid, 'ma, 'sa, 'rb, 'pb) node_lib \<Rightarrow> ('x \<Rightarrow> string) \<Rightarrow> ('c \<Rightarrow> string) \<Rightarrow>
   ('pid, 'ma, 'x, 'c) SwarmEvent \<Rightarrow> ('ma, 'sa, 'ln) effect list" where
  "on_swarm_event N dbg show_err (NewListenAddr a) =
     [Log Info [(''addr'', nl_show_addr N a)] (''listening on '' @ nl_show_addr N a)]"
| "on_swarm_event N dbg show_err (RelayEvent e) = [log_relay_event (nl_show_peer N) dbg e]"
| "on_swarm_event N dbg show_err (ConnectionEstablished p) =
     [Log Info [(''peer'', nl_show_peer N p)] ''connection established'']"
| "on_swarm_event N dbg show_err (ConnectionClosed p cause) =
     [case cause of
        Some err \<Rightarrow> Log Warn [(''peer'', nl_show_peer N p), (''err'', show_err err)] ''connection closed with error''
      | None \<Rightarrow> Log Info [(''peer'', nl_show_peer N p)] ''connection closed'']"
| "on_swarm_event N dbg show_err OtherSwarmEvent = []"

section \<open>Startup\<close>

text \<open>
  The part of \<open>run_relay\<close> before its loop, for the keypair that was drawn: its effects, and the
  error it returns or the swarm with the listener and rate limit handed to the bridge's task.
\<close>

definition start_ws ::
  "('kp, 'pid, 'ma, 'sa, 'rb, 'pb) node_lib \<Rightarrow> ('kp, 'bd, 'sw, 'ma, 'sa, 'ln, 'rb, 'pb, 'e) node_os \<Rightarrow>
   ('ma, 'sa) RelayOptions \<Rightarrow> ('ma, 'sa, 'ln) effect list \<times> ('e + ('ln \<times> u32) option)" where
  "start_ws N W options =
     (case ro_ws_listen options of
        None \<Rightarrow> ([], Inr None)
      | Some ws_addr \<Rightarrow>
          let rate_limit = ro_ws_rate_limit_per_minute options
          in (case os_bind W ws_addr of
                Inl e \<Rightarrow> ([Bind_Ws ws_addr], Inl e)
              | Inr ln \<Rightarrow>
                  (case os_local_addr W ln of
                     Inl e \<Rightarrow> ([Bind_Ws ws_addr], Inl e)
                   | Inr bound_addr \<Rightarrow>
                       ([Bind_Ws ws_addr,
                         Log Info [(''addr'', nl_show_socket N bound_addr)] ''ws relay listener started'',
                         Spawn_Ws ln rate_limit], Inr (Some (ln, rate_limit))))))"

definition start_relay ::
  "('kp, 'pid, 'ma, 'sa, 'rb, 'pb) node_lib \<Rightarrow> ('kp, 'bd, 'sw, 'ma, 'sa, 'ln, 'rb, 'pb, 'e) node_os \<Rightarrow>
   'kp \<Rightarrow> ('ma, 'sa) RelayOptions \<Rightarrow>
   ('ma, 'sa, 'ln) effect list \<times> ('e + 'sw \<times> ('ln \<times> u32) option)" where
  "start_relay N W keypair options =
     (case build_relay_swarm N W keypair of
        Inl e \<Rightarrow> ([], Inl e)
      | Inr swarm \<Rightarrow>
     (case os_listen_on W (ro_listen options) swarm of
        Inl e \<Rightarrow> ([Listen (ro_listen options)], Inl e)
      | Inr swarm \<Rightarrow>
          let started = [Listen (ro_listen options),
                Log Info [(''peer_id'', nl_show_peer N (nl_peer_id N keypair)),
                          (''listen'', nl_show_addr N (ro_listen options))] ''relay node started'']
          in (case start_ws N W options of
                (fx, Inl e) \<Rightarrow> (started @ fx, Inl e)
              | (fx, Inr ws) \<Rightarrow> (started @ fx, Inr (swarm, ws)))))"

text \<open>
  \<open>run_relay\<close> up to the moment it has taken \<open>events\<close> from the swarm. After a successful start it
  never returns: the result is the error of the startup or \<open>None\<close>.
\<close>

definition run_relay ::
  "('kp, 'pid, 'ma, 'sa, 'rb, 'pb) node_lib \<Rightarrow> ('kp, 'bd, 'sw, 'ma, 'sa, 'ln, 'rb, 'pb, 'e) node_os \<Rightarrow>
   ('x \<Rightarrow> string) \<Rightarrow> ('c \<Rightarrow> string) \<Rightarrow> 'kp \<Rightarrow> ('ma, 'sa) RelayOptions \<Rightarrow>
   ('pid, 'ma, 'x, 'c) SwarmEvent list \<Rightarrow> ('ma, 'sa, 'ln) effect list \<times> 'e option" where
  "run_relay N W dbg show_err keypair options events =
     (case start_relay N W keypair options of
        (fx, Inl e) \<Rightarrow> (fx, Some e)
      | (fx, Inr _) \<Rightarrow> (fx @ concat (map (on_swarm_event N dbg show_err) events), None))"

text \<open>
  The process: the log filter of the environment, or the default where there is none or it does not
  parse, then the flags, then the node. \<open>try_parse\<close> and \<open>filter_new\<close> are the subscriber's two constructors of
  filters. A bad flag ends the process in the parser (\<open>None\<close>).
\<close>

definition log_filter :: "(string \<Rightarrow> 'f option) \<Rightarrow> (string \<Rightarrow> 'f) \<Rightarrow> string option \<Rightarrow> 'f" where
  "log_filter try_parse filter_new env =
     (case Option.bind env try_parse of Some f \<Rightarrow> f | None \<Rightarrow> filter_new ''relay=info,warn'')"

definition relay_main ::
  "('kp, 'pid, 'ma, 'sa, 'rb, 'pb) node_lib \<Rightarrow> ('kp, 'bd, 'sw, 'ma, 'sa, 'ln, 'rb, 'pb, 'e) node_os \<Rightarrow>
   ('x \<Rightarrow> string) \<Rightarrow> ('c \<Rightarrow> string) \<Rightarrow> (string \<Rightarrow> 'f option) \<Rightarrow> (string \<Rightarrow> 'f) \<Rightarrow> string option \<Rightarrow> string option \<Rightarrow> string option \<Rightarrow>
   string option \<Rightarrow> 'kp \<Rightarrow> ('pid, 'ma, 'x, 'c) SwarmEvent list \<Rightarrow> 'f \<times> (('ma, 'sa, 'ln) effect list \<times> 'e option) option" where
  "relay_main N W dbg show_err try_parse filter_new env listen ws_listen ws_rate_limit keypair events =
     (log_filter try_parse filter_new env,
      (case Cli_parse N listen ws_listen ws_rate_limit of
         None \<Rightarrow> None
       | Some cli \<Rightarrow> Some (run_relay N W dbg show_err keypair (relay_options cli) events)))"

text \<open>What the spawned task does when the accept loop returns: it only returns errors.\<close>

definition on_bridge_end :: "('e \<Rightarrow> string) \<Rightarrow> 'e \<Rightarrow> ('ma, 'sa, 'ln) effect" where
  "on_bridge_end show_err e = Log Warn [] (''ws relay listener ended with error: '' @ show_err e)"

section \<open>Entry points of the bridge\<close>

text \<open>
  \<open>run_ws_listener\<close> binds and serves; the listener of the tests binds an unused local port and
  panics when it cannot. \<open>Listener_new\<close> is the loop each of them enters.
\<close>

definition run_ws_listener :: "('sa \<Rightarrow> 'e + 'ln) \<Rightarrow> 'sa \<Rightarrow> u32 \<Rightarrow> 'e + 'ln \<times> Listener" where
  "run_ws_listener bind addr rate_limit_per_minute =
     (case bind addr of
        Inl e \<Rightarrow> Inl e
      | Inr ln \<Rightarrow> Inr (ln, Listener_new rate_limit_per_minute))"

record 'sa WsListenerHandle =
  wh_addr :: 'sa
  wh_loop :: Listener

definition start_ws_listener_for_test ::
  "(string \<Rightarrow> 'e + 'ln) \<Rightarrow> ('ln \<Rightarrow> 'e + 'sa) \<Rightarrow> u32 \<Rightarrow> 'sa WsListenerHandle run" where
  "start_ws_listener_for_test bind local_addr rate_limit_per_minute =
     (case bind ''127.0.0.1:0'' of
        Inl _ \<Rightarrow> Panic
      | Inr ln \<Rightarrow>
          (case local_addr ln of
             Inl _ \<Rightarrow> Panic
           | Inr addr \<Rightarrow> Return \<lparr>wh_addr = addr, wh_loop = Listener_new rate_limit_per_minute\<rparr>))"

text \<open>The harness: the handle it keeps and the line it prints.\<close>

definition ws_test_harness ::
  "(string \<Rightarrow> 'e + 'ln) \<Rightarrow> ('ln \<Rightarrow> 'e + 'sa) \<Rightarrow> ('sa \<Rightarrow> string) \<Rightarrow> ('sa WsListenerHandle \<times> string) run" where
  "ws_test_harness bind local_addr show_socket =
     run_bind (start_ws_listener_for_test bind local_addr 10000) (\<lambda>handle.
       Return (handle, ''ws://'' @ show_socket (wh_addr handle) @ [CHR 0x0A]))"

section \<open>Lemmas\<close>

fun is_log :: "('ma, 'sa, 'ln) effect \<Rightarrow> bool" where
  "is_log (Log l f m) = True"
| "is_log _ = False"

lemma event_loop_only_logs: "\<forall>x\<in>set (on_swarm_event N dbg show_err ev). is_log x"
proof (cases ev)
  case (RelayEvent e)
  then show ?thesis by (cases e) simp_all
qed (auto split: option.splits)

lemma run_relay_effects:
  assumes "run_relay N W dbg show_err keypair options events = (fx, res)" "\<not> is_log x"
  shows "x \<in> set fx \<longleftrightarrow> x \<in> set (fst (start_relay N W keypair options))"
proof -
  have "x \<notin> set (concat (map (on_swarm_event N dbg show_err) events))"
    using assms(2) event_loop_only_logs by fastforce
  then show ?thesis using assms(1) by (auto simp: run_relay_def split: prod.splits sum.splits)
qed

lemma run_relay_result:
  "snd (run_relay N W dbg show_err keypair options events) =
     (case snd (start_relay N W keypair options) of Inl e \<Rightarrow> Some e | Inr _ \<Rightarrow> None)"
  by (auto simp: run_relay_def split: prod.splits sum.splits)

lemma start_ws_off: "ro_ws_listen options = None \<Longrightarrow> start_ws N W options = ([], Inr None)"
  by (simp add: start_ws_def)

lemma start_relay_bridge:
  assumes "start_relay N W keypair options = (fx, r)" "\<not> is_log x" "x \<in> set fx" "x \<noteq> Listen (ro_listen options)"
  shows "x \<in> set (fst (start_ws N W options)) \<and>
    (case r of Inl e \<Rightarrow> snd (start_ws N W options) = Inl e
     | Inr (swarm, ws) \<Rightarrow> snd (start_ws N W options) = Inr ws)"
  using assms by (auto simp: start_relay_def Let_def split: prod.splits sum.splits)

lemma start_ws_effects:
  assumes "x \<in> set (fst (start_ws N W options))" "\<not> is_log x"
  obtains (bind) a where "x = Bind_Ws a" "ro_ws_listen options = Some a"
  | (spawn) a ln where "x = Spawn_Ws ln (ro_ws_rate_limit_per_minute options)" "ro_ws_listen options = Some a"
      "os_bind W a = Inr ln" "snd (start_ws N W options) = Inr (Some (ln, ro_ws_rate_limit_per_minute options))"
  using assms by (fastforce simp: start_ws_def Let_def split: option.splits sum.splits)

lemma bind_failure:
  assumes "ro_ws_listen options = Some a" "os_bind W a = Inl e"
  shows "\<exists>e'. snd (start_relay N W keypair options) = Inl e'"
  using assms by (auto simp: start_relay_def start_ws_def Let_def split: sum.splits)

section \<open>Properties\<close>

text \<open>
  C29: The WebSocket bridge is off unless asked for. Of a process started with the given flags: an
  address is bound for the bridge, or a bridge spawned, only when \<open>--ws-listen\<close> was passed, and
  then on the address it names with the rate limit given (60 by default); without the flag the
  run does not depend on what binding would do; an address that cannot be bound ends the
  startup with an error and no bridge; and a running bridge means the startup succeeded.
\<close>

theorem bridge_is_opt_in:
  assumes "Cli_parse N listen ws rate = Some cli"
    and "run_relay N W dbg show_err keypair (relay_options cli) events = (fx, res)"
  shows "(Bind_Ws a \<in> set fx \<longrightarrow> (\<exists>s. ws = Some s \<and> nl_parse_socket N s = Some a)) \<and>
    (Spawn_Ws ln n \<in> set fx \<longrightarrow> res = None \<and>
       Some n = (case rate of None \<Rightarrow> Some 60 | Some s \<Rightarrow> nl_parse_u32 N s) \<and>
       (\<exists>s a. ws = Some s \<and> nl_parse_socket N s = Some a \<and> os_bind W a = Inr ln)) \<and>
    (ws = None \<longrightarrow> run_relay N (W\<lparr>os_bind := bind, os_local_addr := addr\<rparr>) dbg show_err keypair
       (relay_options cli) events = (fx, res)) \<and>
    (ws = Some s \<and> nl_parse_socket N s = Some b \<and> os_bind W b = Inl e \<longrightarrow>
       res \<noteq> None \<and> (\<forall>ln n. Spawn_Ws ln n \<notin> set fx))"
proof -
  let ?o = "relay_options cli"
  have flags: "ro_ws_listen ?o = (case ws of None \<Rightarrow> None | Some s \<Rightarrow> nl_parse_socket N s)"
    "Some (ro_ws_rate_limit_per_minute ?o) = (case rate of None \<Rightarrow> Some 60 | Some s \<Rightarrow> nl_parse_u32 N s)"
    "ws = Some s \<Longrightarrow> nl_parse_socket N s \<noteq> None" for s
    using assms(1) by (auto simp: Cli_parse_def relay_options_def DEFAULT_WS_RATE_LIMIT_def split: option.splits)
  have bridge: "x \<in> set (fst (start_ws N W ?o))" "res = None \<longleftrightarrow> \<not> isl (snd (start_ws N W ?o))"
    if "x \<in> set fx" "\<not> is_log x" "\<forall>a. x \<noteq> Listen a" for x
    using start_relay_bridge [of N W keypair ?o _ _ x] run_relay_effects [OF assms(2) that(2)] that
      run_relay_result [of N W dbg show_err keypair ?o events] assms(2)
    by (cases "start_relay N W keypair ?o"; force split: sum.splits)+
  have bound: "ro_ws_listen ?o = Some a" if "Bind_Ws a \<in> set fx" for a
    using bridge(1) [OF that] by (auto elim: start_ws_effects)
  have spawned: "res = None \<and> n = ro_ws_rate_limit_per_minute ?o \<and> (\<exists>a. ro_ws_listen ?o = Some a \<and> os_bind W a = Inr ln)"
    if "Spawn_Ws ln n \<in> set fx" for ln n
    using bridge [OF that] by (auto elim: start_ws_effects)
  have "run_relay N (W\<lparr>os_bind := bind, os_local_addr := addr\<rparr>) dbg show_err keypair ?o events = (fx, res)"
    if "ws = None"
    using that assms(2) flags(1)
    by (simp add: run_relay_def start_relay_def build_relay_swarm_def start_ws_off Let_def cong: sum.case_cong)
  moreover have "res \<noteq> None \<and> (\<forall>ln n. Spawn_Ws ln n \<notin> set fx)"
    if "ws = Some s" "nl_parse_socket N s = Some b" "os_bind W b = Inl e"
    using that spawned bind_failure [of ?o b W e N keypair] flags(1) assms(2)
      run_relay_result [of N W dbg show_err keypair ?o events] by force
  ultimately show ?thesis using bound spawned flags by (force split: option.splits)
qed

text \<open>A node on which swarms are strings and port 1 is taken.\<close>

definition demo_node :: "(unit, string, string, string, string, string) node_lib" where
  "demo_node = \<lparr>nl_peer_id = (\<lambda>_. ''me''), nl_relay_new = (\<lambda>p. ''relay of '' @ p), nl_ping_default = ''ping'',
     nl_parse_multiaddr = Some, nl_parse_socket = Some, nl_parse_u32 = (\<lambda>s. if s = ''5'' then Some 5 else None),
     nl_show_peer = (\<lambda>p. p), nl_show_addr = (\<lambda>a. a), nl_show_socket = (\<lambda>a. a)\<rparr>"

definition demo_os :: "(unit, unit, string, string, string, string, string, string, string) node_os" where
  "demo_os = \<lparr>os_with_tcp = (\<lambda>_. Inr ()), os_with_behaviour = (\<lambda>_ b. Inr (rb_relay b)),
     os_listen_on = (\<lambda>a s. Inr (s @ '' at '' @ a)),
     os_bind = (\<lambda>a. if a = ''0.0.0.0:1'' then Inl ''in use'' else Inr a), os_local_addr = Inr\<rparr>"

theorem bridge_is_opt_in_witness:
  "\<exists>fx fx'. run_relay demo_node demo_os (\<lambda>x. x) (\<lambda>e. e) ()
       (relay_options \<lparr>cli_listen = ''/ip4/0.0.0.0/tcp/4001'', cli_ws_listen = Some ''0.0.0.0:8000'', cli_ws_rate_limit = 5\<rparr>)
       [ConnectionEstablished ''peer''] = (fx, None) \<and>
     Spawn_Ws ''0.0.0.0:8000'' 5 \<in> set fx \<and>
     run_relay demo_node demo_os (\<lambda>x. x) (\<lambda>e. e) ()
       (relay_options \<lparr>cli_listen = ''/ip4/0.0.0.0/tcp/4001'', cli_ws_listen = None, cli_ws_rate_limit = 60\<rparr>)
       [ConnectionEstablished ''peer''] = (fx', None) \<and>
     (\<forall>a. Bind_Ws a \<notin> set fx')"
proof -
  let ?on = "\<lparr>cli_listen = ''/ip4/0.0.0.0/tcp/4001'', cli_ws_listen = Some ''0.0.0.0:8000'', cli_ws_rate_limit = 5 :: u32\<rparr>"
  let ?off = "\<lparr>cli_listen = ''/ip4/0.0.0.0/tcp/4001'', cli_ws_listen = None, cli_ws_rate_limit = 60 :: u32\<rparr>"
  have on: "Cli_parse demo_node None (Some ''0.0.0.0:8000'') (Some ''5'') = Some ?on"
    and off: "Cli_parse demo_node None None None = Some ?off"
    by (simp_all add: Cli_parse_def demo_node_def DEFAULT_WS_RATE_LIMIT_def)
  obtain fx res where r: "run_relay demo_node demo_os (\<lambda>x. x) (\<lambda>e. e) () (relay_options ?on) [ConnectionEstablished ''peer''] = (fx, res)"
    by fastforce
  obtain fx' res' where r': "run_relay demo_node demo_os (\<lambda>x. x) (\<lambda>e. e) () (relay_options ?off) [ConnectionEstablished ''peer''] = (fx', res')"
    by fastforce
  have spawn: "Spawn_Ws ''0.0.0.0:8000'' 5 \<in> set fx" and res': "res' = None"
    using r r' by (auto simp: run_relay_def start_relay_def start_ws_def build_relay_swarm_def relay_options_def
        demo_node_def demo_os_def)
  have "res = None" using bridge_is_opt_in [OF on r] spawn by blast
  moreover have "\<forall>a. Bind_Ws a \<notin> set fx'" using bridge_is_opt_in [OF off r'] by blast
  ultimately show ?thesis using spawn r r' res' by blast
qed

end
