(* ===== verification/Framing.thy ===== *)
theory Framing
  imports Prelude
begin

text \<open>
  Length-prefixed fields. Three modules carry the same framing (\<open>core/crypto/src/prekey.rs\<close>,
  \<open>core/crypto/src/session.rs\<close> with an offset into the input, \<open>core/transport/src/dht.rs\<close> with a
  shrinking slice). The locale states what their parsers rely on: a field written is read back
  whatever follows, a field read is exactly what a writer would have put there, and reading
  does not panic while the cursor is inside the input.
\<close>

locale field_reader =
  fixes rest :: "'c \<Rightarrow> bytes"
    and inside :: "'c \<Rightarrow> bool"
    and put :: "bytes \<Rightarrow> bytes"
    and fetch :: "'c \<Rightarrow> ('e + bytes \<times> 'c) run"
  assumes fetch_put: "inside c \<Longrightarrow> length seg < 2 ^ 32 \<Longrightarrow> rest c = put seg @ post \<Longrightarrow>
      \<exists>c'. fetch c = Return (Inr (seg, c')) \<and> inside c' \<and> rest c' = post"
    and fetch_sound: "inside c \<Longrightarrow> fetch c = Return (Inr (seg, c')) \<Longrightarrow>
      inside c' \<and> rest c = put seg @ rest c' \<and> length seg < 2 ^ 32"
    and fetch_total: "inside c \<Longrightarrow> fetch c \<noteq> Panic"
begin

lemma read_iff:
  assumes "inside c"
  shows "(\<exists>c'. fetch c = Return (Inr (seg, c')) \<and> rest c' = post) \<longleftrightarrow>
    rest c = put seg @ post \<and> length seg < 2 ^ 32"
  using assms fetch_put [of c seg post] fetch_sound [of c seg] by blast

text \<open>Two fields in a row.\<close>

lemma read_two:
  assumes "inside c" "length s < 2 ^ 32" "length t < 2 ^ 32" "rest c = put s @ put t @ post"
  shows "\<exists>c1 c2. fetch c = Return (Inr (s, c1)) \<and> fetch c1 = Return (Inr (t, c2)) \<and>
    inside c1 \<and> inside c2 \<and> rest c2 = post"
  using fetch_put [OF assms(1,2,4)] fetch_put [OF _ assms(3)] by blast

lemma put_inject:
  assumes "inside c" "rest c = put s @ post" "rest c = put t @ post'" "length s < 2 ^ 32" "length t < 2 ^ 32"
  shows "s = t \<and> post = post'"
  using fetch_put [OF assms(1,4,2)] fetch_put [OF assms(1,5,3)] by auto

lemma read_cases:
  assumes "inside c"
  obtains (err) e where "fetch c = Return (Inl e)"
    | (field) seg c' where "fetch c = Return (Inr (seg, c'))" "inside c'"
        "rest c = put seg @ rest c'" "length seg < 2 ^ 32"
proof (cases "fetch c")
  case Panic
  then show thesis using fetch_total [OF assms] by simp
next
  case (Return r)
  show thesis
  proof (cases r)
    case (Inl e)
    then show thesis using Return err by simp
  next
    case (Inr p)
    obtain seg c' where "p = (seg, c')" by fastforce
    then show thesis using Return Inr fetch_sound [OF assms] field by blast
  qed
qed

end

text \<open>The shape shared by the offset-based readers, used to discharge the laws for each.\<close>

lemma prefixed_length: "length seg < 2 ^ 32 \<Longrightarrow> be_nat (take 4 (be_bytes 4 (length seg) @ post)) = length seg"
  by simp

lemma drop_prefixed:
  assumes "drop off bs = be_bytes 4 (length seg) @ seg @ post" "off \<le> length bs"
  shows "length bs = off + 4 + length seg + length post" "take 4 (drop off bs) = be_bytes 4 (length seg)"
    "drop (off + 4) bs = seg @ post" "drop (off + 4 + length seg) bs = post"
proof -
  show "length bs = off + 4 + length seg + length post"
    using arg_cong [OF assms(1), of length] assms(2) by simp
  show "take 4 (drop off bs) = be_bytes 4 (length seg)" using assms(1) by simp
  have "drop (off + 4) bs = drop 4 (drop off bs)" by (simp add: add.commute)
  then show d: "drop (off + 4) bs = seg @ post" using assms(1) by simp
  have "drop (off + 4 + length seg) bs = drop (length seg) (drop (off + 4) bs)" by (simp add: add.commute)
  then show "drop (off + 4 + length seg) bs = post" using d by simp
qed

lemma split_prefixed:
  assumes "off + 4 \<le> length bs" "n = be_nat (take 4 (drop off bs))" "n \<le> length bs - (off + 4)"
    "seg = take n (drop (off + 4) bs)"
  shows "drop off bs = be_bytes 4 (length seg) @ seg @ drop (off + 4 + n) bs" "length seg = n" "n < 2 ^ 32"
proof -
  have l: "length (take 4 (drop off bs)) = 4" using assms(1) by simp
  then show n: "n < 2 ^ 32" using be_nat_bound [of "take 4 (drop off bs)"] assms(2) by simp
  show s: "length seg = n" using assms(3,4) by simp
  have "be_bytes 4 (length seg) = take 4 (drop off bs)" using be_bytes_be_nat [OF l] s assms(2) by simp
  then show "drop off bs = be_bytes 4 (length seg) @ seg @ drop (off + 4 + n) bs"
    using take_drop_split [of "drop off bs" 4 n] assms(4) by (simp add: add.commute add.left_commute)
qed

lemma index_four:
  assumes "off + 4 \<le> length bs"
  shows "[bs ! off, bs ! (off + 1), bs ! (off + 2), bs ! (off + 3)] = take 4 (drop off bs)"
  using assms by (intro nth_equalityI) (auto simp: nth_Cons numeral_eq_Suc split: nat.splits)

end
