(* ===== verification/Prekey.thy ===== *)
theory Prekey
  imports Framing
begin

text \<open>
  Prekeys (\<open>core/crypto/src/prekey.rs\<close>): signed prekeys and their verification, the single-use
  pool, the replenishable pool with its \<open>u32\<close> id counter, and the byte form of a bundle. The
  records are libsignal's: their constructors, accessors and serializations are the parameter
  record \<open>signal_lib\<close>, and \<open>signal_ok\<close> states what is documented of them. Additions on \<open>u32\<close>
  wrap, as in a release build.
\<close>

section \<open>The library's records\<close>

record ('spk, 'otk) signal_lib =
  otk_new :: "u32 \<Rightarrow> bytes \<Rightarrow> 'otk"
  otk_id :: "'otk \<Rightarrow> u32 option"
  otk_serialize :: "'otk \<Rightarrow> bytes option"
  otk_deserialize :: "bytes \<Rightarrow> 'otk option"
  spk_new :: "u32 \<Rightarrow> u64 \<Rightarrow> bytes \<Rightarrow> bytes \<Rightarrow> 'spk"
  spk_public_key :: "'spk \<Rightarrow> bytes option"
  spk_signature :: "'spk \<Rightarrow> bytes option"
  spk_serialize :: "'spk \<Rightarrow> bytes option"
  spk_deserialize :: "bytes \<Rightarrow> 'spk option"
  key_public :: "bytes \<Rightarrow> bytes"
  sign :: "bytes \<Rightarrow> bytes \<Rightarrow> bytes \<Rightarrow> bytes option"
  verify_signature :: "bytes \<Rightarrow> bytes \<Rightarrow> bytes \<Rightarrow> bool"
  identity_serialize :: "bytes \<Rightarrow> bytes"
  identity_try_from :: "bytes \<Rightarrow> bytes option"

text \<open>
  Records carry the id and keys they were made with, serialization succeeds and is inverted by
  deserialization, what deserializes serializes back, an honest signature verifies.
\<close>

definition signal_ok :: "('spk, 'otk) signal_lib \<Rightarrow> bool" where
  "signal_ok S \<longleftrightarrow>
     (\<forall>i k. otk_id S (otk_new S i k) = Some i) \<and>
     (\<forall>r. \<exists>b. otk_serialize S r = Some b \<and> otk_deserialize S b = Some r) \<and>
     (\<forall>i t k s. spk_public_key S (spk_new S i t k s) = Some (key_public S k) \<and>
        spk_signature S (spk_new S i t k s) = Some s) \<and>
     (\<forall>r. \<exists>b. spk_serialize S r = Some b \<and> spk_deserialize S b = Some r) \<and>
     (\<forall>k. identity_try_from S (identity_serialize S k) = Some k) \<and>
     (\<forall>k m r. \<exists>s. sign S k m r = Some s \<and> verify_signature S (key_public S k) m s)"

datatype PreKeyError = InvalidSignature | MalformedKey | OneTimePreKeyNotFound | OneTimePreKeyAlreadyConsumed

definition PreKeyError_display :: "PreKeyError \<Rightarrow> string" where
  "PreKeyError_display e =
     (case e of
        InvalidSignature \<Rightarrow> ''signed prekey signature does not verify against the identity key''
      | MalformedKey \<Rightarrow> ''malformed or unrecognized key encoding''
      | OneTimePreKeyNotFound \<Rightarrow> ''no such one-time prekey''
      | OneTimePreKeyAlreadyConsumed \<Rightarrow> ''one-time prekey already consumed'')"

section \<open>Signed prekeys\<close>

text \<open>\<open>secret\<close> is the generated key pair's private half, \<open>rnd\<close> the signing randomness.\<close>

definition generate_signed_pre_key ::
  "('spk, 'otk) signal_lib \<Rightarrow> bytes \<Rightarrow> u32 \<Rightarrow> u64 \<Rightarrow> bytes \<Rightarrow> bytes \<Rightarrow> 'spk run" where
  "generate_signed_pre_key S identity_priv i timestamp secret rnd =
     (case sign S identity_priv (key_public S secret) rnd of
        None \<Rightarrow> Panic
      | Some signature \<Rightarrow> Return (spk_new S i timestamp secret signature))"

definition verify_signed_pre_key ::
  "('spk, 'otk) signal_lib \<Rightarrow> bytes \<Rightarrow> 'spk \<Rightarrow> PreKeyError + unit" where
  "verify_signed_pre_key S identity_key signed_pre_key =
     (case spk_public_key S signed_pre_key of
        None \<Rightarrow> Inl MalformedKey
      | Some public_key \<Rightarrow>
          (case spk_signature S signed_pre_key of
             None \<Rightarrow> Inl MalformedKey
           | Some signature \<Rightarrow>
               if verify_signature S identity_key public_key signature then Inr ()
               else Inl InvalidSignature))"

definition generate_one_time_pre_keys ::
  "('spk, 'otk) signal_lib \<Rightarrow> (nat \<Rightarrow> bytes) \<Rightarrow> u32 \<Rightarrow> u32 \<Rightarrow> 'otk list" where
  "generate_one_time_pre_keys S secrets start_id count =
     map (\<lambda>offset. otk_new S (start_id + word_of_nat offset) (secrets offset)) [0..<unat count]"

section \<open>The single-use pool\<close>

record 'otk OneTimePreKeyPool =
  available :: "(u32, 'otk) hmap"
  consumed :: "u32 set"

fun pool_insert_all ::
  "('spk, 'otk) signal_lib \<Rightarrow> 'otk list \<Rightarrow> (u32, 'otk) hmap \<Rightarrow> PreKeyError + (u32, 'otk) hmap" where
  "pool_insert_all S [] m = Inr m"
| "pool_insert_all S (r # rs) m =
     (case otk_id S r of
        None \<Rightarrow> Inl MalformedKey
      | Some i \<Rightarrow> pool_insert_all S rs (hm_insert i r m))"

definition OneTimePreKeyPool_new ::
  "('spk, 'otk) signal_lib \<Rightarrow> 'otk list \<Rightarrow> PreKeyError + 'otk OneTimePreKeyPool" where
  "OneTimePreKeyPool_new S records =
     (case pool_insert_all S records [] of
        Inl e \<Rightarrow> Inl e
      | Inr m \<Rightarrow> Inr \<lparr>available = m, consumed = {}\<rparr>)"

definition OneTimePreKeyPool_remaining :: "'otk OneTimePreKeyPool \<Rightarrow> nat" where
  "OneTimePreKeyPool_remaining p = length (available p)"

definition OneTimePreKeyPool_take ::
  "u32 \<Rightarrow> 'otk OneTimePreKeyPool \<Rightarrow> (PreKeyError + 'otk) \<times> 'otk OneTimePreKeyPool" where
  "OneTimePreKeyPool_take i p =
     (case map_of (available p) i of
        Some r \<Rightarrow> (Inr r, p\<lparr>available := hm_remove i (available p), consumed := insert i (consumed p)\<rparr>)
      | None \<Rightarrow> if i \<in> consumed p then (Inl OneTimePreKeyAlreadyConsumed, p)
                else (Inl OneTimePreKeyNotFound, p))"

section \<open>The replenishable pool\<close>

record 'otk PreKeyPool =
  pkp_inner :: "'otk OneTimePreKeyPool"
  pkp_capacity :: nat
  pkp_low_watermark :: nat
  pkp_next_id :: u32
  pkp_issued :: "u32 set"

definition DEFAULT_LOW_WATERMARK :: nat where "DEFAULT_LOW_WATERMARK = 10"

definition PreKeyPool_with_low_watermark ::
  "('spk, 'otk) signal_lib \<Rightarrow> (nat \<Rightarrow> bytes) \<Rightarrow> nat \<Rightarrow> 'otk PreKeyPool run" where
  "PreKeyPool_with_low_watermark S secrets low_watermark =
     (let count = max low_watermark 1;
          records = generate_one_time_pre_keys S secrets 1 (word_of_nat count)
      in (case OneTimePreKeyPool_new S records of
            Inl _ \<Rightarrow> Panic
          | Inr inner \<Rightarrow>
              Return \<lparr>pkp_inner = inner, pkp_capacity = count, pkp_low_watermark = count,
                      pkp_next_id = word_of_nat count + 1, pkp_issued = {}\<rparr>))"

definition PreKeyPool_capacity :: "'otk PreKeyPool \<Rightarrow> nat" where
  "PreKeyPool_capacity p = pkp_capacity p"

definition PreKeyPool_remaining :: "'otk PreKeyPool \<Rightarrow> nat" where
  "PreKeyPool_remaining p = OneTimePreKeyPool_remaining (pkp_inner p)"

definition PreKeyPool_below_watermark :: "'otk PreKeyPool \<Rightarrow> bool" where
  "PreKeyPool_below_watermark p = (OneTimePreKeyPool_remaining (pkp_inner p) < pkp_low_watermark p)"

definition PreKeyPool_snapshot_ids :: "'otk PreKeyPool \<Rightarrow> u32 list" where
  "PreKeyPool_snapshot_ids p = sort (hm_keys (available (pkp_inner p)))"

definition PreKeyPool_take_one_time ::
  "'otk PreKeyPool \<Rightarrow> 'otk option run \<times> 'otk PreKeyPool" where
  "PreKeyPool_take_one_time p =
     (case sort (hm_keys (available (pkp_inner p))) of
        [] \<Rightarrow> (Return None, p)
      | i # _ \<Rightarrow>
          (case OneTimePreKeyPool_take i (pkp_inner p) of
             (Inl _, inner) \<Rightarrow> (Panic, p\<lparr>pkp_inner := inner\<rparr>)
           | (Inr r, inner) \<Rightarrow>
               (Return (Some r), p\<lparr>pkp_inner := inner, pkp_issued := insert i (pkp_issued p)\<rparr>)))"

text \<open>\<open>u32::saturating_add(1)\<close>.\<close>

definition sat_succ :: "u32 \<Rightarrow> u32" where
  "sat_succ x = (if x = - 1 then x else x + 1)"

fun reserve_ids ::
  "('spk, 'otk) signal_lib \<Rightarrow> 'otk list \<Rightarrow> 'otk PreKeyPool \<Rightarrow> (PreKeyError + unit) \<times> 'otk PreKeyPool" where
  "reserve_ids S [] p = (Inr (), p)"
| "reserve_ids S (r # rs) p =
     (case otk_id S r of
        None \<Rightarrow> (Inl MalformedKey, p)
      | Some i \<Rightarrow>
          reserve_ids S rs (p\<lparr>pkp_issued := insert i (pkp_issued p),
                              pkp_next_id := max (sat_succ (pkp_next_id p)) (i + 1)\<rparr>))"

definition PreKeyPool_replenish_to_target ::
  "('spk, 'otk) signal_lib \<Rightarrow> (nat \<Rightarrow> bytes) \<Rightarrow> nat \<Rightarrow> 'otk PreKeyPool \<Rightarrow>
   (PreKeyError + unit) \<times> 'otk PreKeyPool" where
  "PreKeyPool_replenish_to_target S secrets target p =
     (let needed = target - OneTimePreKeyPool_remaining (pkp_inner p)
      in if needed = 0 then (Inr (), p)
         else let new_records = generate_one_time_pre_keys S secrets (pkp_next_id p) (word_of_nat needed)
              in (case reserve_ids S new_records p of
                    (Inl e, p) \<Rightarrow> (Inl e, p)
                  | (Inr _, p) \<Rightarrow>
                      let all_records = map snd (available (pkp_inner p)) @ new_records
                      in (case OneTimePreKeyPool_new S all_records of
                            Inl e \<Rightarrow> (Inl e, p)
                          | Inr inner \<Rightarrow> (Inr (), p\<lparr>pkp_inner := inner\<rparr>))))"

section \<open>Bundles\<close>

record ('spk, 'otk) PreKeyBundle =
  identity_key :: bytes
  signed_pre_key :: 'spk
  one_time_pre_key :: "'otk option"

definition write_len_prefixed :: "bytes \<Rightarrow> bytes" where
  "write_len_prefixed segment = be_bytes 4 (length segment) @ segment"

text \<open>
  The cursor is the input with an offset. \<open>bytes.len() - *offset\<close> underflows, and the indexing
  after it panics, when the offset is past the end.
\<close>

definition read_len_prefixed :: "bytes \<Rightarrow> nat \<Rightarrow> (bytes \<times> nat) option run" where
  "read_len_prefixed bs offset =
     (if offset > length bs then Panic
      else if length bs - offset < 4 then Return None
      else
        run_bind (index_at bs offset) (\<lambda>b0.
        run_bind (index_at bs (offset + 1)) (\<lambda>b1.
        run_bind (index_at bs (offset + 2)) (\<lambda>b2.
        run_bind (index_at bs (offset + 3)) (\<lambda>b3.
        let len = be_nat [b0, b1, b2, b3];
            offset = offset + 4;
            remaining = length bs - offset
        in if len > remaining then Return None
           else run_bind (slice_range bs offset (offset + len)) (\<lambda>segment.
             Return (Some (segment, offset + len))))))))"

text \<open>\<open>read_len_prefixed(...).ok_or(MalformedKey)\<close>.\<close>

definition read_field :: "bytes \<times> nat \<Rightarrow> (PreKeyError + bytes \<times> (bytes \<times> nat)) run" where
  "read_field c =
     run_bind (read_len_prefixed (fst c) (snd c)) (\<lambda>r.
       Return (case r of None \<Rightarrow> Inl MalformedKey | Some (s, off) \<Rightarrow> Inr (s, (fst c, off))))"

definition PreKeyBundle_to_bytes ::
  "('spk, 'otk) signal_lib \<Rightarrow> ('spk, 'otk) PreKeyBundle \<Rightarrow> PreKeyError + bytes" where
  "PreKeyBundle_to_bytes S b =
     (case spk_serialize S (signed_pre_key b) of
        None \<Rightarrow> Inl MalformedKey
      | Some spk_bytes \<Rightarrow>
          let buf = write_len_prefixed (identity_serialize S (identity_key b)) @ write_len_prefixed spk_bytes
          in (case one_time_pre_key b of
                Some otpk \<Rightarrow>
                  (case otk_serialize S otpk of
                     None \<Rightarrow> Inl MalformedKey
                   | Some otpk_bytes \<Rightarrow> Inr (buf @ [1] @ write_len_prefixed otpk_bytes))
              | None \<Rightarrow> Inr (buf @ [0])))"

definition PreKeyBundle_from_bytes ::
  "('spk, 'otk) signal_lib \<Rightarrow> bytes \<Rightarrow> (PreKeyError + ('spk, 'otk) PreKeyBundle) run" where
  "PreKeyBundle_from_bytes S bs =
     try_bind (read_field (bs, 0)) (\<lambda>(identity_bytes, c).
     try_bind (Return (ok_or MalformedKey (identity_try_from S identity_bytes))) (\<lambda>identity_key.
     try_bind (read_field c) (\<lambda>(spk_bytes, c).
     try_bind (Return (ok_or MalformedKey (spk_deserialize S spk_bytes))) (\<lambda>signed_pre_key.
     let offset = snd c in
     if length bs < offset + 1 then Return (Inl MalformedKey)
     else run_bind (index_at bs offset) (\<lambda>presence.
     let offset = offset + 1 in
     try_bind (if presence = 0 then Return (Inr (None, offset))
               else if presence = 1 then
                 try_bind (read_field (bs, offset)) (\<lambda>(otpk_bytes, c).
                 try_bind (Return (ok_or MalformedKey (otk_deserialize S otpk_bytes))) (\<lambda>otpk.
                   Return (Inr (Some otpk, snd c))))
               else Return (Inl MalformedKey)) (\<lambda>(one_time_pre_key, offset).
     if offset \<noteq> length bs then Return (Inl MalformedKey)
     else Return (Inr \<lparr>identity_key = identity_key, signed_pre_key = signed_pre_key,
                        one_time_pre_key = one_time_pre_key\<rparr>)))))))"

definition verify_pre_key_bundle ::
  "('spk, 'otk) signal_lib \<Rightarrow> ('spk, 'otk) PreKeyBundle \<Rightarrow> PreKeyError + unit" where
  "verify_pre_key_bundle S b = verify_signed_pre_key S (identity_key b) (signed_pre_key b)"

section \<open>Reading fields\<close>

lemma read_len_prefixed_spec:
  assumes "off \<le> length bs"
  shows "read_len_prefixed bs off = Return
    (let n = be_nat (take 4 (drop off bs)) in
     if length bs - off < 4 \<or> n > length bs - (off + 4) then None
     else Some (take n (drop (off + 4) bs), off + 4 + n))"
proof (cases "length bs - off < 4")
  case True
  then show ?thesis using assms by (simp add: read_len_prefixed_def)
next
  case False
  then have four: "off + 4 \<le> length bs" using assms by linarith
  define n where "n = be_nat (take 4 (drop off bs))"
  have i: "index_at bs off = Return (bs ! off)" "index_at bs (off + 1) = Return (bs ! (off + 1))"
    "index_at bs (off + 2) = Return (bs ! (off + 2))" "index_at bs (off + 3) = Return (bs ! (off + 3))"
    using four by (simp_all add: index_at_def)
  have n: "be_nat [bs ! off, bs ! (off + 1), bs ! (off + 2), bs ! (off + 3)] = n"
    by (simp only: index_four [OF four] n_def)
  show ?thesis
    using assms False four
    unfolding read_len_prefixed_def i run_bind_simps n n_def [symmetric]
    by (auto simp: Let_def slice_range_def)
qed

abbreviation cur_rest :: "bytes \<times> nat \<Rightarrow> bytes" where
  "cur_rest c \<equiv> drop (snd c) (fst c)"

abbreviation cur_inside :: "bytes \<times> nat \<Rightarrow> bool" where
  "cur_inside c \<equiv> snd c \<le> length (fst c)"

interpretation pk: field_reader cur_rest cur_inside write_len_prefixed read_field
proof unfold_locales
  fix c :: "bytes \<times> nat" and seg post
  assume c: "cur_inside c" "length seg < 2 ^ 32" "cur_rest c = write_len_prefixed seg @ post"
  obtain bs off where bs: "c = (bs, off)" by fastforce
  have d: "drop off bs = be_bytes 4 (length seg) @ seg @ post"
    using c(3) bs by (simp add: write_len_prefixed_def)
  note p = drop_prefixed [OF d] 
  have "read_field c = Return (Inr (seg, (bs, off + 4 + length seg)))"
    using c(1,2) bs p by (simp add: read_field_def read_len_prefixed_spec Let_def)
  then show "\<exists>c'. read_field c = Return (Inr (seg, c')) \<and> cur_inside c' \<and> cur_rest c' = post"
    using p(1,4) c(1) bs by auto
next
  fix c :: "bytes \<times> nat" and seg c'
  assume c: "cur_inside c" "read_field c = Return (Inr (seg, c'))"
  obtain bs off where bs: "c = (bs, off)" by fastforce
  define n where "n = be_nat (take 4 (drop off bs))"
  have r: "off + 4 \<le> length bs" "n \<le> length bs - (off + 4)" "seg = take n (drop (off + 4) bs)"
    "c' = (bs, off + 4 + n)"
    using c bs by (auto simp: read_field_def read_len_prefixed_spec Let_def n_def split: if_splits)
  note s = split_prefixed [OF r(1) n_def r(2,3)]
  show "cur_inside c' \<and> cur_rest c = write_len_prefixed seg @ cur_rest c' \<and> length seg < 2 ^ 32"
    using r s bs by (simp add: write_len_prefixed_def)
qed (simp add: read_field_def read_len_prefixed_spec Let_def)

lemma read_field_bytes: "cur_inside c \<Longrightarrow> read_field c = Return (Inr (seg, c')) \<Longrightarrow> fst c' = fst c"
  by (auto simp: read_field_def read_len_prefixed_spec Let_def split: if_splits)

section \<open>The bundle format\<close>

text \<open>The layout a byte string must have to be a bundle: three fields and a presence flag.\<close>

definition otpk_layout :: "(bytes \<Rightarrow> 'otk option) \<Rightarrow> 'otk option \<Rightarrow> bytes \<Rightarrow> bool" where
  "otpk_layout deserialize ot rst =
     (case ot of
        None \<Rightarrow> rst = [0]
      | Some r \<Rightarrow> \<exists>ob. rst = 1 # write_len_prefixed ob \<and> length ob < 2 ^ 32 \<and> deserialize ob = Some r)"

definition bundle_layout :: "('spk, 'otk) signal_lib \<Rightarrow> ('spk, 'otk) PreKeyBundle \<Rightarrow> bytes \<Rightarrow> bool" where
  "bundle_layout S b bs \<longleftrightarrow>
     (\<exists>ib sb rst. bs = write_len_prefixed ib @ write_len_prefixed sb @ rst \<and>
        length ib < 2 ^ 32 \<and> length sb < 2 ^ 32 \<and>
        identity_try_from S ib = Some (identity_key b) \<and>
        spk_deserialize S sb = Some (signed_pre_key b) \<and>
        otpk_layout (otk_deserialize S) (one_time_pre_key b) rst)"

text \<open>The part after the two mandatory fields, read at an offset inside the input.\<close>

definition read_otpk ::
  "('spk, 'otk) signal_lib \<Rightarrow> bytes \<Rightarrow> nat \<Rightarrow> u8 \<Rightarrow> (PreKeyError + 'otk option \<times> nat) run" where
  "read_otpk S bs offset presence =
     (if presence = 0 then Return (Inr (None, offset))
      else if presence = 1 then
        try_bind (read_field (bs, offset)) (\<lambda>(otpk_bytes, c).
        try_bind (Return (ok_or MalformedKey (otk_deserialize S otpk_bytes))) (\<lambda>otpk.
          Return (Inr (Some otpk, snd c))))
      else Return (Inl MalformedKey))"

lemma read_otpk_iff:
  assumes "offset < length bs"
  shows "read_otpk S bs (offset + 1) (bs ! offset) = Return (Inr (ot, length bs)) \<longleftrightarrow>
    otpk_layout (otk_deserialize S) ot (drop offset bs)"
proof -
  let ?c = "(bs, offset + 1)"
  have rst: "drop offset bs = bs ! offset # drop (offset + 1) bs"
    using assms by (simp add: Cons_nth_drop_Suc)
  have in1: "cur_inside ?c" using assms by simp
  consider "bs ! offset = 0" | "bs ! offset = 1" | "bs ! offset \<noteq> 0" "bs ! offset \<noteq> 1" by blast
  then show ?thesis
  proof cases
    case 1
    then show ?thesis using rst assms
      by (auto simp: read_otpk_def otpk_layout_def split: option.splits)
  next
    case 2
    show ?thesis
    proof
      assume "read_otpk S bs (offset + 1) (bs ! offset) = Return (Inr (ot, length bs))"
      then obtain ob c' r where c': "read_field ?c = Return (Inr (ob, c'))" "otk_deserialize S ob = Some r"
        "ot = Some r" "snd c' = length bs"
        using 2 by (auto simp: read_otpk_def try_bind_Inr)
      then show "otpk_layout (otk_deserialize S) ot (drop offset bs)"
        using pk.fetch_sound [OF in1 c'(1)] rst 2 read_field_bytes [OF in1 c'(1)]
        by (auto simp: otpk_layout_def)
    next
      assume "otpk_layout (otk_deserialize S) ot (drop offset bs)"
      then obtain ob r where ob: "ot = Some r" "drop (offset + 1) bs = write_len_prefixed ob @ []"
        "length ob < 2 ^ 32" "otk_deserialize S ob = Some r"
        using rst 2 by (auto simp: otpk_layout_def split: option.splits)
      obtain c' where c': "read_field ?c = Return (Inr (ob, c'))" "cur_inside c'" "cur_rest c' = []"
        using pk.fetch_put [OF in1 ob(3)] ob(2) by auto
      then have "snd c' = length bs" using read_field_bytes [OF in1 c'(1)] by auto
      then show "read_otpk S bs (offset + 1) (bs ! offset) = Return (Inr (ot, length bs))"
        using 2 c'(1) ob by (simp add: read_otpk_def)
    qed
  next
    case 3
    then show ?thesis using rst by (auto simp: read_otpk_def otpk_layout_def split: option.splits)
  qed
qed

lemma from_bytes_unfold:
  "PreKeyBundle_from_bytes S bs =
     try_bind (read_field (bs, 0)) (\<lambda>(ib, c).
     try_bind (Return (ok_or MalformedKey (identity_try_from S ib))) (\<lambda>ik.
     try_bind (read_field c) (\<lambda>(sb, c).
     try_bind (Return (ok_or MalformedKey (spk_deserialize S sb))) (\<lambda>sk.
     if length bs < snd c + 1 then Return (Inl MalformedKey)
     else run_bind (index_at bs (snd c)) (\<lambda>presence.
     try_bind (read_otpk S bs (snd c + 1) presence) (\<lambda>(ot, offset).
     if offset \<noteq> length bs then Return (Inl MalformedKey)
     else Return (Inr \<lparr>identity_key = ik, signed_pre_key = sk, one_time_pre_key = ot\<rparr>)))))))"
  unfolding PreKeyBundle_from_bytes_def Let_def read_otpk_def [symmetric] ..

lemma from_bytes_iff:
  fixes S :: "('spk, 'otk) signal_lib"
  shows "PreKeyBundle_from_bytes S bs = Return (Inr b) \<longleftrightarrow> bundle_layout S b bs"
proof
  assume "PreKeyBundle_from_bytes S bs = Return (Inr b)"
  then obtain ib c1 sb c2 where r: "read_field (bs, 0) = Return (Inr (ib, c1))"
    "identity_try_from S ib = Some (identity_key b)" "read_field c1 = Return (Inr (sb, c2))"
    "spk_deserialize S sb = Some (signed_pre_key b)" "snd c2 < length bs"
    "read_otpk S bs (snd c2 + 1) (bs ! snd c2) = Return (Inr (one_time_pre_key b, length bs))"
    unfolding from_bytes_unfold
    by (auto simp: try_bind_Inr index_at_def split: if_splits)
  have s1: "cur_inside c1" "bs = write_len_prefixed ib @ cur_rest c1" "length ib < 2 ^ 32"
    using pk.fetch_sound [OF _ r(1)] by simp_all
  have s2: "cur_inside c2" "cur_rest c1 = write_len_prefixed sb @ cur_rest c2" "length sb < 2 ^ 32"
    using pk.fetch_sound [OF s1(1) r(3)] by simp_all
  have "fst c2 = bs" using read_field_bytes [OF _ r(1)] read_field_bytes [OF s1(1) r(3)] by simp
  then have "otpk_layout (otk_deserialize S) (one_time_pre_key b) (cur_rest c2)"
    using read_otpk_iff [OF r(5), of S "one_time_pre_key b"] r(6) by simp
  moreover have "bs = write_len_prefixed ib @ write_len_prefixed sb @ cur_rest c2"
    using s1(2) s2(2) by simp
  ultimately show "bundle_layout S b bs"
    unfolding bundle_layout_def using r(2,4) s1(3) s2(3) by blast
next
  assume "bundle_layout S b bs"
  then obtain ib sb rst where l: "bs = write_len_prefixed ib @ write_len_prefixed sb @ rst"
    "length ib < 2 ^ 32" "length sb < 2 ^ 32" "identity_try_from S ib = Some (identity_key b)"
    "spk_deserialize S sb = Some (signed_pre_key b)"
    "otpk_layout (otk_deserialize S) (one_time_pre_key b) rst"
    unfolding bundle_layout_def by blast
  obtain c1 c2 where c: "read_field (bs, 0) = Return (Inr (ib, c1))" "read_field c1 = Return (Inr (sb, c2))"
    "cur_inside c1" "cur_inside c2" "cur_rest c2 = rst"
    using pk.read_two [of "(bs, 0)" ib sb rst] l(1-3) by auto
  have bs: "fst c2 = bs" using read_field_bytes [OF _ c(1)] read_field_bytes [OF c(3,2)] by simp
  have "rst \<noteq> []" using l(6) by (auto simp: otpk_layout_def split: option.splits)
  then have lt: "snd c2 < length bs" using c(4,5) bs by (metis drop_eq_Nil not_le)
  have "read_otpk S bs (snd c2 + 1) (bs ! snd c2) = Return (Inr (one_time_pre_key b, length bs))"
    using read_otpk_iff [OF lt, of S "one_time_pre_key b"] l(6) c(5) bs by simp
  then show "PreKeyBundle_from_bytes S bs = Return (Inr b)"
    using c(1,2) l(4,5) lt by (simp add: from_bytes_unfold index_at_def)
qed

lemma from_bytes_total: "PreKeyBundle_from_bytes S bs \<noteq> Panic"
proof
  assume "PreKeyBundle_from_bytes S bs = Panic"
  then have "\<exists>ib c1. read_field (bs, 0) = Return (Inr (ib, c1)) \<and>
      (read_field c1 = Panic \<or> (\<exists>sb c2. read_field c1 = Return (Inr (sb, c2)) \<and> snd c2 < length bs \<and>
         read_field (bs, snd c2 + 1) = Panic))"
    using pk.fetch_total [of "(bs, 0)"] unfolding from_bytes_unfold
    by (auto simp: try_bind_Panic index_at_def read_otpk_def split: if_splits prod.splits)
  then obtain ib c1 where c1: "read_field (bs, 0) = Return (Inr (ib, c1))"
    "read_field c1 = Panic \<or> (\<exists>sb c2. read_field c1 = Return (Inr (sb, c2)) \<and> snd c2 < length bs \<and>
         read_field (bs, snd c2 + 1) = Panic)" by blast
  have "cur_inside c1" using pk.fetch_sound [OF _ c1(1)] by simp
  then have "read_field c1 \<noteq> Panic" by (rule pk.fetch_total)
  then obtain c2 :: "bytes \<times> nat" where c2: "snd c2 < length bs" "read_field (bs, snd c2 + 1) = Panic" using c1(2) by blast
  then show False using pk.fetch_total [of "(bs, snd c2 + 1)"] by simp
qed

text \<open>The serialized parts of a bundle fit their 4-byte length prefixes.\<close>

definition bundle_fits :: "('spk, 'otk) signal_lib \<Rightarrow> ('spk, 'otk) PreKeyBundle \<Rightarrow> bool" where
  "bundle_fits S b \<longleftrightarrow>
     length (identity_serialize S (identity_key b)) < 2 ^ 32 \<and>
     (\<forall>sb. spk_serialize S (signed_pre_key b) = Some sb \<longrightarrow> length sb < 2 ^ 32) \<and>
     (\<forall>r ob. one_time_pre_key b = Some r \<longrightarrow> otk_serialize S r = Some ob \<longrightarrow> length ob < 2 ^ 32)"

lemma to_bytes_layout:
  assumes "signal_ok S" "bundle_fits S b"
  shows "\<exists>bs. PreKeyBundle_to_bytes S b = Inr bs \<and> bundle_layout S b bs"
proof -
  obtain sb where sb: "spk_serialize S (signed_pre_key b) = Some sb" "length sb < 2 ^ 32"
    "spk_deserialize S sb = Some (signed_pre_key b)"
    using assms unfolding signal_ok_def bundle_fits_def by metis
  have ib: "length (identity_serialize S (identity_key b)) < 2 ^ 32"
    "identity_try_from S (identity_serialize S (identity_key b)) = Some (identity_key b)"
    using assms unfolding signal_ok_def bundle_fits_def by blast+
  obtain rst where rst: "otpk_layout (otk_deserialize S) (one_time_pre_key b) rst"
    "PreKeyBundle_to_bytes S b = Inr (write_len_prefixed (identity_serialize S (identity_key b))
        @ write_len_prefixed sb @ rst)"
  proof (cases "one_time_pre_key b")
    case None
    then show thesis
      using sb(1) by (intro that [of "[0]"]) (simp_all add: otpk_layout_def PreKeyBundle_to_bytes_def)
  next
    case (Some r)
    obtain ob where ob: "otk_serialize S r = Some ob" "otk_deserialize S ob = Some r"
      using assms(1) unfolding signal_ok_def by blast
    moreover have "length ob < 2 ^ 32" using assms(2) Some ob(1) unfolding bundle_fits_def by blast
    ultimately show thesis
      using Some sb(1)
      by (intro that [of "1 # write_len_prefixed ob"]) (auto simp: otpk_layout_def PreKeyBundle_to_bytes_def)
  qed
  then show ?thesis unfolding bundle_layout_def using ib sb by blast
qed

text \<open>The format is prefix-free: no accepted input is a proper prefix of another.\<close>

lemma prefixed_cancel:
  assumes "write_len_prefixed a @ x = write_len_prefixed b @ y" "length a < 2 ^ 32" "length b < 2 ^ 32"
  shows "a = b \<and> x = y"
proof -
  have eq: "be_bytes 4 (length a) = be_bytes 4 (length b)" "a @ x = b @ y"
    using assms(1) by (auto simp: write_len_prefixed_def append_eq_append_conv)
  have "length a = length b" using arg_cong [OF eq(1), of be_nat] assms(2,3) by simp
  then show ?thesis using eq(2) by simp
qed

lemma otpk_layout_prefix_free:
  assumes "otpk_layout d ot rst" "otpk_layout d' ot' (rst @ post)"
  shows "post = []"
proof (cases ot)
  case None
  then show ?thesis using assms by (cases ot') (auto simp: otpk_layout_def)
next
  case (Some r)
  then obtain ob where ob: "rst = 1 # write_len_prefixed ob" "length ob < 2 ^ 32" using assms(1) by (auto simp: otpk_layout_def)
  then obtain ob' where "write_len_prefixed ob @ post = write_len_prefixed ob' @ []" "length ob' < 2 ^ 32"
    using assms(2) by (cases ot') (auto simp: otpk_layout_def)
  then show ?thesis using prefixed_cancel ob(2) by blast
qed

lemma bundle_layout_prefix_free:
  assumes "bundle_layout S b bs" "bundle_layout S b' (bs @ post)"
  shows "post = []"
proof -
  obtain ib sb rst where l: "bs = write_len_prefixed ib @ write_len_prefixed sb @ rst" "length ib < 2 ^ 32"
    "length sb < 2 ^ 32" "otpk_layout (otk_deserialize S) (one_time_pre_key b) rst"
    using assms(1) unfolding bundle_layout_def by blast
  obtain ib' sb' rst' where l': "bs @ post = write_len_prefixed ib' @ write_len_prefixed sb' @ rst'"
    "length ib' < 2 ^ 32" "length sb' < 2 ^ 32" "otpk_layout (otk_deserialize S) (one_time_pre_key b') rst'"
    using assms(2) unfolding bundle_layout_def by blast
  have "write_len_prefixed sb @ rst @ post = write_len_prefixed sb' @ rst'"
    using prefixed_cancel [of ib "write_len_prefixed sb @ rst @ post" ib' "write_len_prefixed sb' @ rst'"] l(1,2) l'(1,2) by simp
  then have "rst' = rst @ post" using prefixed_cancel [of sb "rst @ post" sb' rst'] l(3) l'(3) by simp
  then show ?thesis using otpk_layout_prefix_free l(4) l'(4) by blast
qed

section \<open>The pools\<close>

lemma insert_all_ok:
  assumes "\<forall>r \<in> set rs. otk_id S r \<noteq> None" "hm_wf m"
  shows "\<exists>m'. pool_insert_all S rs m = Inr m' \<and> hm_wf m' \<and>
    dom (map_of m') = dom (map_of m) \<union> (\<lambda>r. the (otk_id S r)) ` set rs \<and>
    (\<forall>i r. map_of m' i = Some r \<longrightarrow> map_of m i = Some r \<or> r \<in> set rs \<and> otk_id S r = Some i)"
  using assms
proof (induction rs arbitrary: m)
  case (Cons r rs)
  then obtain i where i: "otk_id S r = Some i" by auto
  have "hm_wf (hm_insert i r m)" using Cons.prems(2) by (rule hm.invar_insert)
  then obtain m' where m': "pool_insert_all S rs (hm_insert i r m) = Inr m'" "hm_wf m'"
    "dom (map_of m') = dom (map_of (hm_insert i r m)) \<union> (\<lambda>r. the (otk_id S r)) ` set rs"
    "\<forall>j q. map_of m' j = Some q \<longrightarrow> map_of (hm_insert i r m) j = Some q \<or> q \<in> set rs \<and> otk_id S q = Some j"
    using Cons.IH [of "hm_insert i r m"] Cons.prems(1) by (simp del: hm_laws) blast
  have "map_of m j = Some q \<or> q \<in> set (r # rs) \<and> otk_id S q = Some j" if "map_of m' j = Some q" for j q
    using m'(4) that i by (auto split: if_splits)
  then show ?case using i m'(1-3) by auto
qed simp

lemma length_wf_map: "hm_wf m \<Longrightarrow> length m = card (dom (map_of m))"
  using hm.length_keys [of m] by (simp add: hm_keys_def)

lemma unat_next_ids:
  assumes "unat start + n < 2 ^ 32" "j < n"
  shows "unat ((start :: u32) + word_of_nat j) = unat start + j"
  using assms by (simp add: unat_word_ariths unat_of_nat)

text \<open>What the two pools keep: records under their own ids, all ids below the counter.\<close>

definition pool_wf :: "('spk, 'otk) signal_lib \<Rightarrow> 'otk PreKeyPool \<Rightarrow> bool" where
  "pool_wf S p \<longleftrightarrow> hm_wf (available (pkp_inner p)) \<and>
     (\<forall>i r. map_of (available (pkp_inner p)) i = Some r \<longrightarrow>
        otk_id S r = Some i \<and> unat i < unat (pkp_next_id p))"

lemma reserve_ids_run:
  assumes "signal_ok S" "unat (pkp_next_id p) + n < 2 ^ 32"
    and "rs = map (\<lambda>j. otk_new S (pkp_next_id p + word_of_nat j) (sec j)) [0..<n]"
  shows "\<exists>p'. reserve_ids S rs p = (Inr (), p') \<and> pkp_inner p' = pkp_inner p \<and>
    unat (pkp_next_id p') = unat (pkp_next_id p) + n \<and>
    pkp_low_watermark p' = pkp_low_watermark p \<and> pkp_capacity p' = pkp_capacity p"
  using assms(2,3)
proof (induction n arbitrary: p rs sec)
  case (Suc n)
  define i where "i = pkp_next_id p"
  define p1 where "p1 = p\<lparr>pkp_issued := insert i (pkp_issued p), pkp_next_id := max (sat_succ i) (i + 1)\<rparr>"
  have lt: "unat i + 1 < 2 ^ 32" using Suc.prems(1) by (simp add: i_def)
  then have i1: "unat (i + 1) = unat i + 1" by (simp add: unat_word_ariths)
  have "i \<noteq> - 1" using i1 by auto
  then have next1: "pkp_next_id p1 = i + 1" by (simp add: p1_def sat_succ_def)
  define sec1 where "sec1 = (\<lambda>j. sec (Suc j))"
  have rs: "rs = otk_new S i (sec 0) # map (\<lambda>j. otk_new S (pkp_next_id p1 + word_of_nat j) (sec1 j)) [0..<n]"
    unfolding Suc.prems(2) upt_conv_Cons [OF zero_less_Suc] map_Suc_upt [symmetric] next1
    by (simp add: i_def sec1_def algebra_simps)
  have "unat (pkp_next_id p1) + n < 2 ^ 32" using Suc.prems(1) next1 i1 by (simp add: i_def)
  from Suc.IH [OF this refl, of sec1] obtain p' where p':
    "reserve_ids S (map (\<lambda>j. otk_new S (pkp_next_id p1 + word_of_nat j) (sec1 j)) [0..<n]) p1 = (Inr (), p')"
    "pkp_inner p' = pkp_inner p1" "unat (pkp_next_id p') = unat (pkp_next_id p1) + n"
    "pkp_low_watermark p' = pkp_low_watermark p1" "pkp_capacity p' = pkp_capacity p1" by blast
  have "otk_id S (otk_new S i (sec 0)) = Some i" using assms(1) unfolding signal_ok_def by blast
  then have "reserve_ids S rs p = (Inr (), p')" using p'(1) rs by (simp add: p1_def i_def)
  then show ?case using p' next1 i1 by (simp add: p1_def i_def)
qed auto

lemma new_pool_ok:
  assumes "\<forall>r \<in> set rs. otk_id S r \<noteq> None"
  obtains q where "OneTimePreKeyPool_new S rs = Inr q" "hm_wf (available q)"
    "dom (map_of (available q)) = (\<lambda>r. the (otk_id S r)) ` set rs"
    "\<forall>i r. map_of (available q) i = Some r \<longrightarrow> r \<in> set rs \<and> otk_id S r = Some i"
proof -
  obtain m where "pool_insert_all S rs [] = Inr m" "hm_wf m"
    "dom (map_of m) = (\<lambda>r. the (otk_id S r)) ` set rs"
    "\<forall>i r. map_of m i = Some r \<longrightarrow> r \<in> set rs \<and> otk_id S r = Some i"
    using insert_all_ok [OF assms hm.invar_empty] by auto
  then show thesis by (intro that [of "\<lparr>available = m, consumed = {}\<rparr>"]) (auto simp: OneTimePreKeyPool_new_def)
qed

lemma id_range:
  assumes "unat (start :: u32) + n < 2 ^ 32"
  shows "{i. unat start \<le> unat i \<and> unat i < unat start + n} = (\<lambda>j. start + word_of_nat j) ` {0..<n}"
proof (intro equalityI subsetI)
  fix i :: u32 assume i: "i \<in> {i. unat start \<le> unat i \<and> unat i < unat start + n}"
  then have "unat i - unat start < n" by auto
  moreover have "i = start + word_of_nat (unat i - unat start)"
    using i unat_next_ids [OF assms, of "unat i - unat start"] by (simp add: word_unat_eq_iff)
  ultimately show "i \<in> (\<lambda>j. start + word_of_nat j) ` {0..<n}" by auto
qed (use unat_next_ids [OF assms] in auto)

lemma card_id_range:
  assumes "unat (start :: u32) + n < 2 ^ 32"
  shows "card {i :: u32. unat start \<le> unat i \<and> unat i < unat start + n} = n"
proof -
  have "inj_on (\<lambda>j. start + word_of_nat j) {0..<n}"
    using unat_next_ids [OF assms] by (intro inj_onI) (metis add_left_cancel atLeastLessThan_iff)
  then show ?thesis by (simp add: id_range [OF assms] card_image)
qed

lemma generated_ids:
  assumes "signal_ok S" "unat start + n < 2 ^ 32"
    and "rs = generate_one_time_pre_keys S sec start (word_of_nat n)"
  shows "rs = map (\<lambda>j. otk_new S (start + word_of_nat j) (sec j)) [0..<n]"
    and "\<forall>r \<in> set rs. otk_id S r \<noteq> None"
    and "(\<lambda>r. the (otk_id S r)) ` set rs = {i. unat start \<le> unat i \<and> unat i < unat start + n}"
proof -
  have "unat (word_of_nat n :: u32) = n" using assms(2) by (simp add: unat_of_nat)
  then show rs: "rs = map (\<lambda>j. otk_new S (start + word_of_nat j) (sec j)) [0..<n]"
    using assms(3) by (simp add: generate_one_time_pre_keys_def)
  have ids: "otk_id S (otk_new S i k) = Some i" for i k using assms(1) unfolding signal_ok_def by blast
  show "\<forall>r \<in> set rs. otk_id S r \<noteq> None" by (auto simp: rs ids)
  have "(\<lambda>r. the (otk_id S r)) ` set rs = (\<lambda>j. start + word_of_nat j) ` {0..<n}"
    by (simp add: rs ids image_image)
  also have "\<dots> = {i. unat start \<le> unat i \<and> unat i < unat start + n}"
    by (rule id_range [OF assms(2), symmetric])
  finally show "(\<lambda>r. the (otk_id S r)) ` set rs = {i. unat start \<le> unat i \<and> unat i < unat start + n}" .
qed

text \<open>Rebuilding the inner pool from what it holds and further records.\<close>

lemma rebuilt_pool:
  assumes wf: "hm_wf av" and ids: "\<And>i r. map_of av i = Some r \<Longrightarrow> otk_id S r = Some i"
    and new: "\<forall>r \<in> set rs. otk_id S r \<noteq> None"
  obtains q where "OneTimePreKeyPool_new S (map snd av @ rs) = Inr q" "hm_wf (available q)"
    "dom (map_of (available q)) = dom (map_of av) \<union> (\<lambda>r. the (otk_id S r)) ` set rs"
    "\<forall>i r. map_of (available q) i = Some r \<longrightarrow> otk_id S r = Some i"
proof -
  have old: "otk_id S r = Some i" if "(i, r) \<in> set av" for i r
    using that wf ids by (metis hm_wf_def map_of_is_SomeI)
  have "(\<lambda>r. the (otk_id S r)) ` snd ` set av = fst ` set av"
    unfolding image_image by (intro image_cong refl) (use old in auto)
  then have oldids: "(\<lambda>r. the (otk_id S r)) ` set (map snd av) = dom (map_of av)"
    by (simp add: dom_map_of_conv_image_fst)
  have "\<forall>r \<in> set (map snd av @ rs). otk_id S r \<noteq> None" using new old by auto
  then obtain q where "OneTimePreKeyPool_new S (map snd av @ rs) = Inr q" "hm_wf (available q)"
    "dom (map_of (available q)) = (\<lambda>r. the (otk_id S r)) ` set (map snd av @ rs)"
    "\<forall>i r. map_of (available q) i = Some r \<longrightarrow> r \<in> set (map snd av @ rs) \<and> otk_id S r = Some i"
    by (rule new_pool_ok)
  then show thesis using that oldids by (simp add: image_Un)
qed

lemma replenish_ok:
  assumes "signal_ok S" "pool_wf S p" "n = target - PreKeyPool_remaining p" "unat (pkp_next_id p) + n < 2 ^ 32"
  obtains p' where "PreKeyPool_replenish_to_target S sec target p = (Inr (), p')" "pool_wf S p'"
    "unat (pkp_next_id p') = unat (pkp_next_id p) + n"
    "dom (map_of (available (pkp_inner p'))) = dom (map_of (available (pkp_inner p)))
       \<union> {i. unat (pkp_next_id p) \<le> unat i \<and> unat i < unat (pkp_next_id p) + n}"
    "PreKeyPool_remaining p' = PreKeyPool_remaining p + n"
proof (cases "n = 0")
  case True
  then have r: "PreKeyPool_replenish_to_target S sec target p = (Inr (), p)"
    using assms(3) by (simp add: PreKeyPool_replenish_to_target_def PreKeyPool_remaining_def)
  show thesis by (rule that [OF r assms(2)]) (use True in auto)
next
  case False
  let ?av = "available (pkp_inner p)"
  define rs where "rs = generate_one_time_pre_keys S sec (pkp_next_id p) (word_of_nat n)"
  note g = generated_ids [OF assms(1,4) rs_def]
  obtain p1 where p1: "reserve_ids S rs p = (Inr (), p1)" "pkp_inner p1 = pkp_inner p"
    "unat (pkp_next_id p1) = unat (pkp_next_id p) + n"
    using reserve_ids_run [OF assms(1,4) g(1)] by blast
  have wf: "hm_wf ?av" "\<And>i r. map_of ?av i = Some r \<Longrightarrow> otk_id S r = Some i \<and> unat i < unat (pkp_next_id p)"
    using assms(2) by (auto simp: pool_wf_def)
  have ids: "\<And>i r. map_of ?av i = Some r \<Longrightarrow> otk_id S r = Some i" using wf(2) by simp
  obtain q where q: "OneTimePreKeyPool_new S (map snd ?av @ rs) = Inr q" "hm_wf (available q)"
    "dom (map_of (available q)) = dom (map_of ?av) \<union> (\<lambda>r. the (otk_id S r)) ` set rs"
    "\<forall>i r. map_of (available q) i = Some r \<longrightarrow> otk_id S r = Some i"
    by (rule rebuilt_pool [OF wf(1) ids g(2)])
  define p' where "p' = p1\<lparr>pkp_inner := q\<rparr>"
  let ?new = "{i. unat (pkp_next_id p) \<le> unat i \<and> unat i < unat (pkp_next_id p) + n}"
  have dom: "dom (map_of (available q)) = dom (map_of ?av) \<union> ?new" using q(3) g(3) by simp
  have oldlt: "unat i < unat (pkp_next_id p)" if "i \<in> dom (map_of ?av)" for i using that wf(2) by auto
  have "dom (map_of ?av) \<inter> ?new = {}" using oldlt by (fastforce simp: not_le [symmetric])
  then have "card (dom (map_of (available q))) = card (dom (map_of ?av)) + n"
    unfolding dom using card_id_range [OF assms(4)]
    by (subst card_Un_disjoint) (simp_all add: finite_dom_map_of)
  then have rem: "PreKeyPool_remaining p' = PreKeyPool_remaining p + n"
    using length_wf_map [OF q(2)] length_wf_map [OF wf(1)]
    by (simp add: PreKeyPool_remaining_def OneTimePreKeyPool_remaining_def p'_def)
  have "pool_wf S p'"
    unfolding pool_wf_def
  proof (intro conjI allI impI)
    fix i r assume m: "map_of (available (pkp_inner p')) i = Some r"
    then show "otk_id S r = Some i" using q(4) by (simp add: p'_def)
    have "i \<in> dom (map_of ?av) \<union> ?new" using m dom by (auto simp: p'_def)
    then show "unat i < unat (pkp_next_id p')"
    proof
      assume "i \<in> dom (map_of ?av)"
      from oldlt [OF this] show ?thesis using p1(3) by (simp add: p'_def)
    qed (use p1(3) in \<open>simp add: p'_def\<close>)
  qed (use q(2) in \<open>simp add: p'_def\<close>)
  moreover have "PreKeyPool_replenish_to_target S sec target p = (Inr (), p')"
    using False p1(1,2) q(1) assms(3)
    by (simp add: PreKeyPool_replenish_to_target_def PreKeyPool_remaining_def rs_def p'_def Let_def)
  ultimately show thesis using that [of p'] p1(3) dom rem by (simp add: p'_def)
qed

lemma with_low_watermark_ok:
  assumes "signal_ok S" "max w 1 + 1 < 2 ^ 32"
  obtains p where "PreKeyPool_with_low_watermark S sec w = Return p" "pool_wf S p"
    "unat (pkp_next_id p) = max w 1 + 1"
proof -
  define n where "n = max w 1"
  define rs where "rs = generate_one_time_pre_keys S sec 1 (word_of_nat n)"
  have fit: "unat (1 :: u32) + n < 2 ^ 32" using assms(2) by (simp add: n_def)
  note g = generated_ids [OF assms(1) fit rs_def]
  obtain q where q: "OneTimePreKeyPool_new S rs = Inr q" "hm_wf (available q)"
    "dom (map_of (available q)) = (\<lambda>r. the (otk_id S r)) ` set rs"
    "\<forall>i r. map_of (available q) i = Some r \<longrightarrow> r \<in> set rs \<and> otk_id S r = Some i"
    by (rule new_pool_ok [OF g(2)])
  define p where "p = \<lparr>pkp_inner = q, pkp_capacity = n, pkp_low_watermark = n,
      pkp_next_id = word_of_nat n + 1, pkp_issued = {}\<rparr>"
  have nx: "unat (pkp_next_id p) = n + 1"
    using fit by (simp add: p_def unat_word_ariths unat_of_nat)
  have "unat i < unat (pkp_next_id p)" if "map_of (available q) i = Some r" for i r
    using that q(3) g(3) nx by (auto simp: dom_def)
  then have "pool_wf S p" using q(2,4) by (simp add: pool_wf_def p_def)
  moreover have "PreKeyPool_with_low_watermark S sec w = Return p"
    using q(1) unfolding PreKeyPool_with_low_watermark_def Let_def n_def [symmetric]
    by (simp add: rs_def p_def)
  ultimately show thesis using that nx by (simp add: n_def)
qed

lemma take_one_time_ok:
  assumes "pool_wf S p"
  shows "(PreKeyPool_take_one_time p = (Return None, p) \<and> available (pkp_inner p) = []) \<or>
    (\<exists>i r p'. PreKeyPool_take_one_time p = (Return (Some r), p') \<and>
       map_of (available (pkp_inner p)) i = Some r \<and> otk_id S r = Some i \<and>
       (\<forall>j \<in> dom (map_of (available (pkp_inner p))). i \<le> j) \<and>
       available (pkp_inner p') = hm_remove i (available (pkp_inner p)) \<and>
       pkp_next_id p' = pkp_next_id p)"
proof (cases "sort (hm_keys (available (pkp_inner p)))")
  case Nil
  then show ?thesis
    by (auto simp: PreKeyPool_take_one_time_def hm_keys_def dest: arg_cong [of _ _ length])
next
  case (Cons i ids)
  have wf: "hm_wf (available (pkp_inner p))" using assms by (simp add: pool_wf_def)
  have set: "set (i # ids) = dom (map_of (available (pkp_inner p)))"
    using hm.set_keys [OF wf] Cons by (metis set_sort)
  have "sorted (i # ids)" using sorted_sort [of "hm_keys (available (pkp_inner p))"] Cons by simp
  then have least: "\<forall>j \<in> dom (map_of (available (pkp_inner p))). i \<le> j" using set by auto
  obtain r where r: "map_of (available (pkp_inner p)) i = Some r" using set by auto
  then show ?thesis
    using Cons assms least by (simp add: PreKeyPool_take_one_time_def OneTimePreKeyPool_take_def pool_wf_def)
qed

section \<open>Histories of the pool\<close>

text \<open>Takes and refills in any order, and the ids handed out, oldest first.\<close>

datatype pool_op = Take | Replenish nat "nat \<Rightarrow> bytes"

fun pool_apply :: "('spk, 'otk) signal_lib \<Rightarrow> pool_op \<Rightarrow> 'otk PreKeyPool \<Rightarrow> 'otk PreKeyPool" where
  "pool_apply S Take p = snd (PreKeyPool_take_one_time p)"
| "pool_apply S (Replenish target secrets) p = snd (PreKeyPool_replenish_to_target S secrets target p)"

fun handed_out :: "('spk, 'otk) signal_lib \<Rightarrow> pool_op list \<Rightarrow> 'otk PreKeyPool \<Rightarrow> u32 list" where
  "handed_out S [] p = []"
| "handed_out S (Take # xs) p =
     (case PreKeyPool_take_one_time p of
        (Return (Some r), p') \<Rightarrow> the (otk_id S r) # handed_out S xs p'
      | (_, p') \<Rightarrow> handed_out S xs p')"
| "handed_out S (x # xs) p = handed_out S xs (pool_apply S x p)"

text \<open>The id counter stays inside 32 bits along the history.\<close>

fun ids_fit :: "('spk, 'otk) signal_lib \<Rightarrow> pool_op list \<Rightarrow> 'otk PreKeyPool \<Rightarrow> bool" where
  "ids_fit S [] p = True"
| "ids_fit S (Take # xs) p = ids_fit S xs (pool_apply S Take p)"
| "ids_fit S (Replenish target secrets # xs) p =
     (unat (pkp_next_id p) + (target - PreKeyPool_remaining p) < 2 ^ 32 \<and>
      ids_fit S xs (pool_apply S (Replenish target secrets) p))"

lemma pool_wf_remove:
  assumes "pool_wf S p" "available (pkp_inner p') = hm_remove i (available (pkp_inner p))"
    "pkp_next_id p' = pkp_next_id p"
  shows "pool_wf S p'"
  using assms hm_wf_remove by (auto simp: pool_wf_def split: if_splits)

text \<open>Ids handed out later are still in the pool or not yet minted.\<close>

text \<open>Taking a prekey removes its id from what can still be handed out and adds none.\<close>

lemma take_step_fresh:
  assumes "pool_wf S p" "map_of (available (pkp_inner p)) i = Some r"
    and "available (pkp_inner p') = hm_remove i (available (pkp_inner p))" "pkp_next_id p' = pkp_next_id p"
    and later: "\<forall>j \<in> X. j \<in> dom (map_of (available (pkp_inner p'))) \<or> unat (pkp_next_id p') \<le> unat j"
  shows "i \<notin> X \<and> (\<forall>j \<in> X. j \<in> dom (map_of (available (pkp_inner p))) \<or> unat (pkp_next_id p) \<le> unat j)"
proof -
  have "unat i < unat (pkp_next_id p)" using assms(1,2) by (auto simp: pool_wf_def)
  then show ?thesis using later assms(3,4) by (auto split: if_splits)
qed

lemma handed_out_fresh:
  assumes "signal_ok S" "pool_wf S p" "ids_fit S xs p"
  shows "distinct (handed_out S xs p) \<and>
    (\<forall>i \<in> set (handed_out S xs p). i \<in> dom (map_of (available (pkp_inner p))) \<or>
       unat (pkp_next_id p) \<le> unat i)"
  using assms(2,3)
proof (induction xs arbitrary: p)
  case (Cons x xs)
  show ?case
  proof (cases x)
    case Take
    show ?thesis
      using take_one_time_ok [OF Cons.prems(1)]
    proof (elim disjE exE conjE)
      assume "PreKeyPool_take_one_time p = (Return None, p)"
      then show ?thesis using Cons Take by simp
    next
      fix i r p'
      assume t: "PreKeyPool_take_one_time p = (Return (Some r), p')"
        "map_of (available (pkp_inner p)) i = Some r" "otk_id S r = Some i"
        "available (pkp_inner p') = hm_remove i (available (pkp_inner p))" "pkp_next_id p' = pkp_next_id p"
      have wf: "pool_wf S p'" by (rule pool_wf_remove [OF Cons.prems(1) t(4,5)])
      have fit: "ids_fit S xs p'" using Cons.prems(2) Take t(1) by simp
      note IH = Cons.IH [OF wf fit]
      show ?thesis using Take t(1-3) IH take_step_fresh [OF Cons.prems(1) t(2,4,5), of "set (handed_out S xs p')"] by auto
    qed
  next
    case (Replenish target sec)
    define n where "n = target - PreKeyPool_remaining p"
    have fit: "unat (pkp_next_id p) + n < 2 ^ 32" using Cons.prems(2) Replenish by (simp add: n_def)
    obtain p' where p': "PreKeyPool_replenish_to_target S sec target p = (Inr (), p')" "pool_wf S p'"
      "unat (pkp_next_id p') = unat (pkp_next_id p) + n"
      "dom (map_of (available (pkp_inner p'))) = dom (map_of (available (pkp_inner p)))
         \<union> {i. unat (pkp_next_id p) \<le> unat i \<and> unat i < unat (pkp_next_id p) + n}"
      by (rule replenish_ok [OF assms(1) Cons.prems(1) n_def fit])
    have "ids_fit S xs p'" using Cons.prems(2) Replenish p'(1) by simp
    note IH = Cons.IH [OF p'(2) this]
    have "j \<in> dom (map_of (available (pkp_inner p))) \<or> unat (pkp_next_id p) \<le> unat j"
      if "j \<in> set (handed_out S xs p')" for j
    proof -
      have "j \<in> dom (map_of (available (pkp_inner p'))) \<or> unat (pkp_next_id p') \<le> unat j"
        using IH that by blast
      then show ?thesis unfolding p'(3,4) by auto
    qed
    then show ?thesis using IH Replenish p'(1) by simp
  qed
qed simp

section \<open>A concrete library\<close>

text \<open>
  Records as pairs, for the witnesses: a signed prekey is its key and signature (serialized with
  the key's length in unary), a one-time prekey is its id, a signature is the key and the message.
\<close>

definition demo_spk_bytes :: "bytes \<times> bytes \<Rightarrow> bytes" where
  "demo_spk_bytes r = replicate (length (fst r)) 1 @ [0] @ fst r @ snd r"

definition demo_spk_parse :: "bytes \<Rightarrow> bytes \<times> bytes" where
  "demo_spk_parse b =
     (let n = length (takeWhile (\<lambda>x. x = 1) b) in (take n (drop (n + 1) b), drop (n + 1 + n) b))"

definition demo_signal :: "(bytes \<times> bytes, u32) signal_lib" where
  "demo_signal =
     \<lparr>otk_new = (\<lambda>i k. i), otk_id = Some, otk_serialize = (\<lambda>i. Some (be_bytes 4 (unat i))),
      otk_deserialize = (\<lambda>b. Some (word_of_nat (be_nat b))),
      spk_new = (\<lambda>i t k s. (k, s)), spk_public_key = (\<lambda>r. Some (fst r)),
      spk_signature = (\<lambda>r. Some (snd r)), spk_serialize = (\<lambda>r. Some (demo_spk_bytes r)),
      spk_deserialize = (\<lambda>b. Some (demo_spk_parse b)),
      key_public = (\<lambda>k. k), sign = (\<lambda>k m r. Some (k @ m)), verify_signature = (\<lambda>k m s. s = k @ m),
      identity_serialize = (\<lambda>k. k), identity_try_from = Some\<rparr>"

lemma demo_spk_round_trip: "demo_spk_parse (demo_spk_bytes r) = r"
proof -
  have "takeWhile (\<lambda>x. x = 1) (demo_spk_bytes r) = replicate (length (fst r)) 1"
    by (simp add: demo_spk_bytes_def takeWhile_append)
  then have "length (takeWhile (\<lambda>x. x = 1) (demo_spk_bytes r)) = length (fst r)" by simp
  then show ?thesis by (simp add: demo_spk_parse_def Let_def) (simp add: demo_spk_bytes_def)
qed

lemma demo_signal_ok: "signal_ok demo_signal"
  by (simp add: signal_ok_def demo_signal_def demo_spk_round_trip)

section \<open>Properties\<close>

text \<open>
  C14: However takes and refills alternate, a pool created by \<open>with_low_watermark\<close> never hands out
  the same one-time prekey id twice, as long as its id counter stays inside 32 bits.
\<close>

theorem one_time_prekeys_never_repeat:
  assumes "signal_ok S" "max w 1 + 1 < 2 ^ 32"
    and "PreKeyPool_with_low_watermark S secrets w = Return p" "ids_fit S ops p"
  shows "distinct (handed_out S ops p)"
proof -
  have "pool_wf S p" using with_low_watermark_ok [OF assms(1,2), of secrets] assms(3) by (metis run.inject)
  then show ?thesis using handed_out_fresh [OF assms(1) _ assms(4)] by blast
qed

theorem one_time_prekeys_never_repeat_witness:
  "\<exists>p. PreKeyPool_with_low_watermark demo_signal (\<lambda>_. []) 2 = Return p \<and>
     distinct (handed_out demo_signal [Replenish 4 (\<lambda>_. []), Take, Take] p)"
proof -
  obtain p where p: "PreKeyPool_with_low_watermark demo_signal (\<lambda>_. []) 2 = Return p"
    "unat (pkp_next_id p) = max 2 1 + 1"
    by (rule with_low_watermark_ok [OF demo_signal_ok, of 2]) simp
  have "ids_fit demo_signal [Replenish 4 (\<lambda>_. []), Take, Take] p" using p(2) by simp
  then have "distinct (handed_out demo_signal [Replenish 4 (\<lambda>_. []), Take, Take] p)"
    by (rule one_time_prekeys_never_repeat [OF demo_signal_ok _ p(1), rotated]) simp
  then show ?thesis using p(1) by blast
qed

text \<open>
  C15: A refill that does not exhaust the id space succeeds, brings the pool to exactly
  \<open>max remaining target\<close> prekeys, keeps the id of every prekey that was there, and keeps the pool
  well formed.
\<close>

theorem replenish_reaches_target:
  assumes "signal_ok S" "pool_wf S p"
    and "unat (pkp_next_id p) + (target - PreKeyPool_remaining p) < 2 ^ 32"
  shows "\<exists>p'. PreKeyPool_replenish_to_target S secrets target p = (Inr (), p') \<and> pool_wf S p' \<and>
    PreKeyPool_remaining p' = max (PreKeyPool_remaining p) target \<and>
    set (PreKeyPool_snapshot_ids p) \<subseteq> set (PreKeyPool_snapshot_ids p')"
proof -
  obtain p' where p': "PreKeyPool_replenish_to_target S secrets target p = (Inr (), p')" "pool_wf S p'"
    "dom (map_of (available (pkp_inner p'))) = dom (map_of (available (pkp_inner p)))
       \<union> {i. unat (pkp_next_id p) \<le> unat i \<and>
            unat i < unat (pkp_next_id p) + (target - PreKeyPool_remaining p)}"
    "PreKeyPool_remaining p' = PreKeyPool_remaining p + (target - PreKeyPool_remaining p)"
    by (rule replenish_ok [OF assms(1,2) refl assms(3)])
  have ids: "set (PreKeyPool_snapshot_ids q) = dom (map_of (available (pkp_inner q)))" if "pool_wf S q" for q
    using hm.set_keys that by (auto simp: PreKeyPool_snapshot_ids_def pool_wf_def)
  show ?thesis using p' ids [OF assms(2)] ids [OF p'(2)] by (intro exI [of _ p']) auto
qed

theorem replenish_reaches_target_witness:
  "\<exists>p'. PreKeyPool_replenish_to_target demo_signal (\<lambda>_. []) 5
      \<lparr>pkp_inner = \<lparr>available = [(3, 3)], consumed = {}\<rparr>, pkp_capacity = 1, pkp_low_watermark = 1,
       pkp_next_id = 7, pkp_issued = {}\<rparr> = (Inr (), p') \<and> PreKeyPool_remaining p' = 5"
proof -
  let ?p = "\<lparr>pkp_inner = \<lparr>available = [(3, 3)], consumed = {}\<rparr>, pkp_capacity = 1, pkp_low_watermark = 1,
       pkp_next_id = 7, pkp_issued = {}\<rparr>"
  have r: "PreKeyPool_remaining ?p = 1"
    by (simp add: PreKeyPool_remaining_def OneTimePreKeyPool_remaining_def)
  have w: "pool_wf demo_signal ?p" by (simp add: pool_wf_def hm_wf_def demo_signal_def)
  have "unat (pkp_next_id ?p) + (5 - PreKeyPool_remaining ?p) < 2 ^ 32" unfolding r by simp
  from replenish_reaches_target [OF demo_signal_ok w this, of "\<lambda>_. []"] show ?thesis unfolding r by auto
qed

text \<open>
  At the end of the id space the pool does repeat itself: with the counter at \<open>u32::MAX\<close> two
  refills around a take both mint, and the two takes both hand out, the id \<open>u32::MAX\<close>.
\<close>

theorem exhausted_ids_repeat:
  assumes "signal_ok S"
  shows "handed_out S [Replenish 1 sec, Take, Replenish 1 sec', Take]
      \<lparr>pkp_inner = \<lparr>available = [], consumed = {}\<rparr>, pkp_capacity = 1, pkp_low_watermark = 1,
       pkp_next_id = - 1, pkp_issued = {}\<rparr> = [- 1, - 1]"
proof -
  have ids: "otk_id S (otk_new S i k) = Some i" for i k using assms unfolding signal_ok_def by blast
  show ?thesis
    by (simp add: PreKeyPool_replenish_to_target_def OneTimePreKeyPool_remaining_def
        generate_one_time_pre_keys_def ids sat_succ_def OneTimePreKeyPool_new_def hm_insert_def
        hm_remove_def PreKeyPool_take_one_time_def hm_keys_def OneTimePreKeyPool_take_def)
qed

theorem exhausted_ids_repeat_witness:
  "handed_out demo_signal [Replenish 1 (\<lambda>_. []), Take, Replenish 1 (\<lambda>_. []), Take]
      \<lparr>pkp_inner = \<lparr>available = [], consumed = {}\<rparr>, pkp_capacity = 1, pkp_low_watermark = 1,
       pkp_next_id = - 1, pkp_issued = {}\<rparr> = [- 1, - 1]"
  by (rule exhausted_ids_repeat [OF demo_signal_ok])

text \<open>
  The byte form of a bundle is read back to the same bundle; parsing never panics on any
  input; and whatever parses has exactly the documented layout, with nothing after it.
\<close>

theorem bundle_bytes_round_trip:
  assumes "signal_ok S" "bundle_fits S b"
  shows "(\<exists>bs. PreKeyBundle_to_bytes S b = Inr bs \<and> PreKeyBundle_from_bytes S bs = Return (Inr b)) \<and>
    (\<forall>bs. PreKeyBundle_from_bytes S bs \<noteq> Panic) \<and>
    (\<forall>bs b'. PreKeyBundle_from_bytes S bs = Return (Inr b') \<longrightarrow> bundle_layout S b' bs)"
  using to_bytes_layout [OF assms] by (auto simp: from_bytes_iff from_bytes_total)

theorem bundle_bytes_round_trip_witness:
  "\<exists>bs. PreKeyBundle_to_bytes demo_signal
       \<lparr>identity_key = [5], signed_pre_key = ([1], [2, 3]), one_time_pre_key = Some 9\<rparr> = Inr bs \<and>
     PreKeyBundle_from_bytes demo_signal bs =
       Return (Inr \<lparr>identity_key = [5], signed_pre_key = ([1], [2, 3]), one_time_pre_key = Some 9\<rparr>)"
  using bundle_bytes_round_trip [OF demo_signal_ok,
      of "\<lparr>identity_key = [5], signed_pre_key = ([1], [2, 3]), one_time_pre_key = Some 9\<rparr>"]
  by (simp add: bundle_fits_def demo_signal_def demo_spk_bytes_def)

text \<open>
  A signed prekey produced for an identity verifies under that identity's public key, so a
  bundle built from it passes \<open>verify_pre_key_bundle\<close>; and a bundle passes only if its signature
  verifies over its prekey under its own identity key.
\<close>

theorem signed_prekey_verifies:
  assumes "signal_ok S"
  shows "(\<exists>spk. generate_signed_pre_key S identity i ts secret rnd = Return spk \<and>
      verify_pre_key_bundle S \<lparr>identity_key = key_public S identity, signed_pre_key = spk,
        one_time_pre_key = ot\<rparr> = Inr ()) \<and>
    (\<forall>b. verify_pre_key_bundle S b = Inr () \<longrightarrow>
       (\<exists>pub sig. spk_public_key S (signed_pre_key b) = Some pub \<and>
          spk_signature S (signed_pre_key b) = Some sig \<and> verify_signature S (identity_key b) pub sig))"
proof
  obtain s where "sign S identity (key_public S secret) rnd = Some s"
    "verify_signature S (key_public S identity) (key_public S secret) s"
    using assms unfolding signal_ok_def by blast
  moreover have "spk_public_key S (spk_new S i ts secret s) = Some (key_public S secret)"
    "spk_signature S (spk_new S i ts secret s) = Some s"
    using assms unfolding signal_ok_def by blast+
  ultimately show "\<exists>spk. generate_signed_pre_key S identity i ts secret rnd = Return spk \<and>
      verify_pre_key_bundle S \<lparr>identity_key = key_public S identity, signed_pre_key = spk,
        one_time_pre_key = ot\<rparr> = Inr ()"
    by (simp add: generate_signed_pre_key_def verify_pre_key_bundle_def verify_signed_pre_key_def)
  show "\<forall>b. verify_pre_key_bundle S b = Inr () \<longrightarrow>
       (\<exists>pub sig. spk_public_key S (signed_pre_key b) = Some pub \<and>
          spk_signature S (signed_pre_key b) = Some sig \<and> verify_signature S (identity_key b) pub sig)"
    by (auto simp: verify_pre_key_bundle_def verify_signed_pre_key_def split: option.splits if_splits)
qed

theorem signed_prekey_verifies_witness:
  "\<exists>spk. generate_signed_pre_key demo_signal [1] 7 0 [2] [] = Return spk \<and>
     verify_pre_key_bundle demo_signal \<lparr>identity_key = key_public demo_signal [1], signed_pre_key = spk,
       one_time_pre_key = None\<rparr> = Inr ()"
  using signed_prekey_verifies [OF demo_signal_ok, of "[1]" 7 0 "[2]" "[]" None] by blast

end
