(* ===== verification/Session_Bundle.thy ===== *)
theory Session_Bundle
  imports Prekey
begin

text \<open>
  The byte form of a PQXDH bundle (\<open>bundle_to_bytes\<close>, \<open>bundle_from_bytes\<close> and their readers in
  \<open>core/crypto/src/session.rs\<close>) and the assembly of a bundle. libsignal's bundle is a record of
  its accessors' values with keys in serialized form; its key parsers, device-id check and
  constructor are the parameter record \<open>session_lib\<close>.
\<close>

section \<open>The library's bundle\<close>

text \<open>The variants of \<open>SignalProtocolError\<close> the code names; every other one is \<open>OtherSignalError\<close>.\<close>

datatype SignalProtocolError =
    SessionNotFound
  | UntrustedSignalIdentity
  | InvalidMessage
  | CiphertextMessageTooShort
  | LegacyCiphertextVersion
  | UnrecognizedCiphertextVersion
  | UnrecognizedMessageVersion
  | InvalidProtobufEncoding
  | SignatureValidationFailed
  | InvalidArgument string
  | OtherSignalError string

record SigBundle =
  sb_registration_id :: u32
  sb_device_id :: u8
  sb_pre_key_id :: "u32 option"
  sb_pre_key_public :: "bytes option"
  sb_signed_pre_key_id :: u32
  sb_signed_pre_key_public :: bytes
  sb_signed_pre_key_signature :: bytes
  sb_kyber_pre_key_id :: u32
  sb_kyber_pre_key_public :: bytes
  sb_kyber_pre_key_signature :: bytes
  sb_identity_key :: bytes

text \<open>
  Whether serialized bytes parse as a key of the kind, whether a device id is valid, and the
  bundle constructor. A parsed key serializes back to the bytes it was parsed from, so a key is
  represented by those bytes.
\<close>

record session_lib =
  identity_parses :: "bytes \<Rightarrow> bool"
  public_parses :: "bytes \<Rightarrow> bool"
  kyber_parses :: "bytes \<Rightarrow> bool"
  device_valid :: "u8 \<Rightarrow> bool"
  bundle_new :: "SigBundle \<Rightarrow> SignalProtocolError + SigBundle"

text \<open>
  The accessors of libsignal's prekey records; a record may be unreadable, so each may fail.
  Keys are in serialized form.
\<close>

record ('spk, 'otk, 'kpk) record_lib =
  get_otk_id :: "'otk \<Rightarrow> SignalProtocolError + u32"
  get_otk_public :: "'otk \<Rightarrow> SignalProtocolError + bytes"
  get_spk_id :: "'spk \<Rightarrow> SignalProtocolError + u32"
  get_spk_public :: "'spk \<Rightarrow> SignalProtocolError + bytes"
  get_spk_signature :: "'spk \<Rightarrow> SignalProtocolError + bytes"
  get_kpk_id :: "'kpk \<Rightarrow> SignalProtocolError + u32"
  get_kpk_public :: "'kpk \<Rightarrow> SignalProtocolError + bytes"
  get_kpk_signature :: "'kpk \<Rightarrow> SignalProtocolError + bytes"

definition build_prekey_bundle ::
  "session_lib \<Rightarrow> ('spk, 'otk, 'kpk) record_lib \<Rightarrow> u32 \<Rightarrow> u8 \<Rightarrow> bytes \<Rightarrow> 'spk \<Rightarrow> 'kpk \<Rightarrow> 'otk option \<Rightarrow>
   SignalProtocolError + SigBundle" where
  "build_prekey_bundle L A registration_id device_id ik signed_prekey kyber_prekey one_time_prekey =
     and_then (case one_time_prekey of
         None \<Rightarrow> Inr None
       | Some r \<Rightarrow> and_then (get_otk_id A r) (\<lambda>i. and_then (get_otk_public A r) (\<lambda>p. Inr (Some (i, p))))) (\<lambda>otpk.
     and_then (get_spk_id A signed_prekey) (\<lambda>spk_id.
     and_then (get_spk_public A signed_prekey) (\<lambda>spk_pub.
     and_then (get_spk_signature A signed_prekey) (\<lambda>spk_sig.
     and_then (get_kpk_id A kyber_prekey) (\<lambda>kyber_id.
     and_then (get_kpk_public A kyber_prekey) (\<lambda>kyber_pub.
     and_then (get_kpk_signature A kyber_prekey) (\<lambda>kyber_sig.
       bundle_new L
         \<lparr>sb_registration_id = registration_id, sb_device_id = device_id,
          sb_pre_key_id = map_option fst otpk, sb_pre_key_public = map_option snd otpk,
          sb_signed_pre_key_id = spk_id, sb_signed_pre_key_public = spk_pub,
          sb_signed_pre_key_signature = spk_sig, sb_kyber_pre_key_id = kyber_id,
          sb_kyber_pre_key_public = kyber_pub, sb_kyber_pre_key_signature = kyber_sig,
          sb_identity_key = ik\<rparr>)))))))"

section \<open>Writing\<close>

definition write_u32_prefixed :: "bytes \<Rightarrow> bytes" where
  "write_u32_prefixed segment = be_bytes 4 (length segment) @ segment"

definition write_u32 :: "u32 \<Rightarrow> bytes" where
  "write_u32 x = be_bytes 4 (unat x)"

definition bundle_to_bytes :: "SigBundle \<Rightarrow> SignalProtocolError + bytes" where
  "bundle_to_bytes b =
     (let buf = write_u32 (sb_registration_id b) @ write_u32 (ucast (sb_device_id b))
                @ write_u32_prefixed (sb_identity_key b)
                @ write_u32 (sb_signed_pre_key_id b)
                @ write_u32_prefixed (sb_signed_pre_key_public b)
                @ write_u32_prefixed (sb_signed_pre_key_signature b)
                @ write_u32 (sb_kyber_pre_key_id b)
                @ write_u32_prefixed (sb_kyber_pre_key_public b)
                @ write_u32_prefixed (sb_kyber_pre_key_signature b)
      in (case sb_pre_key_id b of
            Some otpk_id \<Rightarrow>
              (case sb_pre_key_public b of
                 None \<Rightarrow> Inl (InvalidArgument ''pre_key_id present but pre_key_public missing'')
               | Some otpk_pub \<Rightarrow>
                   Inr (buf @ [1] @ write_u32 otpk_id @ write_u32_prefixed otpk_pub))
          | None \<Rightarrow> Inr (buf @ [0])))"

section \<open>Reading\<close>

definition read_u32 :: "bytes \<times> nat \<Rightarrow> (SignalProtocolError + u32 \<times> (bytes \<times> nat)) run" where
  "read_u32 c =
     (let bs = fst c; offset = snd c in
      if offset > length bs then Panic
      else if length bs - offset < 4 then Return (Inl (InvalidArgument ''truncated: missing 4-byte field''))
      else
        run_bind (index_at bs offset) (\<lambda>b0.
        run_bind (index_at bs (offset + 1)) (\<lambda>b1.
        run_bind (index_at bs (offset + 2)) (\<lambda>b2.
        run_bind (index_at bs (offset + 3)) (\<lambda>b3.
          Return (Inr (word_of_nat (be_nat [b0, b1, b2, b3]), (bs, offset + 4))))))))"

definition read_u32_prefixed :: "bytes \<times> nat \<Rightarrow> (SignalProtocolError + bytes \<times> (bytes \<times> nat)) run" where
  "read_u32_prefixed c =
     try_bind (read_u32 c) (\<lambda>(n, c).
       let bs = fst c; offset = snd c; len = unat n in
       if offset > length bs then Panic
       else if len > length bs - offset
       then Return (Inl (InvalidArgument ''truncated: declared segment longer than remaining bytes''))
       else run_bind (slice_range bs offset (offset + len)) (\<lambda>segment.
         Return (Inr (segment, (bs, offset + len)))))"

definition parse_as :: "(bytes \<Rightarrow> bool) \<Rightarrow> string \<Rightarrow> bytes \<Rightarrow> (SignalProtocolError + unit) run" where
  "parse_as ok msg bs = Return (if ok bs then Inr () else Inl (InvalidArgument msg))"

definition read_one_time_prekey ::
  "session_lib \<Rightarrow> u8 \<Rightarrow> bytes \<times> nat \<Rightarrow> (SignalProtocolError + (u32 \<times> bytes) option \<times> (bytes \<times> nat)) run" where
  "read_one_time_prekey L presence c =
     (if presence = 0 then Return (Inr (None, c))
      else if presence = 1 then
        try_bind (read_u32 c) (\<lambda>(otpk_id, c).
        try_bind (read_u32_prefixed c) (\<lambda>(otpk_pub, c).
        try_bind (parse_as (public_parses L) ''malformed one-time prekey public'' otpk_pub) (\<lambda>_.
          Return (Inr (Some (otpk_id, otpk_pub), c)))))
      else Return (Inl (InvalidArgument ''invalid one-time prekey presence flag'')))"

definition bundle_from_bytes :: "session_lib \<Rightarrow> bytes \<Rightarrow> (SignalProtocolError + SigBundle) run" where
  "bundle_from_bytes L bs =
     try_bind (read_u32 (bs, 0)) (\<lambda>(registration_id, c).
     try_bind (read_u32 c) (\<lambda>(device_id_val, c).
     if unat device_id_val \<ge> 256 then Return (Inl (InvalidArgument ''device id out of range''))
     else if \<not> device_valid L (ucast device_id_val) then Return (Inl (InvalidArgument ''invalid device id''))
     else
     try_bind (read_u32_prefixed c) (\<lambda>(ik, c).
     try_bind (parse_as (identity_parses L) ''malformed identity key'' ik) (\<lambda>_.
     try_bind (read_u32 c) (\<lambda>(spk_id, c).
     try_bind (read_u32_prefixed c) (\<lambda>(spk_pub, c).
     try_bind (parse_as (public_parses L) ''malformed signed prekey public'' spk_pub) (\<lambda>_.
     try_bind (read_u32_prefixed c) (\<lambda>(spk_sig, c).
     try_bind (read_u32 c) (\<lambda>(kyber_id, c).
     try_bind (read_u32_prefixed c) (\<lambda>(kyber_pub, c).
     try_bind (parse_as (kyber_parses L) ''malformed kyber prekey public'' kyber_pub) (\<lambda>_.
     try_bind (read_u32_prefixed c) (\<lambda>(kyber_sig, c).
     if length bs < snd c + 1
     then Return (Inl (InvalidArgument ''truncated: missing one-time prekey presence flag''))
     else run_bind (index_at bs (snd c)) (\<lambda>presence.
     try_bind (read_one_time_prekey L presence (bs, snd c + 1)) (\<lambda>(otpk, c).
     if snd c \<noteq> length bs then Return (Inl (InvalidArgument ''trailing bytes after prekey bundle''))
     else Return (bundle_new L
       \<lparr>sb_registration_id = registration_id, sb_device_id = ucast device_id_val,
        sb_pre_key_id = map_option fst otpk, sb_pre_key_public = map_option snd otpk,
        sb_signed_pre_key_id = spk_id, sb_signed_pre_key_public = spk_pub,
        sb_signed_pre_key_signature = spk_sig, sb_kyber_pre_key_id = kyber_id,
        sb_kyber_pre_key_public = kyber_pub, sb_kyber_pre_key_signature = kyber_sig,
        sb_identity_key = ik\<rparr>)))))))))))))))"

section \<open>Lemmas\<close>

lemma read_u32_spec:
  assumes "cur_inside c"
  shows "read_u32 c = Return
    (if length (fst c) - snd c < 4 then Inl (InvalidArgument ''truncated: missing 4-byte field'')
     else Inr (word_of_nat (be_nat (take 4 (cur_rest c))), (fst c, snd c + 4)))"
proof (cases "length (fst c) - snd c < 4")
  case True
  then show ?thesis using assms by (simp add: read_u32_def Let_def)
next
  case False
  then have four: "snd c + 4 \<le> length (fst c)" using assms by linarith
  have i: "index_at (fst c) (snd c) = Return (fst c ! snd c)"
    "index_at (fst c) (snd c + 1) = Return (fst c ! (snd c + 1))"
    "index_at (fst c) (snd c + 2) = Return (fst c ! (snd c + 2))"
    "index_at (fst c) (snd c + 3) = Return (fst c ! (snd c + 3))"
    using four by (simp_all add: index_at_def)
  show ?thesis
    using assms False
    unfolding read_u32_def Let_def i run_bind_simps index_four [OF four] by auto
qed

lemma read_u32_put:
  assumes "cur_inside c" "cur_rest c = write_u32 n @ post"
  shows "read_u32 c = Return (Inr (n, (fst c, snd c + 4)))" "cur_inside (fst c, snd c + 4)"
    "cur_rest (fst c, snd c + 4) = post"
proof -
  have len: "length (fst c) - snd c = 4 + length post"
    using arg_cong [OF assms(2), of length] by (simp add: write_u32_def)
  then show "read_u32 c = Return (Inr (n, (fst c, snd c + 4)))"
    using assms by (simp add: read_u32_spec write_u32_def)
  show "cur_inside (fst c, snd c + 4)" using len by simp
  have "drop (snd c + 4) (fst c) = drop 4 (cur_rest c)" by (simp add: add.commute)
  then show "cur_rest (fst c, snd c + 4) = post" using assms(2) by (simp add: write_u32_def)
qed

lemma read_u32_prefixed_spec:
  assumes "cur_inside c"
  shows "read_u32_prefixed c = Return
    (let n = be_nat (take 4 (cur_rest c)) in
     if length (fst c) - snd c < 4 then Inl (InvalidArgument ''truncated: missing 4-byte field'')
     else if n > length (fst c) - (snd c + 4)
     then Inl (InvalidArgument ''truncated: declared segment longer than remaining bytes'')
     else Inr (take n (drop (snd c + 4) (fst c)), (fst c, snd c + 4 + n)))"
proof (cases "length (fst c) - snd c < 4")
  case True
  then show ?thesis using assms by (simp add: read_u32_prefixed_def read_u32_spec Let_def)
next
  case False
  define n where "n = be_nat (take 4 (cur_rest c))"
  have "length (take 4 (cur_rest c)) = 4" using False by simp
  then have "n < 2 ^ 32" using be_nat_bound [of "take 4 (cur_rest c)"] by (simp add: n_def)
  then have "unat (word_of_nat n :: u32) = n" by (simp add: unat_of_nat)
  then show ?thesis
    using assms False
    by (auto simp: read_u32_prefixed_def read_u32_spec Let_def n_def [symmetric] slice_range_def)
qed

interpretation sess: field_reader cur_rest cur_inside write_u32_prefixed read_u32_prefixed
proof unfold_locales
  fix c :: "bytes \<times> nat" and seg post
  assume c: "cur_inside c" "length seg < 2 ^ 32" "cur_rest c = write_u32_prefixed seg @ post"
  have d: "drop (snd c) (fst c) = be_bytes 4 (length seg) @ seg @ post"
    using c(3) by (simp add: write_u32_prefixed_def)
  note p = drop_prefixed [OF d c(1)]
  have "read_u32_prefixed c = Return (Inr (seg, (fst c, snd c + 4 + length seg)))"
    using c(1,2) p by (simp add: read_u32_prefixed_spec Let_def)
  then show "\<exists>c'. read_u32_prefixed c = Return (Inr (seg, c')) \<and> cur_inside c' \<and> cur_rest c' = post"
    using p(1,4) by auto
next
  fix c :: "bytes \<times> nat" and seg c'
  assume c: "cur_inside c" "read_u32_prefixed c = Return (Inr (seg, c'))"
  define n where "n = be_nat (take 4 (drop (snd c) (fst c)))"
  have r: "snd c + 4 \<le> length (fst c)" "n \<le> length (fst c) - (snd c + 4)"
    "seg = take n (drop (snd c + 4) (fst c))" "c' = (fst c, snd c + 4 + n)"
    using c by (auto simp: read_u32_prefixed_spec Let_def n_def split: if_splits)
  note s = split_prefixed [OF r(1) n_def r(2,3)]
  show "cur_inside c' \<and> cur_rest c = write_u32_prefixed seg @ cur_rest c' \<and> length seg < 2 ^ 32"
    using r s by (simp add: write_u32_prefixed_def)
qed (simp add: read_u32_prefixed_spec Let_def)

text \<open>Chains of reads: a cursor inside the input stays inside, and no step panics.\<close>

definition steady :: "('e + 'a \<times> (bytes \<times> nat)) run \<Rightarrow> bool" where
  "steady m \<longleftrightarrow> m \<noteq> Panic \<and> (\<forall>x c. m = Return (Inr (x, c)) \<longrightarrow> cur_inside c)"

lemma steady_u32: "cur_inside c \<Longrightarrow> steady (read_u32 c)"
  by (auto simp: steady_def read_u32_spec)

lemma steady_prefixed: "cur_inside c \<Longrightarrow> steady (read_u32_prefixed c)"
  using sess.fetch_sound [of c] sess.fetch_total [of c] unfolding steady_def by blast

definition no_panic :: "'a run \<Rightarrow> bool" where
  "no_panic m \<longleftrightarrow> m \<noteq> Panic"

lemma no_panic_bind:
  assumes "steady m" "\<And>x c. cur_inside c \<Longrightarrow> no_panic (k x c)"
  shows "no_panic (try_bind m (\<lambda>(x, c). k x c))"
  using assms by (auto simp: steady_def try_bind_Panic no_panic_def)

lemma no_panic_parse: "no_panic (k ()) \<Longrightarrow> no_panic (try_bind (parse_as ok msg bs) (\<lambda>u. k u))"
  by (auto simp: parse_as_def try_bind_Panic no_panic_def)

lemma no_panic_return: "no_panic (Return x)"
  by (simp add: no_panic_def)

lemma no_panic_if: "(b \<Longrightarrow> no_panic m) \<Longrightarrow> (\<not> b \<Longrightarrow> no_panic n) \<Longrightarrow> no_panic (if b then m else n)"
  by simp

lemma no_panic_index: "i < length bs \<Longrightarrow> no_panic (k (bs ! i)) \<Longrightarrow> no_panic (run_bind (index_at bs i) k)"
  by (simp add: index_at_def)

lemmas no_panic_rules = no_panic_bind no_panic_parse no_panic_return no_panic_if no_panic_index
  steady_u32 steady_prefixed

lemma steady_otpk: "cur_inside c \<Longrightarrow> steady (read_one_time_prekey L presence c)"
proof -
  assume c: "cur_inside c"
  have "no_panic (read_one_time_prekey L presence c)"
    using c unfolding read_one_time_prekey_def by (intro no_panic_rules)
  then have "read_one_time_prekey L presence c \<noteq> Panic" by (simp add: no_panic_def)
  moreover have "cur_inside c'" if r: "read_one_time_prekey L presence c = Return (Inr (x, c'))" for x c'
  proof (cases "presence = 1")
    case True
    then obtain i c1 p where "read_u32 c = Return (Inr (i, c1))" "read_u32_prefixed c1 = Return (Inr (p, c'))"
      using r by (auto simp: read_one_time_prekey_def try_bind_Inr)
    then show ?thesis using c steady_u32 [of c] steady_prefixed [of c1] unfolding steady_def by blast
  next
    case False
    then show ?thesis using r c by (auto simp: read_one_time_prekey_def split: if_splits)
  qed
  ultimately show ?thesis unfolding steady_def by blast
qed

lemma bundle_from_bytes_total: "bundle_from_bytes L bs \<noteq> Panic"
proof -
  have "no_panic (bundle_from_bytes L bs)"
    unfolding bundle_from_bytes_def by (intro no_panic_rules steady_otpk) simp_all
  then show ?thesis by (simp add: no_panic_def)
qed

text \<open>A bundle the library accepts and whose fields fit their length prefixes.\<close>

definition sig_bundle_ok :: "session_lib \<Rightarrow> SigBundle \<Rightarrow> bool" where
  "sig_bundle_ok L b \<longleftrightarrow>
     device_valid L (sb_device_id b) \<and> bundle_new L b = Inr b \<and>
     identity_parses L (sb_identity_key b) \<and> public_parses L (sb_signed_pre_key_public b) \<and>
     kyber_parses L (sb_kyber_pre_key_public b) \<and>
     (sb_pre_key_id b = None \<longleftrightarrow> sb_pre_key_public b = None) \<and>
     (\<forall>p. sb_pre_key_public b = Some p \<longrightarrow> public_parses L p \<and> length p < 2 ^ 32) \<and>
     length (sb_identity_key b) < 2 ^ 32 \<and> length (sb_signed_pre_key_public b) < 2 ^ 32 \<and>
     length (sb_signed_pre_key_signature b) < 2 ^ 32 \<and> length (sb_kyber_pre_key_public b) < 2 ^ 32 \<and>
     length (sb_kyber_pre_key_signature b) < 2 ^ 32"

text \<open>One step of a read chain over bytes that were written.\<close>

lemma u32_step:
  assumes "cur_inside c" "cur_rest c = write_u32 n @ post"
  obtains c' where "read_u32 c = Return (Inr (n, c'))" "cur_inside c'" "cur_rest c' = post" "fst c' = fst c"
  using read_u32_put [OF assms] that by auto

lemma read_u32_prefixed_bytes:
  "cur_inside c \<Longrightarrow> read_u32_prefixed c = Return (Inr (seg, c')) \<Longrightarrow> fst c' = fst c"
  by (auto simp: read_u32_prefixed_spec Let_def split: if_splits)

lemma field_step:
  assumes "cur_inside c" "cur_rest c = write_u32_prefixed s @ post" "length s < 2 ^ 32"
  obtains c' where "read_u32_prefixed c = Return (Inr (s, c'))" "cur_inside c'" "cur_rest c' = post"
    "fst c' = fst c"
  using sess.fetch_put [OF assms(1,3,2)] read_u32_prefixed_bytes [OF assms(1)] that by blast

lemma at_end:
  assumes "cur_inside c" "cur_rest c = []"
  shows "snd c = length (fst c)"
  using assms by simp

lemma otpk_written:
  assumes "sig_bundle_ok L b" "cur_inside c"
    and "cur_rest c = (case sb_pre_key_id b of None \<Rightarrow> []
       | Some i \<Rightarrow> write_u32 i @ write_u32_prefixed (the (sb_pre_key_public b)))"
  shows "\<exists>c'. snd c' = length (fst c) \<and>
    read_one_time_prekey L (if sb_pre_key_id b = None then 0 else 1) c =
      Return (Inr (case sb_pre_key_id b of None \<Rightarrow> None | Some i \<Rightarrow> Some (i, the (sb_pre_key_public b)), c'))"
proof (cases "sb_pre_key_id b")
  case None
  then show ?thesis using assms(2,3) at_end [of c]
    by (intro exI [of _ c]) (simp add: read_one_time_prekey_def)
next
  case (Some i)
  then obtain p where p: "sb_pre_key_public b = Some p" "public_parses L p" "length p < 2 ^ 32"
    using assms(1) by (auto simp: sig_bundle_ok_def)
  have r: "cur_rest c = write_u32 i @ write_u32_prefixed p" using assms(3) Some p by simp
  define c1 where "c1 = (fst c, snd c + 4)"
  have c1: "read_u32 c = Return (Inr (i, c1))" "cur_inside c1" "cur_rest c1 = write_u32_prefixed p @ []"
    using read_u32_put [OF assms(2) r] by (simp_all add: c1_def)
  obtain c2 where c2: "read_u32_prefixed c1 = Return (Inr (p, c2))" "cur_inside c2" "cur_rest c2 = []"
    using sess.fetch_put [OF c1(2) p(3) c1(3)] by blast
  have "fst c2 = fst c" using read_u32_prefixed_bytes [OF c1(2) c2(1)] by (simp add: c1_def)
  then have "snd c2 = length (fst c)" using at_end [OF c2(2,3)] by simp
  then show ?thesis using Some p c1(1) c2(1)
    by (intro exI [of _ c2]) (simp add: read_one_time_prekey_def parse_as_def)
qed


text \<open>The same steps as rules over the rest of the chain: the value written is the value continued with.\<close>

lemma u32_bind:
  assumes "cur_inside c \<and> cur_rest c = write_u32 n @ post \<and> fst c = bs"
    and "\<And>c'. cur_inside c' \<and> cur_rest c' = post \<and> fst c' = bs \<Longrightarrow> k n c' = r"
  shows "try_bind (read_u32 c) (\<lambda>(x, c). k x c) = r"
  using assms u32_step [of c n post] by (metis (no_types, lifting) case_prod_conv try_bind_simps(3))

lemma field_bind:
  assumes "cur_inside c \<and> cur_rest c = write_u32_prefixed s @ post \<and> fst c = bs" "length s < 2 ^ 32"
    and "\<And>c'. cur_inside c' \<and> cur_rest c' = post \<and> fst c' = bs \<Longrightarrow> k s c' = r"
  shows "try_bind (read_u32_prefixed c) (\<lambda>(x, c). k x c) = r"
  using assms field_step [of c s post] by (metis (no_types, lifting) case_prod_conv try_bind_simps(3))

lemma parse_bind: "ok s \<Longrightarrow> k () = r \<Longrightarrow> try_bind (parse_as ok msg s) (\<lambda>u. k u) = r"
  by (simp add: parse_as_def)

lemma flag_bind:
  assumes "cur_inside c \<and> cur_rest c = x # post \<and> fst c = bs"
    and "cur_inside (bs, snd c + 1) \<Longrightarrow> cur_rest (bs, snd c + 1) = post \<Longrightarrow> k x = r"
  shows "(if length bs < snd c + 1 then e else run_bind (index_at bs (snd c)) (\<lambda>x. k x)) = r"
proof -
  have lt: "snd c < length bs" using assms(1) by (metis drop_eq_Nil list.distinct(1) not_le)
  then have "bs ! snd c = x" "cur_rest (bs, snd c + 1) = post"
    using assms(1) Cons_nth_drop_Suc [OF lt] by auto
  then show ?thesis using lt assms(2) by (simp add: index_at_def)
qed

lemma guard_passed: "\<not> g \<Longrightarrow> m = r \<Longrightarrow> (if g then e else m) = r"
  by simp

lemma byte_widened:
  fixes w :: u8
  shows "(ucast (ucast w :: u32) :: u8) = w" "\<not> 256 \<le> unat (ucast w :: u32)"
proof -
  have "unat w < 256" using unsigned_less [of w, where ?'a = nat] by simp
  moreover have "unat (ucast w :: u32) \<le> unat w" unfolding unsigned_ucast_eq by (rule take_bit_nat_less_eq_self)
  ultimately show "\<not> 256 \<le> unat (ucast w :: u32)" by linarith
  show "(ucast (ucast w :: u32) :: u8) = w"
    by (rule bit_word_eqI) (simp add: bit_ucast_iff)
qed

lemma last_part:
  assumes ok: "sig_bundle_ok L b" and "cur_inside (bs, i)"
    and "cur_rest (bs, i) = (case sb_pre_key_id b of None \<Rightarrow> []
       | Some i \<Rightarrow> write_u32 i @ write_u32_prefixed (the (sb_pre_key_public b)))"
  shows "try_bind (read_one_time_prekey L (if sb_pre_key_id b = None then 0 else 1) (bs, i)) (\<lambda>(otpk, c).
     if snd c \<noteq> length bs then e
     else Return (bundle_new L
       \<lparr>sb_registration_id = sb_registration_id b, sb_device_id = sb_device_id b,
        sb_pre_key_id = map_option fst otpk, sb_pre_key_public = map_option snd otpk,
        sb_signed_pre_key_id = sb_signed_pre_key_id b,
        sb_signed_pre_key_public = sb_signed_pre_key_public b,
        sb_signed_pre_key_signature = sb_signed_pre_key_signature b,
        sb_kyber_pre_key_id = sb_kyber_pre_key_id b,
        sb_kyber_pre_key_public = sb_kyber_pre_key_public b,
        sb_kyber_pre_key_signature = sb_kyber_pre_key_signature b,
        sb_identity_key = sb_identity_key b\<rparr>)) = Return (Inr b)"
proof -
  obtain c' where c': "snd c' = length bs"
    "read_one_time_prekey L (if sb_pre_key_id b = None then 0 else 1) (bs, i) =
      Return (Inr (case sb_pre_key_id b of None \<Rightarrow> None | Some i \<Rightarrow> Some (i, the (sb_pre_key_public b)), c'))"
    using otpk_written [OF assms] by auto
  have "map_option fst (case sb_pre_key_id b of None \<Rightarrow> None | Some i \<Rightarrow> Some (i, the (sb_pre_key_public b))) = sb_pre_key_id b"
    "map_option snd (case sb_pre_key_id b of None \<Rightarrow> None | Some i \<Rightarrow> Some (i, the (sb_pre_key_public b))) = sb_pre_key_public b"
    using ok by (auto simp: sig_bundle_ok_def split: option.splits)
  moreover have "bundle_new L b = Inr b" using ok by (simp add: sig_bundle_ok_def)
  ultimately show ?thesis using c' by (cases b) simp
qed

lemma bundle_round_trip:
  assumes ok: "sig_bundle_ok L b"
  shows "\<exists>bs. bundle_to_bytes b = Inr bs \<and> bundle_from_bytes L bs = Return (Inr b)"
proof -
  define flag :: u8 where "flag = (if sb_pre_key_id b = None then 0 else 1)"
  define otpk where "otpk = (case sb_pre_key_id b of None \<Rightarrow> []
       | Some i \<Rightarrow> write_u32 i @ write_u32_prefixed (the (sb_pre_key_public b)))"
  define bs where "bs = write_u32 (sb_registration_id b) @ write_u32 (ucast (sb_device_id b))
      @ write_u32_prefixed (sb_identity_key b) @ write_u32 (sb_signed_pre_key_id b)
      @ write_u32_prefixed (sb_signed_pre_key_public b) @ write_u32_prefixed (sb_signed_pre_key_signature b)
      @ write_u32 (sb_kyber_pre_key_id b) @ write_u32_prefixed (sb_kyber_pre_key_public b)
      @ write_u32_prefixed (sb_kyber_pre_key_signature b) @ flag # otpk"
  have to: "bundle_to_bytes b = Inr bs"
    using ok by (auto simp: bundle_to_bytes_def sig_bundle_ok_def Let_def bs_def flag_def otpk_def
        split: option.splits)
  have start: "cur_inside (bs, 0) \<and> cur_rest (bs, 0) = write_u32 (sb_registration_id b) @
      drop 4 bs \<and> fst (bs, 0) = bs"
    by (simp add: bs_def write_u32_def)
  have rest: "drop 4 bs = write_u32 (ucast (sb_device_id b))
      @ write_u32_prefixed (sb_identity_key b) @ write_u32 (sb_signed_pre_key_id b)
      @ write_u32_prefixed (sb_signed_pre_key_public b) @ write_u32_prefixed (sb_signed_pre_key_signature b)
      @ write_u32 (sb_kyber_pre_key_id b) @ write_u32_prefixed (sb_kyber_pre_key_public b)
      @ write_u32_prefixed (sb_kyber_pre_key_signature b) @ flag # otpk"
    by (simp add: bs_def write_u32_def)
  have fine: "device_valid L (sb_device_id b)" "identity_parses L (sb_identity_key b)"
    "public_parses L (sb_signed_pre_key_public b)" "kyber_parses L (sb_kyber_pre_key_public b)"
    "length (sb_identity_key b) < 2 ^ 32" "length (sb_signed_pre_key_public b) < 2 ^ 32"
    "length (sb_signed_pre_key_signature b) < 2 ^ 32" "length (sb_kyber_pre_key_public b) < 2 ^ 32"
    "length (sb_kyber_pre_key_signature b) < 2 ^ 32"
    using ok by (simp_all add: sig_bundle_ok_def)
  note dev = byte_widened [of "sb_device_id b"]
  have "bundle_from_bytes L bs = Return (Inr b)"
    unfolding bundle_from_bytes_def
    by (rule u32_bind [OF start [unfolded rest]], erule u32_bind, rule guard_passed [OF dev(2)],
        rule guard_passed, simp add: dev(1) fine, erule field_bind, rule fine, rule parse_bind, rule fine,
        erule u32_bind, erule field_bind, rule fine, rule parse_bind, rule fine, erule field_bind, rule fine,
        erule u32_bind, erule field_bind, rule fine, rule parse_bind, rule fine, erule field_bind, rule fine,
        erule flag_bind, unfold dev(1) flag_def otpk_def, rule last_part [OF ok])
  then show ?thesis using to by blast
qed

section \<open>Properties\<close>

text \<open>
  C22: Every bundle the library accepts and whose fields fit a 4-byte length is serialized and
  parsed back to itself, field for field, with or without a one-time prekey; and the parser never
  panics, whatever the input.
\<close>

theorem pqxdh_bundle_round_trip:
  "(sig_bundle_ok L b \<longrightarrow> (\<exists>bs. bundle_to_bytes b = Inr bs \<and> bundle_from_bytes L bs = Return (Inr b))) \<and>
   bundle_from_bytes L bs' \<noteq> Panic"
  using bundle_round_trip bundle_from_bytes_total by blast

theorem pqxdh_bundle_round_trip_witness:
  "\<exists>L b bs. sb_pre_key_id b = Some 3 \<and> bundle_to_bytes b = Inr bs \<and> bundle_from_bytes L bs = Return (Inr b)"
proof -
  define L where "L = \<lparr>identity_parses = (\<lambda>_. True), public_parses = (\<lambda>_. True),
       kyber_parses = (\<lambda>_. True), device_valid = (\<lambda>d. 0 < d), bundle_new = Inr\<rparr>"
  define b where "b = \<lparr>sb_registration_id = 1, sb_device_id = 2, sb_pre_key_id = Some 3,
       sb_pre_key_public = Some [4], sb_signed_pre_key_id = 5, sb_signed_pre_key_public = [6],
       sb_signed_pre_key_signature = [7], sb_kyber_pre_key_id = 8, sb_kyber_pre_key_public = [9],
       sb_kyber_pre_key_signature = [10], sb_identity_key = [11]\<rparr>"
  have "sig_bundle_ok L b" by (simp add: sig_bundle_ok_def L_def b_def)
  moreover have "sb_pre_key_id b = Some 3" by (simp add: b_def)
  ultimately show ?thesis using pqxdh_bundle_round_trip [of L b] by blast
qed

end
