(* ===== verification/Ratchet_Session.thy ===== *)
theory Ratchet_Session
  imports Session_Bundle
begin

text \<open>
  The 1:1 session facade: the typed adapter over libsignal's ratchet
  (\<open>core/crypto/src/double_ratchet.rs\<close>), prekey generation and establishment
  (\<open>core/crypto/src/session.rs\<close>) and \<open>DoubleRatchetSession\<close> (\<open>core/crypto/src/ratchet_session.rs\<close>).
  libsignal's store, its three protocol functions and SHA-256 are the parameter record
  \<open>ratchet_lib\<close>; identity key pairs are their private half, keys and messages their serialized
  bytes. Time and randomness are arguments.
\<close>

section \<open>The library\<close>

record ProtocolAddress =
  addr_name :: string
  addr_device :: u8

datatype CiphertextMessage =
    SignalMessage bytes
  | PreKeySignalMessage bytes
  | SenderKeyMessage bytes
  | PlaintextContent bytes

text \<open>
  \<open>prekey_message_parse\<close> yields the identity key in the header of a first message, as
  \<open>PreKeySignalMessage::try_from\<close> followed by \<open>identity_key\<close> does. The protocol functions return
  their result and the store they leave behind, errors included.
\<close>

record ('spk, 'otk, 'kpk, 'st) ratchet_lib =
  sha256_of :: "bytes \<Rightarrow> bytes"
  signal_display :: "SignalProtocolError \<Rightarrow> string"
  kem_public :: "bytes \<Rightarrow> bytes"
  calculate_signature :: "bytes \<Rightarrow> bytes \<Rightarrow> bytes \<Rightarrow> SignalProtocolError + bytes"
  kpk_new :: "u32 \<Rightarrow> u64 \<Rightarrow> bytes \<Rightarrow> bytes \<Rightarrow> 'kpk"
  store_new :: "bytes \<Rightarrow> u32 \<Rightarrow> SignalProtocolError + 'st"
  save_signed_pre_key :: "u32 \<Rightarrow> 'spk \<Rightarrow> 'st \<Rightarrow> SignalProtocolError + 'st"
  save_kyber_pre_key :: "u32 \<Rightarrow> 'kpk \<Rightarrow> 'st \<Rightarrow> SignalProtocolError + 'st"
  save_pre_key :: "u32 \<Rightarrow> 'otk \<Rightarrow> 'st \<Rightarrow> SignalProtocolError + 'st"
  get_identity :: "ProtocolAddress \<Rightarrow> 'st \<Rightarrow> SignalProtocolError + bytes option"
  process_prekey_bundle :: "ProtocolAddress \<Rightarrow> ProtocolAddress \<Rightarrow> SigBundle \<Rightarrow> u64 \<Rightarrow> bytes \<Rightarrow> 'st \<Rightarrow>
    (SignalProtocolError + unit) \<times> 'st"
  message_encrypt :: "bytes \<Rightarrow> ProtocolAddress \<Rightarrow> ProtocolAddress \<Rightarrow> u64 \<Rightarrow> bytes \<Rightarrow> 'st \<Rightarrow>
    (SignalProtocolError + CiphertextMessage) \<times> 'st"
  message_decrypt :: "CiphertextMessage \<Rightarrow> ProtocolAddress \<Rightarrow> ProtocolAddress \<Rightarrow> bytes \<Rightarrow> 'st \<Rightarrow>
    (SignalProtocolError + bytes) \<times> 'st"
  signal_message_parse :: "bytes \<Rightarrow> SignalProtocolError + unit"
  prekey_message_parse :: "bytes \<Rightarrow> SignalProtocolError + bytes"

section \<open>The typed adapter\<close>

datatype DoubleRatchetError =
    MalformedCiphertext
  | UnsupportedCiphertextType
  | NoSession
  | UntrustedIdentity
  | AuthenticationFailed
  | ProtocolError string

definition DoubleRatchetError_display :: "DoubleRatchetError \<Rightarrow> string" where
  "DoubleRatchetError_display e =
     (case e of
        MalformedCiphertext \<Rightarrow> ''malformed or unrecognized ciphertext''
      | UnsupportedCiphertextType \<Rightarrow> ''ciphertext type is not supported for 1:1 ratchet''
      | NoSession \<Rightarrow> ''no session for remote address''
      | UntrustedIdentity \<Rightarrow> ''untrusted identity for remote address''
      | AuthenticationFailed \<Rightarrow> ''ciphertext failed authentication (bad MAC or replay)''
      | ProtocolError msg \<Rightarrow> ''double ratchet protocol error: '' @ msg)"

definition is_untrusted_identity :: "SignalProtocolError \<Rightarrow> bool" where
  "is_untrusted_identity err = (case err of UntrustedSignalIdentity \<Rightarrow> True | _ \<Rightarrow> False)"

definition from_protocol ::
  "('spk, 'otk, 'kpk, 'st) ratchet_lib \<Rightarrow> SignalProtocolError \<Rightarrow> DoubleRatchetError" where
  "from_protocol R err =
     (case err of
        SessionNotFound \<Rightarrow> NoSession
      | UntrustedSignalIdentity \<Rightarrow> UntrustedIdentity
      | InvalidMessage \<Rightarrow> AuthenticationFailed
      | CiphertextMessageTooShort \<Rightarrow> MalformedCiphertext
      | LegacyCiphertextVersion \<Rightarrow> MalformedCiphertext
      | UnrecognizedCiphertextVersion \<Rightarrow> MalformedCiphertext
      | UnrecognizedMessageVersion \<Rightarrow> MalformedCiphertext
      | InvalidProtobufEncoding \<Rightarrow> MalformedCiphertext
      | other \<Rightarrow> ProtocolError (signal_display R other))"

datatype MessageType = PreKey | Ciphertext

record SerializedCiphertext =
  sc_message_type :: MessageType
  sc_bytes :: bytes

definition SerializedCiphertext_new :: "MessageType \<Rightarrow> bytes \<Rightarrow> SerializedCiphertext" where
  "SerializedCiphertext_new mt bs = \<lparr>sc_message_type = mt, sc_bytes = bs\<rparr>"

definition SerializedCiphertext_as_bytes :: "SerializedCiphertext \<Rightarrow> bytes" where
  "SerializedCiphertext_as_bytes sc = sc_bytes sc"

definition SerializedCiphertext_into_bytes :: "SerializedCiphertext \<Rightarrow> bytes" where
  "SerializedCiphertext_into_bytes sc = sc_bytes sc"

definition SerializedCiphertext_as_ref :: "SerializedCiphertext \<Rightarrow> bytes" where
  "SerializedCiphertext_as_ref sc = sc_bytes sc"

definition SerializedCiphertext_message_type :: "SerializedCiphertext \<Rightarrow> MessageType" where
  "SerializedCiphertext_message_type sc = sc_message_type sc"

definition parse_ciphertext ::
  "('spk, 'otk, 'kpk, 'st) ratchet_lib \<Rightarrow> SerializedCiphertext \<Rightarrow> DoubleRatchetError + CiphertextMessage" where
  "parse_ciphertext R sc =
     (let bs = sc_bytes sc in
      case sc_message_type sc of
        Ciphertext \<Rightarrow>
          and_then (map_err (from_protocol R) (signal_message_parse R bs)) (\<lambda>_. Inr (SignalMessage bs))
      | PreKey \<Rightarrow>
          and_then (map_err (from_protocol R) (prekey_message_parse R bs)) (\<lambda>_. Inr (PreKeySignalMessage bs)))"

definition serialize_ciphertext :: "CiphertextMessage \<Rightarrow> DoubleRatchetError + SerializedCiphertext" where
  "serialize_ciphertext ct =
     (case ct of
        SignalMessage bs \<Rightarrow> Inr \<lparr>sc_message_type = Ciphertext, sc_bytes = bs\<rparr>
      | PreKeySignalMessage bs \<Rightarrow> Inr \<lparr>sc_message_type = PreKey, sc_bytes = bs\<rparr>
      | SenderKeyMessage _ \<Rightarrow> Inl UnsupportedCiphertextType
      | PlaintextContent _ \<Rightarrow> Inl UnsupportedCiphertextType)"

definition encrypt_message ::
  "('spk, 'otk, 'kpk, 'st) ratchet_lib \<Rightarrow> bytes \<Rightarrow> ProtocolAddress \<Rightarrow> ProtocolAddress \<Rightarrow> u64 \<Rightarrow> bytes \<Rightarrow> 'st \<Rightarrow>
   (DoubleRatchetError + CiphertextMessage) \<times> 'st" where
  "encrypt_message R plaintext remote_address local_address now rnd st =
     apfst (map_err (from_protocol R)) (message_encrypt R plaintext remote_address local_address now rnd st)"

definition decrypt_message ::
  "('spk, 'otk, 'kpk, 'st) ratchet_lib \<Rightarrow> SerializedCiphertext \<Rightarrow> ProtocolAddress \<Rightarrow> ProtocolAddress \<Rightarrow> bytes \<Rightarrow>
   'st \<Rightarrow> (DoubleRatchetError + bytes) \<times> 'st" where
  "decrypt_message R ciphertext remote_address local_address rnd st =
     (case parse_ciphertext R ciphertext of
        Inl e \<Rightarrow> (Inl e, st)
      | Inr parsed \<Rightarrow>
          apfst (map_err (from_protocol R)) (message_decrypt R parsed remote_address local_address rnd st))"

section \<open>Prekeys and establishment\<close>

definition generate_kyber_prekey ::
  "('spk, 'otk, 'kpk, 'st) ratchet_lib \<Rightarrow> u32 \<Rightarrow> bytes \<Rightarrow> u64 \<Rightarrow> bytes \<Rightarrow> bytes \<Rightarrow> SignalProtocolError + 'kpk" where
  "generate_kyber_prekey R i signing_key timestamp secret rnd =
     and_then (calculate_signature R signing_key (kem_public R secret) rnd) (\<lambda>signature.
       Inr (kpk_new R i timestamp secret signature))"

definition establish_outbound_session ::
  "('spk, 'otk, 'kpk, 'st) ratchet_lib \<Rightarrow> ProtocolAddress \<Rightarrow> ProtocolAddress \<Rightarrow> SigBundle \<Rightarrow> u64 \<Rightarrow> bytes \<Rightarrow> 'st \<Rightarrow>
   (SignalProtocolError + unit) \<times> 'st" where
  "establish_outbound_session R local_address remote_address remote_bundle now rnd st =
     process_prekey_bundle R remote_address local_address remote_bundle now rnd st"

section \<open>The session facade\<close>

definition REGISTRATION_ID :: u32 where "REGISTRATION_ID = 1"
definition DEVICE_ID :: u8 where "DEVICE_ID = 1"
definition SIGNED_PREKEY_ID :: u32 where "SIGNED_PREKEY_ID = 1"
definition KYBER_PREKEY_ID :: u32 where "KYBER_PREKEY_ID = 1"
definition ONE_TIME_PREKEY_ID :: u32 where "ONE_TIME_PREKEY_ID = 1"
definition TYPE_TAG_PREKEY :: u8 where "TYPE_TAG_PREKEY = 1"
definition TYPE_TAG_CIPHERTEXT :: u8 where "TYPE_TAG_CIPHERTEXT = 2"
definition ENVELOPE_PREFIX_LEN :: nat where "ENVELOPE_PREFIX_LEN = 32 + 1"

record ('spk, 'otk, 'kpk, 'st) DoubleRatchetSession =
  drs_identity :: bytes
  drs_local_address :: ProtocolAddress
  drs_local_hash :: bytes
  drs_store :: 'st
  drs_remote_address :: "ProtocolAddress option"
  drs_signed_prekey :: "'spk option"
  drs_kyber_prekey :: "'kpk option"
  drs_one_time_prekey :: "'otk option"

datatype SessionError =
    SessPreKey SignalProtocolError
  | Establishment SignalProtocolError
  | SessEncrypt DoubleRatchetError
  | SessDecrypt DoubleRatchetError
  | SessStore SignalProtocolError
  | MalformedEnvelope
  | IdentityHashMismatch
  | NoOneTimePreKey
  | NotPublisher
  | NotSender

definition SessionError_display ::
  "('spk, 'otk, 'kpk, 'st) ratchet_lib \<Rightarrow> SessionError \<Rightarrow> string" where
  "SessionError_display R e =
     (case e of
        SessPreKey e \<Rightarrow> ''session prekey error: '' @ signal_display R e
      | Establishment e \<Rightarrow> ''session establishment failed: '' @ signal_display R e
      | SessEncrypt e \<Rightarrow> ''session encrypt failed: '' @ DoubleRatchetError_display e
      | SessDecrypt e \<Rightarrow> ''session decrypt failed: '' @ DoubleRatchetError_display e
      | SessStore e \<Rightarrow> ''session store error: '' @ signal_display R e
      | MalformedEnvelope \<Rightarrow> ''malformed session envelope''
      | IdentityHashMismatch \<Rightarrow> ''envelope sender hash does not match the bound identity key''
      | NoOneTimePreKey \<Rightarrow> ''no one-time prekey generated''
      | NotPublisher \<Rightarrow> ''session is not a prekey publisher''
      | NotSender \<Rightarrow> ''session has no remote address to encrypt to'')"

definition is_prekey_signature_invalid :: "SessionError \<Rightarrow> bool" where
  "is_prekey_signature_invalid e =
     (case e of Establishment SignatureValidationFailed \<Rightarrow> True | _ \<Rightarrow> False)"

definition hash_of_identity_key :: "('spk, 'otk, 'kpk, 'st) ratchet_lib \<Rightarrow> bytes \<Rightarrow> bytes" where
  "hash_of_identity_key R key = sha256_of R key"

text \<open>The serialized public identity key of a key pair.\<close>

definition public_identity :: "('spk, 'otk) signal_lib \<Rightarrow> bytes \<Rightarrow> bytes" where
  "public_identity S identity = identity_serialize S (key_public S identity)"

definition identity_hash ::
  "('spk, 'otk) signal_lib \<Rightarrow> ('spk, 'otk, 'kpk, 'st) ratchet_lib \<Rightarrow> bytes \<Rightarrow> bytes" where
  "identity_hash S R identity = hash_of_identity_key R (public_identity S identity)"

definition device :: "session_lib \<Rightarrow> u8 run" where
  "device L = (if device_valid L DEVICE_ID then Return DEVICE_ID else Panic)"

text \<open>
  The clock as nanoseconds since the epoch, negative before it; in the browser it is read in
  milliseconds, and the conversion from the float saturates.
\<close>

definition now_wasm :: "int \<Rightarrow> int" where
  "now_wasm date_millis = max 0 (min date_millis (2 ^ 64 - 1)) * 10 ^ 6"

definition now_ts :: "int \<Rightarrow> u64" where
  "now_ts clock = (if clock < 0 then 0 else word_of_int (clock div 10 ^ 6))"

lemma now_ts_millis: "0 \<le> ms \<Longrightarrow> ms < 2 ^ 64 \<Longrightarrow> uint (now_ts (now_wasm ms)) = ms"
  by (simp add: now_ts_def now_wasm_def uint_word_of_int)

definition hex_name :: "bytes \<Rightarrow> string" where
  "hex_name hash = hex_encode hash"

definition address_for_hash :: "session_lib \<Rightarrow> bytes \<Rightarrow> ProtocolAddress run" where
  "address_for_hash L hash =
     run_bind (device L) (\<lambda>d. Return \<lparr>addr_name = hex_name hash, addr_device = d\<rparr>)"

definition type_tag :: "MessageType \<Rightarrow> u8" where
  "type_tag mt = (case mt of PreKey \<Rightarrow> TYPE_TAG_PREKEY | Ciphertext \<Rightarrow> TYPE_TAG_CIPHERTEXT)"

definition message_type_from_tag :: "u8 \<Rightarrow> MessageType option" where
  "message_type_from_tag tag =
     (if tag = TYPE_TAG_PREKEY then Some PreKey
      else if tag = TYPE_TAG_CIPHERTEXT then Some Ciphertext else None)"

text \<open>What \<open>new_bob\<close> draws: the time and the secrets and randomness of its three prekeys.\<close>

record bob_rand =
  br_now :: u64
  br_signed_secret :: bytes
  br_signed_rnd :: bytes
  br_kyber_secret :: bytes
  br_kyber_rnd :: bytes
  br_one_time_secrets :: "nat \<Rightarrow> bytes"

definition lift :: "'a \<Rightarrow> 'a run" where
  "lift x = Return x"

definition DoubleRatchetSession_new_bob ::
  "session_lib \<Rightarrow> ('spk, 'otk) signal_lib \<Rightarrow> ('spk, 'otk, 'kpk, 'st) ratchet_lib \<Rightarrow> bob_rand \<Rightarrow> bytes \<Rightarrow>
   (SessionError + ('spk, 'otk, 'kpk, 'st) DoubleRatchetSession) run" where
  "DoubleRatchetSession_new_bob L S R w identity =
     try_bind (lift (map_err SessPreKey (store_new R identity REGISTRATION_ID))) (\<lambda>store.
     run_bind (generate_signed_pre_key S identity SIGNED_PREKEY_ID (br_now w) (br_signed_secret w)
         (br_signed_rnd w)) (\<lambda>signed_prekey.
     try_bind (lift (map_err SessPreKey (generate_kyber_prekey R KYBER_PREKEY_ID identity (br_now w)
         (br_kyber_secret w) (br_kyber_rnd w)))) (\<lambda>kyber_prekey.
     try_bind (lift (case generate_one_time_pre_keys S (br_one_time_secrets w) ONE_TIME_PREKEY_ID 1 of
         [] \<Rightarrow> Inl NoOneTimePreKey | r # _ \<Rightarrow> Inr r)) (\<lambda>one_time_prekey.
     try_bind (lift (map_err SessPreKey (save_signed_pre_key R SIGNED_PREKEY_ID signed_prekey store))) (\<lambda>store.
     try_bind (lift (map_err SessPreKey (save_kyber_pre_key R KYBER_PREKEY_ID kyber_prekey store))) (\<lambda>store.
     try_bind (lift (map_err SessPreKey (save_pre_key R ONE_TIME_PREKEY_ID one_time_prekey store))) (\<lambda>store.
     run_bind (address_for_hash L (identity_hash S R identity)) (\<lambda>local_address.
       Return (Inr
         \<lparr>drs_identity = identity, drs_local_address = local_address,
          drs_local_hash = identity_hash S R identity, drs_store = store, drs_remote_address = None,
          drs_signed_prekey = Some signed_prekey, drs_kyber_prekey = Some kyber_prekey,
          drs_one_time_prekey = Some one_time_prekey\<rparr>)))))))))"

definition DoubleRatchetSession_publish_bundle ::
  "session_lib \<Rightarrow> ('spk, 'otk) signal_lib \<Rightarrow> ('spk, 'otk, 'kpk) record_lib \<Rightarrow>
   ('spk, 'otk, 'kpk, 'st) DoubleRatchetSession \<Rightarrow> (SessionError + SigBundle) run" where
  "DoubleRatchetSession_publish_bundle L S A s =
     try_bind (lift (ok_or NotPublisher (drs_signed_prekey s))) (\<lambda>signed_prekey.
     try_bind (lift (ok_or NotPublisher (drs_kyber_prekey s))) (\<lambda>kyber_prekey.
     run_bind (device L) (\<lambda>d.
       Return (map_err SessPreKey
         (build_prekey_bundle L A REGISTRATION_ID d (public_identity S (drs_identity s)) signed_prekey
           kyber_prekey (drs_one_time_prekey s))))))"

definition DoubleRatchetSession_new_alice ::
  "session_lib \<Rightarrow> ('spk, 'otk) signal_lib \<Rightarrow> ('spk, 'otk, 'kpk, 'st) ratchet_lib \<Rightarrow> u64 \<Rightarrow> bytes \<Rightarrow> bytes \<Rightarrow>
   SigBundle \<Rightarrow> (SessionError + ('spk, 'otk, 'kpk, 'st) DoubleRatchetSession) run" where
  "DoubleRatchetSession_new_alice L S R now rnd identity bundle =
     try_bind (lift (map_err SessPreKey (store_new R identity REGISTRATION_ID))) (\<lambda>store.
     let remote_hash = hash_of_identity_key R (sb_identity_key bundle);
         remote_address = \<lparr>addr_name = hex_name remote_hash, addr_device = sb_device_id bundle\<rparr>;
         local_hash = identity_hash S R identity
     in run_bind (address_for_hash L local_hash) (\<lambda>local_address.
     case establish_outbound_session R local_address remote_address bundle now rnd store of
       (Inl e, _) \<Rightarrow> Return (Inl (Establishment e))
     | (Inr _, store) \<Rightarrow> Return (Inr
         \<lparr>drs_identity = identity, drs_local_address = local_address, drs_local_hash = local_hash,
          drs_store = store, drs_remote_address = Some remote_address, drs_signed_prekey = None,
          drs_kyber_prekey = None, drs_one_time_prekey = None\<rparr>)))"

definition DoubleRatchetSession_encrypt ::
  "('spk, 'otk, 'kpk, 'st) ratchet_lib \<Rightarrow> u64 \<Rightarrow> bytes \<Rightarrow> bytes \<Rightarrow>
   ('spk, 'otk, 'kpk, 'st) DoubleRatchetSession \<Rightarrow>
   (SessionError + bytes) \<times> ('spk, 'otk, 'kpk, 'st) DoubleRatchetSession" where
  "DoubleRatchetSession_encrypt R now rnd plaintext s =
     (case drs_remote_address s of
        None \<Rightarrow> (Inl NotSender, s)
      | Some remote_address \<Rightarrow>
          (let (r, store) = encrypt_message R plaintext remote_address (drs_local_address s) now rnd (drs_store s);
               s = s\<lparr>drs_store := store\<rparr>
           in case r of
                Inl e \<Rightarrow> (Inl (SessEncrypt e), s)
              | Inr ciphertext \<Rightarrow>
                  (case serialize_ciphertext ciphertext of
                     Inl e \<Rightarrow> (Inl (SessEncrypt e), s)
                   | Inr serialized \<Rightarrow>
                       (Inr (drs_local_hash s @ [type_tag (sc_message_type serialized)] @ sc_bytes serialized), s))))"

definition check_sender ::
  "('spk, 'otk, 'kpk, 'st) ratchet_lib \<Rightarrow> MessageType \<Rightarrow> bytes \<Rightarrow> bytes \<Rightarrow> ProtocolAddress \<Rightarrow> 'st \<Rightarrow> SessionError + unit" where
  "check_sender R mt sender_hash raw sender_address store =
     (case mt of
        PreKey \<Rightarrow>
          (case prekey_message_parse R raw of
             Inl _ \<Rightarrow> Inl MalformedEnvelope
           | Inr key \<Rightarrow>
               if hash_of_identity_key R key \<noteq> sender_hash then Inl IdentityHashMismatch else Inr ())
      | Ciphertext \<Rightarrow>
          (case get_identity R sender_address store of
             Inl e \<Rightarrow> Inl (SessStore e)
           | Inr (Some key) \<Rightarrow>
               if hash_of_identity_key R key = sender_hash then Inr () else Inl IdentityHashMismatch
           | Inr None \<Rightarrow> Inl IdentityHashMismatch))"

definition DoubleRatchetSession_decrypt ::
  "session_lib \<Rightarrow> ('spk, 'otk, 'kpk, 'st) ratchet_lib \<Rightarrow> bytes \<Rightarrow> bytes \<Rightarrow>
   ('spk, 'otk, 'kpk, 'st) DoubleRatchetSession \<Rightarrow>
   ((SessionError + bytes) \<times> ('spk, 'otk, 'kpk, 'st) DoubleRatchetSession) run" where
  "DoubleRatchetSession_decrypt L R rnd envelope s =
     (if length envelope < ENVELOPE_PREFIX_LEN then Return (Inl MalformedEnvelope, s)
      else run_bind (slice_range envelope 0 32) (\<lambda>sender_hash.
        run_bind (index_at envelope 32) (\<lambda>tag.
        case message_type_from_tag tag of
          None \<Rightarrow> Return (Inl MalformedEnvelope, s)
        | Some message_type \<Rightarrow>
            run_bind (slice_range envelope ENVELOPE_PREFIX_LEN (length envelope)) (\<lambda>raw.
            run_bind (address_for_hash L sender_hash) (\<lambda>sender_address.
            case check_sender R message_type sender_hash raw sender_address (drs_store s) of
              Inl e \<Rightarrow> Return (Inl e, s)
            | Inr _ \<Rightarrow>
                (let (r, store) = decrypt_message R (SerializedCiphertext_new message_type raw)
                       sender_address (drs_local_address s) rnd (drs_store s)
                 in Return (map_err SessDecrypt r, s\<lparr>drs_store := store\<rparr>)))))))"

definition establish_with_malformed_prekey ::
  "session_lib \<Rightarrow> ('spk, 'otk) signal_lib \<Rightarrow> ('spk, 'otk, 'kpk) record_lib \<Rightarrow> ('spk, 'otk, 'kpk, 'st) ratchet_lib \<Rightarrow>
   bob_rand \<Rightarrow> u64 \<Rightarrow> bytes \<Rightarrow> bytes \<Rightarrow> bytes \<Rightarrow> (SessionError + unit) run" where
  "establish_with_malformed_prekey L S A R w now rnd bob_identity alice_identity =
     try_bind (DoubleRatchetSession_new_bob L S R w bob_identity) (\<lambda>bob.
     try_bind (DoubleRatchetSession_publish_bundle L S A bob) (\<lambda>bundle.
     let one_time_prekey = (case (sb_pre_key_id bundle, sb_pre_key_public bundle) of
           (Some i, Some p) \<Rightarrow> Some (i, p) | _ \<Rightarrow> None) in
     try_bind (lift (map_err Establishment (bundle_new L
         (bundle\<lparr>sb_pre_key_id := map_option fst one_time_prekey,
                 sb_pre_key_public := map_option snd one_time_prekey,
                 sb_signed_pre_key_signature := replicate 64 0\<rparr>)))) (\<lambda>malformed_bundle.
     try_bind (DoubleRatchetSession_new_alice L S R now rnd alice_identity malformed_bundle) (\<lambda>_.
       Return (Inr ())))))"

section \<open>What is relied on of the library\<close>

text \<open>
  Construction succeeds and records carry what they were made with.
\<close>

definition library_ok ::
  "session_lib \<Rightarrow> ('spk, 'otk) signal_lib \<Rightarrow> ('spk, 'otk, 'kpk) record_lib \<Rightarrow> ('spk, 'otk, 'kpk, 'st) ratchet_lib \<Rightarrow> bool" where
  "library_ok L S A R \<longleftrightarrow>
     signal_ok S \<and> device_valid L 1 \<and> (\<forall>b. bundle_new L b = Inr b) \<and> (\<forall>x. length (sha256_of R x) = 32) \<and>
     (\<forall>i k. get_otk_id A (otk_new S i k) = Inr i \<and> get_otk_public A (otk_new S i k) = Inr (key_public S k)) \<and>
     (\<forall>i t k s. get_spk_id A (spk_new S i t k s) = Inr i \<and>
        get_spk_public A (spk_new S i t k s) = Inr (key_public S k) \<and>
        get_spk_signature A (spk_new S i t k s) = Inr s) \<and>
     (\<forall>i t k s. get_kpk_id A (kpk_new R i t k s) = Inr i \<and>
        get_kpk_public A (kpk_new R i t k s) = Inr (kem_public R k) \<and>
        get_kpk_signature A (kpk_new R i t k s) = Inr s) \<and>
     (\<forall>k m r. \<exists>s. calculate_signature R k m r = Inr s) \<and>
     (\<forall>i n. \<exists>st. store_new R i n = Inr st) \<and>
     (\<forall>i r st. \<exists>st'. save_signed_pre_key R i r st = Inr st') \<and>
     (\<forall>i r st. \<exists>st'. save_kyber_pre_key R i r st = Inr st') \<and>
     (\<forall>i r st. \<exists>st'. save_pre_key R i r st = Inr st')"

text \<open>
  The store a receiver holds after saving the records of its bundle.
\<close>

definition prepared ::
  "('spk, 'otk) signal_lib \<Rightarrow> ('spk, 'otk, 'kpk, 'st) ratchet_lib \<Rightarrow> bob_rand \<Rightarrow> bytes \<Rightarrow> 'spk \<Rightarrow> 'kpk \<Rightarrow> 'otk \<Rightarrow> 'st \<Rightarrow> bool" where
  "prepared S R w identity spk kpk otk st \<longleftrightarrow>
     generate_signed_pre_key S identity 1 (br_now w) (br_signed_secret w) (br_signed_rnd w) = Return spk \<and>
     generate_kyber_prekey R 1 identity (br_now w) (br_kyber_secret w) (br_kyber_rnd w) = Inr kpk \<and>
     otk = otk_new S 1 (br_one_time_secrets w 0) \<and>
     and_then (store_new R identity 1) (\<lambda>st. and_then (save_signed_pre_key R 1 spk st) (\<lambda>st.
       and_then (save_kyber_pre_key R 1 kpk st) (\<lambda>st. save_pre_key R 1 otk st))) = Inr st"

text \<open>
  The protocol's completeness: a fresh sender that processes the bundle of a prepared receiver
  is in step with it (\<open>synced\<close>), and parties in step exchange the sender's next message and stay
  in step, provided each names the other by the address the other used for itself. Until the
  sender hears back its messages are first messages and carry its identity key; a later message
  is only produced when the receiver has that key on record. The law is idealised in one respect:
  the time given to the encryption is not restricted, so it leaves out that libsignal may give up
  a session whose first message has gone unacknowledged for weeks. What rests on it is
  meant for sessions in use.
\<close>

definition establishment_ok ::
  "session_lib \<Rightarrow> ('spk, 'otk) signal_lib \<Rightarrow> ('spk, 'otk, 'kpk) record_lib \<Rightarrow> ('spk, 'otk, 'kpk, 'st) ratchet_lib \<Rightarrow>
   (ProtocolAddress \<Rightarrow> ProtocolAddress \<Rightarrow> bytes \<Rightarrow> 'st \<Rightarrow> 'st \<Rightarrow> bool) \<Rightarrow> bool" where
  "establishment_ok L S A R synced \<longleftrightarrow>
     (\<forall>w bob spk kpk otk stb d b alice sta ra la now rnd.
        prepared S R w bob spk kpk otk stb \<longrightarrow>
        build_prekey_bundle L A 1 d (public_identity S bob) spk kpk (Some otk) = Inr b \<longrightarrow>
        store_new R alice 1 = Inr sta \<longrightarrow>
        (\<exists>sta'. process_prekey_bundle R ra la b now rnd sta = (Inr (), sta') \<and>
           synced ra la (public_identity S alice) sta' stb))"

definition message_ok ::
  "('spk, 'otk, 'kpk, 'st) ratchet_lib \<Rightarrow> bytes \<Rightarrow> ProtocolAddress \<Rightarrow> 'st \<Rightarrow> CiphertextMessage \<Rightarrow> bool" where
  "message_ok R ik la st ct =
     (case ct of
        PreKeySignalMessage bs \<Rightarrow> prekey_message_parse R bs = Inr ik
      | SignalMessage bs \<Rightarrow> signal_message_parse R bs = Inr () \<and> get_identity R la st = Inr (Some ik)
      | _ \<Rightarrow> False)"

definition transfer_ok ::
  "('spk, 'otk, 'kpk, 'st) ratchet_lib \<Rightarrow>
   (ProtocolAddress \<Rightarrow> ProtocolAddress \<Rightarrow> bytes \<Rightarrow> 'st \<Rightarrow> 'st \<Rightarrow> bool) \<Rightarrow> bool" where
  "transfer_ok R synced \<longleftrightarrow>
     (\<forall>ra la ik a b m now rnd rnd'. synced ra la ik a b \<longrightarrow>
        (\<exists>ct a' b'. message_encrypt R m ra la now rnd a = (Inr ct, a') \<and> message_ok R ik la b ct \<and>
           message_decrypt R ct la ra rnd' b = (Inr m, b') \<and> synced ra la ik a' b'))"

definition ratchet_ok ::
  "session_lib \<Rightarrow> ('spk, 'otk) signal_lib \<Rightarrow> ('spk, 'otk, 'kpk) record_lib \<Rightarrow> ('spk, 'otk, 'kpk, 'st) ratchet_lib \<Rightarrow>
   (ProtocolAddress \<Rightarrow> ProtocolAddress \<Rightarrow> bytes \<Rightarrow> 'st \<Rightarrow> 'st \<Rightarrow> bool) \<Rightarrow> bool" where
  "ratchet_ok L S A R synced \<longleftrightarrow>
     library_ok L S A R \<and> establishment_ok L S A R synced \<and> transfer_ok R synced"

text \<open>
  Trust on first use: a fresh store knows no identity, saving prekeys and encrypting bind none,
  establishment binds at most the bundle's key to the remote address, decrypting a first
  message at most the key in its header to the sender's address, decrypting a later one none.
\<close>

definition binds_at_most ::
  "('spk, 'otk, 'kpk, 'st) ratchet_lib \<Rightarrow> (ProtocolAddress \<times> bytes) option \<Rightarrow> 'st \<Rightarrow> 'st \<Rightarrow> bool" where
  "binds_at_most R new st st' \<longleftrightarrow>
     (\<forall>a k. get_identity R a st' = Inr (Some k) \<longrightarrow> get_identity R a st = Inr (Some k) \<or> new = Some (a, k))"

definition binding_ok :: "('spk, 'otk, 'kpk, 'st) ratchet_lib \<Rightarrow> bool" where
  "binding_ok R \<longleftrightarrow>
     (\<forall>i n st a. store_new R i n = Inr st \<longrightarrow> get_identity R a st = Inr None) \<and>
     (\<forall>i r st st'. save_signed_pre_key R i r st = Inr st' \<longrightarrow> binds_at_most R None st st') \<and>
     (\<forall>i r st st'. save_kyber_pre_key R i r st = Inr st' \<longrightarrow> binds_at_most R None st st') \<and>
     (\<forall>i r st st'. save_pre_key R i r st = Inr st' \<longrightarrow> binds_at_most R None st st') \<and>
     (\<forall>ra la b now rnd st. binds_at_most R (Some (ra, sb_identity_key b)) st
        (snd (process_prekey_bundle R ra la b now rnd st))) \<and>
     (\<forall>m ra la now rnd st. binds_at_most R None st (snd (message_encrypt R m ra la now rnd st))) \<and>
     (\<forall>bs k ra la rnd st. prekey_message_parse R bs = Inr k \<longrightarrow>
        binds_at_most R (Some (ra, k)) st (snd (message_decrypt R (PreKeySignalMessage bs) ra la rnd st))) \<and>
     (\<forall>bs ra la rnd st. binds_at_most R None st (snd (message_decrypt R (SignalMessage bs) ra la rnd st)))"

section \<open>Channels\<close>

text \<open>
  Sending a list of messages one by one, each received before the next is sent.
\<close>

fun exchange ::
  "('r \<Rightarrow> 'm \<Rightarrow> 'a \<Rightarrow> ('e + 'c) \<times> 'a) \<Rightarrow> ('q \<Rightarrow> 'c \<Rightarrow> 'b \<Rightarrow> (('e + 'm) \<times> 'b) run) \<Rightarrow>
   ('r \<times> 'm \<times> 'q) list \<Rightarrow> 'a \<Rightarrow> 'b \<Rightarrow> ('e + 'm list) run" where
  "exchange send recv [] a b = Return (Inr [])"
| "exchange send recv ((r, m, q) # ms) a b =
     (case send r m a of
        (Inl e, _) \<Rightarrow> Return (Inl e)
      | (Inr c, a') \<Rightarrow>
          (case recv q c b of
             Panic \<Rightarrow> Panic
           | Return (Inl e, _) \<Rightarrow> Return (Inl e)
           | Return (Inr m', b') \<Rightarrow>
               try_bind (exchange send recv ms a' b') (\<lambda>out. Return (Inr (m' # out)))))"

locale channel =
  fixes ok :: bool
    and linked :: "'a \<Rightarrow> 'b \<Rightarrow> bool"
    and send :: "'r \<Rightarrow> 'm \<Rightarrow> 'a \<Rightarrow> ('e + 'c) \<times> 'a"
    and recv :: "'q \<Rightarrow> 'c \<Rightarrow> 'b \<Rightarrow> (('e + 'm) \<times> 'b) run"
  assumes transfer: "ok \<Longrightarrow> linked a b \<Longrightarrow>
    \<exists>c a' b'. send r m a = (Inr c, a') \<and> recv q c b = Return (Inr m, b') \<and> linked a' b'"
begin

lemma exchange_delivers:
  assumes "ok" "linked a b"
  shows "exchange send recv ms a b = Return (Inr (map (fst \<circ> snd) ms))"
  using assms(2)
proof (induction ms arbitrary: a b)
  case (Cons x ms)
  obtain r m q where x: "x = (r, m, q)" by (cases x) auto
  obtain c a' b' where "send r m a = (Inr c, a')" "recv q c b = Return (Inr m, b')" "linked a' b'"
    using transfer [OF assms(1) Cons.prems] by blast
  then show ?case using Cons.IH [of a' b'] x by simp
qed simp

end

section \<open>Lemmas\<close>

lemma library_okD:
  assumes "library_ok L S A R"
  shows "signal_ok S" "device L = Return 1" "bundle_new L b = Inr b" "length (sha256_of R x) = 32"
    "get_otk_id A (otk_new S i k) = Inr i" "get_otk_public A (otk_new S i k) = Inr (key_public S k)"
    "get_spk_id A (spk_new S i t k s) = Inr i" "get_spk_public A (spk_new S i t k s) = Inr (key_public S k)"
    "get_spk_signature A (spk_new S i t k s) = Inr s"
    "get_kpk_id A (kpk_new R i t k s) = Inr i" "get_kpk_public A (kpk_new R i t k s) = Inr (kem_public R k)"
    "get_kpk_signature A (kpk_new R i t k s) = Inr s"
  using assms by (simp_all add: library_ok_def device_def DEVICE_ID_def)

lemma library_makes:
  assumes "library_ok L S A R"
  shows "\<exists>s. calculate_signature R k m r = Inr s" "\<exists>st. store_new R k n = Inr st"
    "\<exists>st'. save_signed_pre_key R i spk st = Inr st'" "\<exists>st'. save_kyber_pre_key R i kpk st = Inr st'"
    "\<exists>st'. save_pre_key R i otk st = Inr st'"
  using assms by (simp_all add: library_ok_def)

lemmas facade_defs = REGISTRATION_ID_def DEVICE_ID_def SIGNED_PREKEY_ID_def KYBER_PREKEY_ID_def
  ONE_TIME_PREKEY_ID_def TYPE_TAG_PREKEY_def TYPE_TAG_CIPHERTEXT_def ENVELOPE_PREFIX_LEN_def

lemma address_for_hash_ok [simp]:
  "library_ok L S A R \<Longrightarrow> address_for_hash L h = Return \<lparr>addr_name = hex_name h, addr_device = 1\<rparr>"
  by (simp add: address_for_hash_def library_okD)

lemma prepared_exists:
  assumes "library_ok L S A R"
  obtains spk kpk otk st where "prepared S R w identity spk kpk otk st"
proof -
  obtain sg where "sign S identity (key_public S (br_signed_secret w)) (br_signed_rnd w) = Some sg"
    using library_okD(1) [OF assms] unfolding signal_ok_def by blast
  then obtain spk where 1: "generate_signed_pre_key S identity 1 (br_now w) (br_signed_secret w) (br_signed_rnd w) = Return spk"
    by (simp add: generate_signed_pre_key_def)
  obtain ks where "calculate_signature R identity (kem_public R (br_kyber_secret w)) (br_kyber_rnd w) = Inr ks"
    using library_makes [OF assms] by blast
  then obtain kpk where 2: "generate_kyber_prekey R 1 identity (br_now w) (br_kyber_secret w) (br_kyber_rnd w) = Inr kpk"
    by (simp add: generate_kyber_prekey_def)
  obtain st0 where "store_new R identity 1 = Inr st0" using library_makes [OF assms] by blast
  moreover obtain st1 where "save_signed_pre_key R 1 spk st0 = Inr st1" using library_makes [OF assms] by blast
  moreover obtain st2 where "save_kyber_pre_key R 1 kpk st1 = Inr st2" using library_makes [OF assms] by blast
  moreover obtain st3 where "save_pre_key R 1 (otk_new S 1 (br_one_time_secrets w 0)) st2 = Inr st3"
    using library_makes [OF assms] by blast
  ultimately have "prepared S R w identity spk kpk (otk_new S 1 (br_one_time_secrets w 0)) st3"
    using 1 2 by (simp add: prepared_def)
  then show thesis by (rule that)
qed

lemma new_bob_ok:
  assumes "library_ok L S A R" "prepared S R w identity spk kpk otk st"
  shows "DoubleRatchetSession_new_bob L S R w identity = Return (Inr
     \<lparr>drs_identity = identity,
      drs_local_address = \<lparr>addr_name = hex_name (identity_hash S R identity), addr_device = 1\<rparr>,
      drs_local_hash = identity_hash S R identity, drs_store = st, drs_remote_address = None,
      drs_signed_prekey = Some spk, drs_kyber_prekey = Some kpk, drs_one_time_prekey = Some otk\<rparr>)"
proof -
  have g: "generate_one_time_pre_keys S (br_one_time_secrets w) 1 1 = [otk]"
    using assms(2) by (simp add: generate_one_time_pre_keys_def prepared_def)
  show ?thesis
    using assms g
    by (auto simp: DoubleRatchetSession_new_bob_def prepared_def facade_defs lift_def map_err_def and_then_Inr)
qed

lemma publish_ok:
  assumes "library_ok L S A R" "prepared S R w (drs_identity s) spk kpk otk st"
    and "drs_signed_prekey s = Some spk" "drs_kyber_prekey s = Some kpk" "drs_one_time_prekey s = Some otk"
  shows "\<exists>b. build_prekey_bundle L A 1 1 (public_identity S (drs_identity s)) spk kpk (Some otk) = Inr b \<and>
    DoubleRatchetSession_publish_bundle L S A s = Return (Inr b) \<and>
    sb_identity_key b = public_identity S (drs_identity s) \<and> sb_device_id b = 1"
  using assms
  by (auto simp: DoubleRatchetSession_publish_bundle_def build_prekey_bundle_def prepared_def library_okD
      generate_signed_pre_key_def generate_kyber_prekey_def and_then_Inr lift_def ok_or_def map_err_def
      facade_defs split: option.splits)

text \<open>A sender and a receiver session in step: each addresses the other by the other's own address.\<close>

definition session_linked ::
  "('spk, 'otk, 'kpk, 'st) ratchet_lib \<Rightarrow>
   (ProtocolAddress \<Rightarrow> ProtocolAddress \<Rightarrow> bytes \<Rightarrow> 'st \<Rightarrow> 'st \<Rightarrow> bool) \<Rightarrow>
   ('spk, 'otk, 'kpk, 'st) DoubleRatchetSession \<Rightarrow> ('spk, 'otk, 'kpk, 'st) DoubleRatchetSession \<Rightarrow> bool" where
  "session_linked R synced a b \<longleftrightarrow>
     (\<exists>ik. drs_local_hash a = hash_of_identity_key R ik \<and>
        drs_local_address a = \<lparr>addr_name = hex_name (hash_of_identity_key R ik), addr_device = 1\<rparr> \<and>
        drs_remote_address a = Some (drs_local_address b) \<and>
        synced (drs_local_address b) (drs_local_address a) ik (drs_store a) (drs_store b))"

lemma establish_linked:
  assumes "ratchet_ok L S A R synced"
  shows "\<exists>bob bundle alice.
    DoubleRatchetSession_new_bob L S R w bob_id = Return (Inr bob) \<and>
    DoubleRatchetSession_publish_bundle L S A bob = Return (Inr bundle) \<and>
    DoubleRatchetSession_new_alice L S R now rnd alice_id bundle = Return (Inr alice) \<and>
    session_linked R synced alice bob"
proof -
  have lib: "library_ok L S A R" using assms by (simp add: ratchet_ok_def)
  obtain spk kpk otk st where p: "prepared S R w bob_id spk kpk otk st" by (rule prepared_exists [OF lib])
  define bob where "bob = \<lparr>drs_identity = bob_id,
      drs_local_address = \<lparr>addr_name = hex_name (identity_hash S R bob_id), addr_device = 1\<rparr>,
      drs_local_hash = identity_hash S R bob_id, drs_store = st, drs_remote_address = None,
      drs_signed_prekey = Some spk, drs_kyber_prekey = Some kpk, drs_one_time_prekey = Some otk\<rparr>"
  have bob: "DoubleRatchetSession_new_bob L S R w bob_id = Return (Inr bob)"
    using new_bob_ok [OF lib p] by (simp add: bob_def)
  have bob_parts: "drs_identity bob = bob_id" "drs_signed_prekey bob = Some spk"
    "drs_kyber_prekey bob = Some kpk" "drs_one_time_prekey bob = Some otk"
    by (simp_all add: bob_def)
  obtain b where b: "build_prekey_bundle L A 1 1 (public_identity S bob_id) spk kpk (Some otk) = Inr b"
    "DoubleRatchetSession_publish_bundle L S A bob = Return (Inr b)"
    "sb_identity_key b = public_identity S bob_id" "sb_device_id b = 1"
    using publish_ok [OF lib _ bob_parts(2-4)] p unfolding bob_parts(1) by blast
  obtain sta where sta: "store_new R alice_id 1 = Inr sta" using library_makes(2) [OF lib] by blast
  define la where "la = \<lparr>addr_name = hex_name (identity_hash S R alice_id), addr_device = 1\<rparr>"
  obtain sta' where sta': "process_prekey_bundle R (drs_local_address bob) la b now rnd sta = (Inr (), sta')"
    "synced (drs_local_address bob) la (public_identity S alice_id) sta' st"
    using assms p b(1) sta unfolding ratchet_ok_def establishment_ok_def by metis
  have "DoubleRatchetSession_new_alice L S R now rnd alice_id b = Return (Inr
     \<lparr>drs_identity = alice_id, drs_local_address = la, drs_local_hash = identity_hash S R alice_id,
      drs_store = sta', drs_remote_address = Some (drs_local_address bob), drs_signed_prekey = None,
      drs_kyber_prekey = None, drs_one_time_prekey = None\<rparr>)"
    using lib sta sta'(1) b(3,4)
    by (simp add: DoubleRatchetSession_new_alice_def establish_outbound_session_def la_def bob_def lift_def
        map_err_def facade_defs identity_hash_def Let_def)
  moreover have "session_linked R synced \<lparr>drs_identity = alice_id, drs_local_address = la,
      drs_local_hash = identity_hash S R alice_id,
      drs_store = sta', drs_remote_address = Some (drs_local_address bob), drs_signed_prekey = None,
      drs_kyber_prekey = None, drs_one_time_prekey = None\<rparr> bob"
    using sta'(2) unfolding session_linked_def
    by (intro exI [of _ "public_identity S alice_id"]) (simp add: la_def identity_hash_def bob_def)
  ultimately show ?thesis using bob b(2) by blast
qed

lemma decrypt_framed:
  assumes "library_ok L S A R" "length h = 32"
  shows "DoubleRatchetSession_decrypt L R rnd (h @ [type_tag mt] @ raw) s =
    (case check_sender R mt h raw \<lparr>addr_name = hex_name h, addr_device = 1\<rparr> (drs_store s) of
       Inl e \<Rightarrow> Return (Inl e, s)
     | Inr _ \<Rightarrow>
        (let (r, store) = decrypt_message R (SerializedCiphertext_new mt raw)
               \<lparr>addr_name = hex_name h, addr_device = 1\<rparr> (drs_local_address s) rnd (drs_store s)
         in Return (map_err SessDecrypt r, s\<lparr>drs_store := store\<rparr>)))"
proof -
  have "index_at (h @ [type_tag mt] @ raw) 32 = Return (type_tag mt)"
    "slice_range (h @ [type_tag mt] @ raw) 0 32 = Return h"
    "slice_range (h @ [type_tag mt] @ raw) 33 (length (h @ [type_tag mt] @ raw)) = Return raw"
    using assms(2) by (simp_all add: index_at_def slice_range_def nth_append)
  moreover have "message_type_from_tag (type_tag mt) = Some mt"
    by (cases mt) (simp_all add: message_type_from_tag_def type_tag_def facade_defs)
  ultimately show ?thesis
    using assms by (simp add: DoubleRatchetSession_decrypt_def ENVELOPE_PREFIX_LEN_def)
qed

lemma framed_message:
  assumes "message_ok R ik la st ct"
  shows "\<exists>mt bs. serialize_ciphertext ct = Inr \<lparr>sc_message_type = mt, sc_bytes = bs\<rparr> \<and>
    check_sender R mt (hash_of_identity_key R ik) bs la st = Inr () \<and>
    parse_ciphertext R (SerializedCiphertext_new mt bs) = Inr ct"
proof (cases ct)
  case (PreKeySignalMessage bs)
  then show ?thesis using assms
    by (intro exI [of _ PreKey] exI [of _ bs])
      (simp add: message_ok_def serialize_ciphertext_def check_sender_def parse_ciphertext_def
        SerializedCiphertext_new_def map_err_def)
next
  case (SignalMessage bs)
  then show ?thesis using assms
    by (intro exI [of _ Ciphertext] exI [of _ bs])
      (simp add: message_ok_def serialize_ciphertext_def check_sender_def parse_ciphertext_def
        SerializedCiphertext_new_def map_err_def)
qed (use assms in \<open>simp_all add: message_ok_def\<close>)

interpretation session_channel: channel "ratchet_ok L S A R synced" "session_linked R synced"
    "\<lambda>p m s. DoubleRatchetSession_encrypt R (fst p) (snd p) m s" "\<lambda>q c s. DoubleRatchetSession_decrypt L R q c s"
  for L S A R synced
proof unfold_locales
  fix a b :: "('a, 'b, 'c, 'd) DoubleRatchetSession" and r :: "u64 \<times> bytes" and m q :: bytes
  assume ok: "ratchet_ok L S A R synced" and ln: "session_linked R synced a b"
  then have lib: "library_ok L S A R" by (simp add: ratchet_ok_def)
  obtain ik where ik: "drs_local_hash a = hash_of_identity_key R ik"
    "drs_local_address a = \<lparr>addr_name = hex_name (hash_of_identity_key R ik), addr_device = 1\<rparr>"
    "drs_remote_address a = Some (drs_local_address b)"
    "synced (drs_local_address b) (drs_local_address a) ik (drs_store a) (drs_store b)"
    using ln unfolding session_linked_def by blast
  obtain ct a' b' where ct: "message_encrypt R m (drs_local_address b) (drs_local_address a) (fst r) (snd r) (drs_store a) = (Inr ct, a')"
    "message_ok R ik (drs_local_address a) (drs_store b) ct"
    "message_decrypt R ct (drs_local_address a) (drs_local_address b) q (drs_store b) = (Inr m, b')"
    "synced (drs_local_address b) (drs_local_address a) ik a' b'"
    using ok ik(4) unfolding ratchet_ok_def transfer_ok_def by metis
  have hlen: "length (hash_of_identity_key R ik) = 32" using lib by (simp add: hash_of_identity_key_def library_okD)
  have linked: "session_linked R synced (a\<lparr>drs_store := a'\<rparr>) (b\<lparr>drs_store := b'\<rparr>)"
    using ik ct(4) unfolding session_linked_def by auto
  define h where "h = hash_of_identity_key R ik"
  have enc: "DoubleRatchetSession_encrypt R (fst r) (snd r) m a = (Inr (h @ [type_tag mt] @ bs), a\<lparr>drs_store := a'\<rparr>)"
    if "serialize_ciphertext ct = Inr \<lparr>sc_message_type = mt, sc_bytes = bs\<rparr>" for mt bs
    using that ct(1) ik(1,3) by (simp add: DoubleRatchetSession_encrypt_def encrypt_message_def map_err_def h_def)
  have dec: "DoubleRatchetSession_decrypt L R q (h @ [type_tag mt] @ bs) b = Return (Inr m, b\<lparr>drs_store := b'\<rparr>)"
    if "check_sender R mt h bs (drs_local_address a) (drs_store b) = Inr ()"
      "parse_ciphertext R (SerializedCiphertext_new mt bs) = Inr ct" for mt bs
    unfolding h_def decrypt_framed [OF lib hlen]
    using that ct(3) unfolding ik(2) h_def by (simp add: decrypt_message_def map_err_def)
  obtain mt bs where "serialize_ciphertext ct = Inr \<lparr>sc_message_type = mt, sc_bytes = bs\<rparr>"
      "check_sender R mt h bs (drs_local_address a) (drs_store b) = Inr ()"
      "parse_ciphertext R (SerializedCiphertext_new mt bs) = Inr ct"
    using framed_message [OF ct(2)] unfolding h_def by blast
  then show "\<exists>c a' b'. DoubleRatchetSession_encrypt R (fst r) (snd r) m a = (Inr c, a') \<and>
      DoubleRatchetSession_decrypt L R q c b = Return (Inr m, b') \<and> session_linked R synced a' b'"
    using enc dec linked by blast
qed

section \<open>Bound identities\<close>

text \<open>Sessions as a caller can make and use them; a failed call leaves the session it returns.\<close>

inductive session_reach ::
  "session_lib \<Rightarrow> ('spk, 'otk) signal_lib \<Rightarrow> ('spk, 'otk, 'kpk, 'st) ratchet_lib \<Rightarrow>
   ('spk, 'otk, 'kpk, 'st) DoubleRatchetSession \<Rightarrow> bool"
  for L S R where
  bob: "DoubleRatchetSession_new_bob L S R w i = Return (Inr s) \<Longrightarrow> session_reach L S R s"
| alice: "DoubleRatchetSession_new_alice L S R now rnd i b = Return (Inr s) \<Longrightarrow> session_reach L S R s"
| encrypt: "session_reach L S R s \<Longrightarrow> DoubleRatchetSession_encrypt R now rnd m s = (r, s') \<Longrightarrow> session_reach L S R s'"
| decrypt: "session_reach L S R s \<Longrightarrow> DoubleRatchetSession_decrypt L R rnd e s = Return (r, s') \<Longrightarrow>
    session_reach L S R s'"

definition names_match :: "('spk, 'otk, 'kpk, 'st) ratchet_lib \<Rightarrow> 'st \<Rightarrow> bool" where
  "names_match R st \<longleftrightarrow> (\<forall>a k. get_identity R a st = Inr (Some k) \<longrightarrow> addr_name a = hex_name (hash_of_identity_key R k))"

lemma names_match_fresh: "binding_ok R \<Longrightarrow> store_new R i n = Inr st \<Longrightarrow> names_match R st"
  unfolding binding_ok_def names_match_def by fastforce

lemma names_match_kept:
  assumes "names_match R st" "binds_at_most R new st st'"
    and "\<And>a k. new = Some (a, k) \<Longrightarrow> addr_name a = hex_name (hash_of_identity_key R k)"
  shows "names_match R st'"
  using assms unfolding names_match_def binds_at_most_def by metis

lemma binding_okD:
  assumes "binding_ok R"
  shows "save_signed_pre_key R i spk st = Inr st' \<Longrightarrow> binds_at_most R None st st'"
    "save_kyber_pre_key R i kpk st = Inr st' \<Longrightarrow> binds_at_most R None st st'"
    "save_pre_key R i otk st = Inr st' \<Longrightarrow> binds_at_most R None st st'"
    "process_prekey_bundle R ra la b now rnd st = (r1, st') \<Longrightarrow>
       binds_at_most R (Some (ra, sb_identity_key b)) st st'"
    "message_encrypt R m ra la now rnd st = (r2, st') \<Longrightarrow> binds_at_most R None st st'"
    "prekey_message_parse R bs = Inr k \<Longrightarrow> message_decrypt R (PreKeySignalMessage bs) ra la rnd st = (r3, st') \<Longrightarrow>
       binds_at_most R (Some (ra, k)) st st'"
    "message_decrypt R (SignalMessage bs) ra la rnd st = (r3, st') \<Longrightarrow> binds_at_most R None st st'"
  using assms unfolding binding_ok_def by (metis snd_conv)+

lemma new_bob_names:
  assumes ok: "binding_ok R" and new: "DoubleRatchetSession_new_bob L S R w i = Return (Inr s)"
  shows "names_match R (drs_store s)"
proof -
  obtain st0 spk st1 kpk st2 otk st3 where st: "store_new R i REGISTRATION_ID = Inr st0"
    "save_signed_pre_key R SIGNED_PREKEY_ID spk st0 = Inr st1" "save_kyber_pre_key R KYBER_PREKEY_ID kpk st1 = Inr st2"
    "save_pre_key R ONE_TIME_PREKEY_ID otk st2 = Inr st3" "drs_store s = st3"
    using new
    by (auto simp: DoubleRatchetSession_new_bob_def lift_def map_err_def try_bind_def run_bind_def
        split: sum.splits run.splits list.splits)
  note match_none = names_match_kept [where new = None, simplified]
  have "names_match R st1" by (rule match_none [OF names_match_fresh [OF ok st(1)] binding_okD(1) [OF ok st(2)]])
  from match_none [OF this binding_okD(2) [OF ok st(3)]]
  show ?thesis unfolding st(5) by (rule match_none [OF _ binding_okD(3) [OF ok st(4)]])
qed

lemma new_alice_names:
  assumes ok: "binding_ok R" and new: "DoubleRatchetSession_new_alice L S R now rnd i b = Return (Inr s)"
  shows "names_match R (drs_store s)"
proof -
  obtain st0 la r where st: "store_new R i REGISTRATION_ID = Inr st0"
    "process_prekey_bundle R \<lparr>addr_name = hex_name (hash_of_identity_key R (sb_identity_key b)),
       addr_device = sb_device_id b\<rparr> la b now rnd st0 = (r, drs_store s)"
    using new
    by (auto simp: DoubleRatchetSession_new_alice_def lift_def map_err_def try_bind_def run_bind_def Let_def
        establish_outbound_session_def split: sum.splits run.splits prod.splits)
  show ?thesis
    by (rule names_match_kept [OF names_match_fresh [OF ok st(1)] binding_okD(4) [OF ok st(2)]]) auto
qed

lemma encrypt_names:
  assumes "binding_ok R" "names_match R (drs_store s)" "DoubleRatchetSession_encrypt R now rnd m s = (r, s')"
  shows "names_match R (drs_store s')"
proof (cases "drs_remote_address s")
  case (Some ra)
  obtain r1 st where st: "message_encrypt R m ra (drs_local_address s) now rnd (drs_store s) = (r1, st)" by fastforce
  then have "drs_store s' = st"
    using assms(3) Some
    by (auto simp: DoubleRatchetSession_encrypt_def encrypt_message_def map_err_def Let_def split: sum.splits)
  then show ?thesis using names_match_kept [OF assms(2) binding_okD(5) [OF assms(1) st]] by simp
qed (use assms in \<open>simp add: DoubleRatchetSession_encrypt_def\<close>)

text \<open>What a call of \<open>decrypt\<close> that reaches the ratchet has checked.\<close>

definition sender_verified ::
  "session_lib \<Rightarrow> ('spk, 'otk, 'kpk, 'st) ratchet_lib \<Rightarrow> bytes \<Rightarrow> 'st \<Rightarrow> bool" where
  "sender_verified L R e st \<longleftrightarrow> ENVELOPE_PREFIX_LEN \<le> length e \<and> (\<exists>k.
     hash_of_identity_key R k = take 32 e \<and>
     (e ! 32 = TYPE_TAG_PREKEY \<and> prekey_message_parse R (drop 33 e) = Inr k \<or>
      e ! 32 = TYPE_TAG_CIPHERTEXT \<and>
        get_identity R \<lparr>addr_name = hex_name (take 32 e), addr_device = DEVICE_ID\<rparr> st = Inr (Some k)))"

lemma decrypt_cases:
  assumes "DoubleRatchetSession_decrypt L R rnd e s = Return (r, s')"
  shows "(s' = s \<and> isl r) \<or>
    (\<exists>mt r1 st. message_type_from_tag (e ! 32) = Some mt \<and>
       check_sender R mt (take 32 e) (drop 33 e) \<lparr>addr_name = hex_name (take 32 e), addr_device = DEVICE_ID\<rparr> (drs_store s) = Inr () \<and>
       ENVELOPE_PREFIX_LEN \<le> length e \<and>
       decrypt_message R (SerializedCiphertext_new mt (drop 33 e))
         \<lparr>addr_name = hex_name (take 32 e), addr_device = DEVICE_ID\<rparr> (drs_local_address s) rnd (drs_store s) = (r1, st) \<and>
       r = map_err SessDecrypt r1 \<and> s' = s\<lparr>drs_store := st\<rparr>)"
proof (cases "length e < ENVELOPE_PREFIX_LEN")
  case False
  then have "slice_range e 0 32 = Return (take 32 e)" "index_at e 32 = Return (e ! 32)"
    "slice_range e ENVELOPE_PREFIX_LEN (length e) = Return (drop 33 e)"
    by (auto simp: ENVELOPE_PREFIX_LEN_def slice_range_def index_at_def)
  then show ?thesis
    using assms False
    by (auto simp: DoubleRatchetSession_decrypt_def address_for_hash_def device_def Let_def
        split: option.splits sum.splits prod.splits if_splits)
qed (use assms in \<open>auto simp: DoubleRatchetSession_decrypt_def\<close>)

lemma check_sender_verified:
  assumes "message_type_from_tag (e ! 32) = Some mt" "ENVELOPE_PREFIX_LEN \<le> length e"
    and "check_sender R mt (take 32 e) (drop 33 e) \<lparr>addr_name = hex_name (take 32 e), addr_device = DEVICE_ID\<rparr> st = Inr ()"
  shows "sender_verified L R e st"
  using assms
  by (auto simp: sender_verified_def check_sender_def message_type_from_tag_def facade_defs
      split: if_splits sum.splits option.splits)

lemma decrypt_names:
  assumes ok: "binding_ok R" and nm: "names_match R (drs_store s)"
    and d: "DoubleRatchetSession_decrypt L R rnd e s = Return (r, s')"
  shows "names_match R (drs_store s')"
  using decrypt_cases [OF d]
proof (elim disjE exE conjE)
  fix mt r1 st
  let ?ra = "\<lparr>addr_name = hex_name (take 32 e), addr_device = DEVICE_ID\<rparr>"
  assume c: "check_sender R mt (take 32 e) (drop 33 e) ?ra (drs_store s) = Inr ()"
    and dm: "decrypt_message R (SerializedCiphertext_new mt (drop 33 e)) ?ra (drs_local_address s) rnd (drs_store s) = (r1, st)"
    and s': "s' = s\<lparr>drs_store := st\<rparr>"
  have "names_match R st"
  proof (cases mt)
    case PreKey
    then obtain k where k: "prekey_message_parse R (drop 33 e) = Inr k" "hash_of_identity_key R k = take 32 e"
      using c by (auto simp: check_sender_def split: sum.splits if_splits)
    then obtain r2 where "message_decrypt R (PreKeySignalMessage (drop 33 e)) ?ra (drs_local_address s) rnd (drs_store s) = (r2, st)"
      using dm PreKey
      by (auto simp: decrypt_message_def parse_ciphertext_def SerializedCiphertext_new_def map_err_def apfst_def map_prod_def
          split: prod.splits)
    from names_match_kept [OF nm binding_okD(6) [OF ok k(1) this]] k(2) show ?thesis by simp
  next
    case Ciphertext
    then have "st = drs_store s \<or>
        (\<exists>r2. message_decrypt R (SignalMessage (drop 33 e)) ?ra (drs_local_address s) rnd (drs_store s) = (r2, st))"
      using dm
      by (auto simp: decrypt_message_def parse_ciphertext_def SerializedCiphertext_new_def map_err_def apfst_def map_prod_def
          Let_def and_then_Inr split: prod.splits sum.splits)
    then show ?thesis using nm names_match_kept [OF nm binding_okD(7) [OF ok]] by auto
  qed
  then show ?thesis using s' by simp
qed (use nm in simp)

lemma reach_names: "session_reach L S R s \<Longrightarrow> binding_ok R \<Longrightarrow> names_match R (drs_store s)"
proof (induction rule: session_reach.induct)
  case (bob w i s)
  show ?case by (rule new_bob_names [OF bob(2,1)])
next
  case (alice now rnd i b s)
  show ?case by (rule new_alice_names [OF alice(2,1)])
next
  case (encrypt s now rnd m r s')
  show ?case by (rule encrypt_names [OF encrypt(4) encrypt(3) [OF encrypt(4)] encrypt(2)])
next
  case (decrypt s rnd e r s')
  show ?case by (rule decrypt_names [OF decrypt(4) decrypt(3) [OF decrypt(4)] decrypt(2)])
qed

section \<open>A concrete instance\<close>

text \<open>
  For the witnesses: a store is the owner's identity and the identities it has bound, a first
  message is the sender's identity and the plaintext framed, and there are no later messages.
\<close>

definition demo_session :: session_lib where
  "demo_session = \<lparr>identity_parses = (\<lambda>_. True), public_parses = (\<lambda>_. True), kyber_parses = (\<lambda>_. True),
     device_valid = (\<lambda>d. 0 < d), bundle_new = Inr\<rparr>"

type_synonym demo_spk = "u32 \<times> bytes \<times> bytes"

definition demo_keys :: "(demo_spk, u32 \<times> bytes) signal_lib" where
  "demo_keys =
     \<lparr>otk_new = Pair, otk_id = (\<lambda>r. Some (fst r)),
      otk_serialize = (\<lambda>r. Some (be_bytes 4 (unat (fst r)) @ snd r)),
      otk_deserialize = (\<lambda>b. Some (word_of_nat (be_nat (take 4 b)), drop 4 b)),
      spk_new = (\<lambda>i t k s. (i, k, s)), spk_public_key = (\<lambda>r. Some (fst (snd r))),
      spk_signature = (\<lambda>r. Some (snd (snd r))),
      spk_serialize = (\<lambda>r. Some (be_bytes 4 (unat (fst r)) @ demo_spk_bytes (snd r))),
      spk_deserialize = (\<lambda>b. Some (word_of_nat (be_nat (take 4 b)), demo_spk_parse (drop 4 b))),
      key_public = (\<lambda>k. k), sign = (\<lambda>k m r. Some (k @ m)), verify_signature = (\<lambda>k m s. s = k @ m),
      identity_serialize = (\<lambda>k. k), identity_try_from = Some\<rparr>"

definition demo_records :: "(demo_spk, u32 \<times> bytes, demo_spk) record_lib" where
  "demo_records =
     \<lparr>get_otk_id = (\<lambda>r. Inr (fst r)), get_otk_public = (\<lambda>r. Inr (snd r)),
      get_spk_id = (\<lambda>r. Inr (fst r)), get_spk_public = (\<lambda>r. Inr (fst (snd r))),
      get_spk_signature = (\<lambda>r. Inr (snd (snd r))),
      get_kpk_id = (\<lambda>r. Inr (fst r)), get_kpk_public = (\<lambda>r. Inr (fst (snd r))),
      get_kpk_signature = (\<lambda>r. Inr (snd (snd r)))\<rparr>"

type_synonym demo_store = "bytes \<times> (ProtocolAddress \<times> bytes) list"

definition demo_process :: "ProtocolAddress \<Rightarrow> SigBundle \<Rightarrow> demo_store \<Rightarrow> (SignalProtocolError + unit) \<times> demo_store" where
  "demo_process ra b st =
     (if sb_signed_pre_key_signature b = sb_identity_key b @ sb_signed_pre_key_public b
      then (Inr (), (fst st, (ra, sb_identity_key b) # snd st))
      else (Inl SignatureValidationFailed, st))"

definition demo_encrypt :: "bytes \<Rightarrow> ProtocolAddress \<Rightarrow> demo_store \<Rightarrow> (SignalProtocolError + CiphertextMessage) \<times> demo_store" where
  "demo_encrypt m ra st =
     (if map_of (snd st) ra = None then Inl SessionNotFound
      else Inr (PreKeySignalMessage (demo_spk_bytes (fst st, m))), st)"

definition demo_decrypt :: "CiphertextMessage \<Rightarrow> ProtocolAddress \<Rightarrow> demo_store \<Rightarrow> (SignalProtocolError + bytes) \<times> demo_store" where
  "demo_decrypt ct ra st =
     (case ct of
        PreKeySignalMessage bs \<Rightarrow>
          (let (ik, m) = demo_spk_parse bs in
           if map_of (snd st) ra = None \<or> map_of (snd st) ra = Some ik
           then (Inr m, (fst st, (ra, ik) # snd st)) else (Inl UntrustedSignalIdentity, st))
      | _ \<Rightarrow> (Inl InvalidMessage, st))"

definition demo_ratchet :: "(demo_spk, u32 \<times> bytes, demo_spk, demo_store) ratchet_lib" where
  "demo_ratchet =
     \<lparr>sha256_of = (\<lambda>x. take 32 (x @ replicate 32 0)), signal_display = (\<lambda>_. ''error''), kem_public = (\<lambda>k. k),
      calculate_signature = (\<lambda>k m r. Inr (k @ m)), kpk_new = (\<lambda>i t k s. (i, k, s)),
      store_new = (\<lambda>i n. Inr (i, [])), save_signed_pre_key = (\<lambda>i r st. Inr st),
      save_kyber_pre_key = (\<lambda>i r st. Inr st), save_pre_key = (\<lambda>i r st. Inr st),
      get_identity = (\<lambda>a st. Inr (map_of (snd st) a)),
      process_prekey_bundle = (\<lambda>ra la b now rnd. demo_process ra b),
      message_encrypt = (\<lambda>m ra la now rnd. demo_encrypt m ra),
      message_decrypt = (\<lambda>ct ra la rnd. demo_decrypt ct ra),
      signal_message_parse = (\<lambda>_. Inr ()), prekey_message_parse = (\<lambda>bs. Inr (fst (demo_spk_parse bs)))\<rparr>"

definition demo_synced :: "ProtocolAddress \<Rightarrow> ProtocolAddress \<Rightarrow> bytes \<Rightarrow> demo_store \<Rightarrow> demo_store \<Rightarrow> bool" where
  "demo_synced ra la ik a b \<longleftrightarrow>
     map_of (snd a) ra \<noteq> None \<and> fst a = ik \<and> (map_of (snd b) la = None \<or> map_of (snd b) la = Some ik)"

lemma demo_keys_ok: "signal_ok demo_keys"
  by (auto simp: signal_ok_def demo_keys_def demo_spk_round_trip)

lemma demo_library_ok: "library_ok demo_session demo_keys demo_records demo_ratchet"
  by (simp add: library_ok_def demo_keys_ok) (auto simp: demo_session_def demo_keys_def demo_records_def demo_ratchet_def)

lemma demo_ratchet_ok: "ratchet_ok demo_session demo_keys demo_records demo_ratchet demo_synced"
  unfolding ratchet_ok_def
proof (intro conjI demo_library_ok)
  show "establishment_ok demo_session demo_keys demo_records demo_ratchet demo_synced"
    by (auto simp: establishment_ok_def prepared_def demo_ratchet_def demo_keys_def demo_records_def demo_session_def
        demo_process_def demo_synced_def build_prekey_bundle_def generate_signed_pre_key_def public_identity_def)
  show "transfer_ok demo_ratchet demo_synced"
    by (auto simp: transfer_ok_def message_ok_def demo_ratchet_def demo_encrypt_def demo_decrypt_def demo_synced_def
        demo_spk_round_trip)
qed

lemma demo_binding_ok: "binding_ok demo_ratchet"
  by (auto simp: binding_ok_def binds_at_most_def demo_ratchet_def demo_process_def demo_encrypt_def demo_decrypt_def
      split: if_splits prod.splits)

section \<open>Properties\<close>

text \<open>
  C4: For libsignal as documented, a receiver made by \<open>new_bob\<close> publishes a bundle, \<open>new_alice\<close>
  establishes a session from it, and every message the sender then encrypts is decrypted by the
  receiver to the same plaintext, for any number of messages in order: the addresses, hashes and
  type tags the facade derives on the two sides agree.
\<close>

theorem session_delivers_in_order:
  assumes "ratchet_ok L S A R synced"
  shows "\<exists>bob bundle alice.
    DoubleRatchetSession_new_bob L S R w bob_id = Return (Inr bob) \<and>
    DoubleRatchetSession_publish_bundle L S A bob = Return (Inr bundle) \<and>
    DoubleRatchetSession_new_alice L S R now rnd alice_id bundle = Return (Inr alice) \<and>
    exchange (\<lambda>p m s. DoubleRatchetSession_encrypt R (fst p) (snd p) m s)
      (\<lambda>q c s. DoubleRatchetSession_decrypt L R q c s) ms alice bob = Return (Inr (map (fst \<circ> snd) ms))"
  using establish_linked [OF assms] session_channel.exchange_delivers [OF assms] by meson

theorem session_delivers_in_order_witness:
  "\<exists>bob alice. exchange (\<lambda>p m s. DoubleRatchetSession_encrypt demo_ratchet (fst p) (snd p) m s)
      (\<lambda>q c s. DoubleRatchetSession_decrypt demo_session demo_ratchet q c s)
      [((0, []), [104, 105], []), ((1, []), [33], [])] alice bob = Return (Inr [[104, 105], [33]])"
  using session_delivers_in_order [OF demo_ratchet_ok, of
      "\<lparr>br_now = 0, br_signed_secret = [1], br_signed_rnd = [], br_kyber_secret = [2], br_kyber_rnd = [],
        br_one_time_secrets = (\<lambda>_. [3])\<rparr>" "[4]" 0 "[]" "[5]" "[((0, []), [104, 105], []), ((1, []), [33], [])]"]
  by auto

text \<open>
  C5: In every session a caller can reach, through any sequence of encryptions and decryptions of
  arbitrary bytes, each identity key the store has bound to an address hashes to that address's
  name; no envelope makes trust-on-first-use bind a key to another key's address.
\<close>

theorem address_names_are_identity_hashes:
  assumes "session_reach L S R s" "binding_ok R" "get_identity R a (drs_store s) = Inr (Some k)"
  shows "addr_name a = hex_name (hash_of_identity_key R k)"
  using reach_names [OF assms(1,2)] assms(3) unfolding names_match_def by blast

theorem address_names_are_identity_hashes_witness:
  "\<exists>s a. session_reach demo_session demo_keys demo_ratchet s \<and>
     get_identity demo_ratchet a (drs_store s) = Inr (Some [9]) \<and> addr_name a = hex_name (9 # replicate 31 0)"
proof -
  define b where "b = \<lparr>sb_registration_id = 1, sb_device_id = 1, sb_pre_key_id = None, sb_pre_key_public = None,
      sb_signed_pre_key_id = 1, sb_signed_pre_key_public = [7], sb_signed_pre_key_signature = [9, 7],
      sb_kyber_pre_key_id = 1, sb_kyber_pre_key_public = [8], sb_kyber_pre_key_signature = [], sb_identity_key = [9]\<rparr>"
  have "\<exists>s. DoubleRatchetSession_new_alice demo_session demo_keys demo_ratchet 0 [] [5] b = Return (Inr s) \<and>
    get_identity demo_ratchet \<lparr>addr_name = hex_name (sha256_of demo_ratchet [9]), addr_device = 1\<rparr> (drs_store s) = Inr (Some [9])"
    by (simp add: DoubleRatchetSession_new_alice_def demo_ratchet_def demo_session_def demo_keys_def b_def lift_def
        map_err_def address_for_hash_def device_def DEVICE_ID_def establish_outbound_session_def demo_process_def
        hash_of_identity_key_def Let_def)
  then obtain s where s: "DoubleRatchetSession_new_alice demo_session demo_keys demo_ratchet 0 [] [5] b = Return (Inr s)"
    "get_identity demo_ratchet \<lparr>addr_name = hex_name (sha256_of demo_ratchet [9]), addr_device = 1\<rparr> (drs_store s) = Inr (Some [9])"
    by blast
  have r: "session_reach demo_session demo_keys demo_ratchet s" by (rule session_reach.alice [OF s(1)])
  have "hash_of_identity_key demo_ratchet [9] = 9 # replicate 31 0"
    by (simp add: hash_of_identity_key_def demo_ratchet_def)
  with address_names_are_identity_hashes [OF r demo_binding_ok s(2)] r s(2) show ?thesis by metis
qed

text \<open>
  C17: \<open>decrypt\<close> fails closed: it reaches the ratchet, and so can produce plaintext or change the
  session, only for an envelope of at least 33 bytes whose declared sender hash is the hash of
  the identity key in its first-message header or already bound to that sender; any error other
  than one of the ratchet leaves the session as it was.
\<close>

theorem decrypt_fails_closed:
  assumes "DoubleRatchetSession_decrypt L R rnd e s = Return (r, s')"
  shows "(\<not> isl r \<or> s' \<noteq> s \<longrightarrow> sender_verified L R e (drs_store s)) \<and>
    (\<forall>err. r = Inl err \<longrightarrow> (\<forall>x. err \<noteq> SessDecrypt x) \<longrightarrow> s' = s)"
  using decrypt_cases [OF assms]
proof (elim disjE exE conjE)
  fix mt r1 st
  assume a: "message_type_from_tag (e ! 32) = Some mt" "ENVELOPE_PREFIX_LEN \<le> length e"
    "check_sender R mt (take 32 e) (drop 33 e) \<lparr>addr_name = hex_name (take 32 e), addr_device = DEVICE_ID\<rparr> (drs_store s) = Inr ()"
    "r = map_err SessDecrypt r1"
  then show ?thesis using check_sender_verified [OF a(1-3)] by (auto simp: map_err_def split: sum.splits)
qed auto

theorem decrypt_fails_closed_witness:
  "\<exists>s r s'. DoubleRatchetSession_decrypt demo_session demo_ratchet [] (replicate 32 0 @ [1, 1, 0, 9]) s = Return (r, s') \<and>
     r = Inl IdentityHashMismatch \<and> s' = s"
proof -
  define s :: "(demo_spk, u32 \<times> bytes, demo_spk, demo_store) DoubleRatchetSession" where
    "s = \<lparr>drs_identity = [], drs_local_address = \<lparr>addr_name = [], addr_device = 1\<rparr>, drs_local_hash = [],
      drs_store = ([], []), drs_remote_address = None, drs_signed_prekey = None, drs_kyber_prekey = None,
      drs_one_time_prekey = None\<rparr>"
  define h :: bytes where "h = replicate 32 0"
  have p: "demo_spk_parse [1, 0, 9] = ([9], [])" by (simp add: demo_spk_parse_def)
  have "hd (sha256_of demo_ratchet [9]) \<noteq> hd h" by (simp add: demo_ratchet_def h_def)
  then have ne: "sha256_of demo_ratchet [9] \<noteq> h" by metis
  have parse: "prekey_message_parse demo_ratchet [1, 0, 9] = Inr [9]" by (simp add: demo_ratchet_def p)
  have "DoubleRatchetSession_decrypt demo_session demo_ratchet [] (h @ [type_tag PreKey] @ [1, 0, 9]) s
      = Return (Inl IdentityHashMismatch, s)"
    unfolding decrypt_framed [OF demo_library_ok, of h, simplified h_def length_replicate, OF refl, folded h_def]
    by (simp add: check_sender_def hash_of_identity_key_def parse ne)
  moreover have "h @ [type_tag PreKey] @ [1, 0, 9] = replicate 32 0 @ [1, 1, 0, 9]"
    by (simp add: h_def type_tag_def TYPE_TAG_PREKEY_def)
  ultimately have "DoubleRatchetSession_decrypt demo_session demo_ratchet [] (replicate 32 0 @ [1, 1, 0, 9]) s
      = Return (Inl IdentityHashMismatch, s)" by simp
  from decrypt_fails_closed [OF this] this show ?thesis by blast
qed

text \<open>
  A bundle whose signed-prekey signature has been overwritten is reported as a failed
  establishment, never as a panic or a session, when libsignal refuses the signature.
\<close>

theorem malformed_prekey_is_reported:
  assumes "library_ok L S A R"
    and "\<And>ra la b now rnd st. sb_signed_pre_key_signature b = replicate 64 0 \<Longrightarrow>
      fst (process_prekey_bundle R ra la b now rnd st) = Inl SignatureValidationFailed"
  shows "\<exists>e. establish_with_malformed_prekey L S A R w now rnd bob_id alice_id = Return (Inl e) \<and>
    is_prekey_signature_invalid e"
proof -
  obtain spk kpk otk st where p: "prepared S R w bob_id spk kpk otk st" by (rule prepared_exists [OF assms(1)])
  note bob = new_bob_ok [OF assms(1) p]
  obtain b where b: "DoubleRatchetSession_publish_bundle L S A (projr (case DoubleRatchetSession_new_bob L S R w bob_id of Return x \<Rightarrow> x)) = Return (Inr b)"
    using publish_ok [OF assms(1), of w "projr (case DoubleRatchetSession_new_bob L S R w bob_id of Return x \<Rightarrow> x)" spk kpk otk st] p bob by auto
  have a: "DoubleRatchetSession_new_alice L S R now rnd alice_id b' = Return (Inl (Establishment SignatureValidationFailed))"
    if "sb_signed_pre_key_signature b' = replicate 64 0" for b'
  proof -
    obtain st where st: "store_new R alice_id 1 = Inr st" using library_makes(2) [OF assms(1)] by blast
    show ?thesis
      using assms(1) st assms(2) [OF that]
      by (auto simp: DoubleRatchetSession_new_alice_def lift_def map_err_def facade_defs Let_def
          establish_outbound_session_def split: prod.splits sum.splits) (metis fst_conv sum.inject(1) sum.distinct(1))+
  qed
  show ?thesis
    using b bob a
    by (auto simp: establish_with_malformed_prekey_def lift_def map_err_def library_okD [OF assms(1)] Let_def
        is_prekey_signature_invalid_def)
qed

theorem malformed_prekey_is_reported_witness:
  "\<exists>R e. establish_with_malformed_prekey demo_session demo_keys demo_records
     (R :: (demo_spk, u32 \<times> bytes, demo_spk, demo_store) ratchet_lib)
     \<lparr>br_now = 0, br_signed_secret = [1], br_signed_rnd = [], br_kyber_secret = [2], br_kyber_rnd = [],
        br_one_time_secrets = (\<lambda>_. [3])\<rparr> 0 [] [4] [5] = Return (Inl e) \<and> is_prekey_signature_invalid e"
proof -
  define R where "R = demo_ratchet\<lparr>process_prekey_bundle := (\<lambda>ra la b now rnd st.
    if sb_signed_pre_key_signature b = replicate 64 0 then (Inl SignatureValidationFailed, st) else demo_process ra b st)\<rparr>"
  have lib: "library_ok demo_session demo_keys demo_records R"
    using demo_library_ok by (simp add: library_ok_def R_def)
  have refuses: "fst (process_prekey_bundle R ra la b now rnd st) = Inl SignatureValidationFailed"
    if "sb_signed_pre_key_signature b = replicate 64 0" for ra la b now rnd st
    using that by (simp add: R_def)
  show ?thesis using malformed_prekey_is_reported [OF lib refuses] by blast
qed

end
