(* ===== verification/Session_Roles.thy ===== *)
theory Session_Roles
  imports Ratchet_Session
begin

text \<open>
  The roles of the 1:1 sessions of \<open>core/crypto/src/ratchet_session.rs\<close>: \<open>new_bob\<close> makes receivers,
  \<open>new_alice\<close> makes senders, and no use of a session changes its role, its name or its prekeys.
\<close>

section \<open>Roles\<close>

definition is_receiver :: "('spk, 'otk, 'kpk, 'st) DoubleRatchetSession \<Rightarrow> bool" where
  "is_receiver s \<longleftrightarrow> drs_remote_address s = None \<and> drs_signed_prekey s \<noteq> None \<and>
     drs_kyber_prekey s \<noteq> None \<and> drs_one_time_prekey s \<noteq> None"

definition is_sender :: "('spk, 'otk, 'kpk, 'st) DoubleRatchetSession \<Rightarrow> bool" where
  "is_sender s \<longleftrightarrow> drs_remote_address s \<noteq> None \<and> drs_signed_prekey s = None \<and>
     drs_kyber_prekey s = None \<and> drs_one_time_prekey s = None"

text \<open>A session of an identity names itself by the hash of its public key.\<close>

definition named_for ::
  "('spk, 'otk) signal_lib \<Rightarrow> ('spk, 'otk, 'kpk, 'st) ratchet_lib \<Rightarrow> bytes \<Rightarrow>
   ('spk, 'otk, 'kpk, 'st) DoubleRatchetSession \<Rightarrow> bool" where
  "named_for S R i s \<longleftrightarrow>
     drs_identity s = i \<and> drs_local_hash s = identity_hash S R i \<and>
     drs_local_address s = \<lparr>addr_name = hex_name (identity_hash S R i), addr_device = DEVICE_ID\<rparr>"

text \<open>Using a session replaces its store and nothing else.\<close>

definition same_but_store ::
  "('spk, 'otk, 'kpk, 'st) DoubleRatchetSession \<Rightarrow> ('spk, 'otk, 'kpk, 'st) DoubleRatchetSession \<Rightarrow> bool" where
  "same_but_store s s' \<longleftrightarrow> (\<exists>st. s' = s\<lparr>drs_store := st\<rparr>)"

lemma same_but_store_refl: "same_but_store s s"
  unfolding same_but_store_def by (intro exI [of _ "drs_store s"]) simp

lemma encrypt_keeps:
  "DoubleRatchetSession_encrypt R now rnd m s = (r, s') \<Longrightarrow> same_but_store s s'"
  using same_but_store_refl [of s]
  by (auto simp: DoubleRatchetSession_encrypt_def same_but_store_def Let_def
      split: option.splits prod.splits sum.splits)

lemma decrypt_keeps:
  "DoubleRatchetSession_decrypt L R rnd e s = Return (r, s') \<Longrightarrow> same_but_store s s'"
  using decrypt_cases [of L R rnd e s r s'] same_but_store_refl [of s] by (auto simp: same_but_store_def)

lemma address_for_hash_Return:
  "address_for_hash L h = Return a \<Longrightarrow> a = \<lparr>addr_name = hex_name h, addr_device = DEVICE_ID\<rparr>"
  by (auto simp: address_for_hash_def device_def split: if_splits)

lemma try_bind_lift: "try_bind (lift r) k = Return (Inr x) \<longleftrightarrow> (\<exists>y. r = Inr y \<and> k y = Return (Inr x))"
  by (cases r) (simp_all add: lift_def)

lemma run_bind_Return: "run_bind m k = Return x \<longleftrightarrow> (\<exists>y. m = Return y \<and> k y = Return x)"
  by (cases m) simp_all

lemma new_bob_role:
  "DoubleRatchetSession_new_bob L S R w i = Return (Inr s) \<Longrightarrow> named_for S R i s \<and> is_receiver s"
  by (auto simp: DoubleRatchetSession_new_bob_def try_bind_lift run_bind_Return named_for_def is_receiver_def
      dest: address_for_hash_Return)

text \<open>The address a sender encrypts to is named by the hash of the identity key in the bundle.\<close>

definition bundle_address :: "('spk, 'otk, 'kpk, 'st) ratchet_lib \<Rightarrow> SigBundle \<Rightarrow> ProtocolAddress" where
  "bundle_address R b = \<lparr>addr_name = hex_name (hash_of_identity_key R (sb_identity_key b)), addr_device = sb_device_id b\<rparr>"

lemma new_alice_role:
  assumes "DoubleRatchetSession_new_alice L S R now rnd i b = Return (Inr s)"
  shows "named_for S R i s \<and> is_sender s \<and> drs_remote_address s = Some (bundle_address R b)"
proof -
  let ?ra = "bundle_address R b"
  obtain store la where la: "address_for_hash L (identity_hash S R i) = Return la"
    and c: "(case establish_outbound_session R la ?ra b now rnd store of
        (Inl e, _) \<Rightarrow> Return (Inl (Establishment e))
      | (Inr _, store) \<Rightarrow> Return (Inr
         \<lparr>drs_identity = i, drs_local_address = la, drs_local_hash = identity_hash S R i,
          drs_store = store, drs_remote_address = Some ?ra, drs_signed_prekey = None,
          drs_kyber_prekey = None, drs_one_time_prekey = None\<rparr>)) = Return (Inr s)"
    using assms unfolding DoubleRatchetSession_new_alice_def try_bind_lift Let_def run_bind_Return bundle_address_def by blast
  show ?thesis
  proof (cases "establish_outbound_session R la ?ra b now rnd store")
    case (Pair r st)
    then show ?thesis using c address_for_hash_Return [OF la]
      by (cases r) (auto simp: named_for_def is_sender_def)
  qed
qed

section \<open>Use\<close>

text \<open>Any number of calls of \<open>encrypt\<close> and \<open>decrypt\<close>, successful or not, on one session.\<close>

inductive session_use ::
  "session_lib \<Rightarrow> ('spk, 'otk, 'kpk, 'st) ratchet_lib \<Rightarrow> ('spk, 'otk, 'kpk, 'st) DoubleRatchetSession \<Rightarrow>
   ('spk, 'otk, 'kpk, 'st) DoubleRatchetSession \<Rightarrow> bool" for L R s where
  unused: "session_use L R s s"
| encrypted: "session_use L R s s' \<Longrightarrow> DoubleRatchetSession_encrypt R now rnd m s' = (r, s'') \<Longrightarrow> session_use L R s s''"
| decrypted: "session_use L R s s' \<Longrightarrow> DoubleRatchetSession_decrypt L R rnd e s' = Return (r, s'') \<Longrightarrow> session_use L R s s''"

lemma same_but_store_trans: "same_but_store s s' \<Longrightarrow> same_but_store s' s'' \<Longrightarrow> same_but_store s s''"
  by (auto simp: same_but_store_def)

lemma session_use_keeps: "session_use L R s s' \<Longrightarrow> same_but_store s s'"
  by (induction rule: session_use.induct)
    (blast intro: same_but_store_refl same_but_store_trans encrypt_keeps decrypt_keeps)+

lemma receiver_calls:
  assumes "is_receiver s"
  shows "DoubleRatchetSession_encrypt R now rnd m s = (Inl NotSender, s)"
    and "DoubleRatchetSession_publish_bundle L S A s \<noteq> Return (Inl NotPublisher)"
  using assms
  by (auto simp: is_receiver_def DoubleRatchetSession_encrypt_def DoubleRatchetSession_publish_bundle_def
      ok_or_def lift_def run_bind_def map_err_def split: run.splits sum.splits)

lemma sender_refuses_to_publish:
  "is_sender s \<Longrightarrow> DoubleRatchetSession_publish_bundle L S A s = Return (Inl NotPublisher)"
  by (simp add: is_sender_def DoubleRatchetSession_publish_bundle_def ok_or_def lift_def)

section \<open>Properties\<close>

text \<open>
  C6: A session has one role for life, and its constructor decides which. What \<open>new_bob\<close> returned is
  still a receiver after any sequence of encryptions and decryptions, failed ones included: it bears
  the name of its own identity, refuses to encrypt with \<open>NotSender\<close> and is left as it was, is
  never refused as a publisher, and publishes exactly the bundle it published when it was made, the
  one-time prekey included. What \<open>new_alice\<close> returned is still a sender: it bears the
  name of its own identity, encrypts to the address named by the hash of the identity key in the
  bundle it was established from, and refuses to publish with \<open>NotPublisher\<close>.
\<close>

theorem session_role_is_fixed:
  assumes "session_use L R s0 s"
  shows "(DoubleRatchetSession_new_bob L S R w i = Return (Inr s0) \<longrightarrow>
      named_for S R i s \<and> is_receiver s \<and>
      DoubleRatchetSession_encrypt R now rnd m s = (Inl NotSender, s) \<and>
      DoubleRatchetSession_publish_bundle L S A s \<noteq> Return (Inl NotPublisher) \<and>
      DoubleRatchetSession_publish_bundle L S A s = DoubleRatchetSession_publish_bundle L S A s0) \<and>
    (DoubleRatchetSession_new_alice L S R now' rnd' i b = Return (Inr s0) \<longrightarrow>
      named_for S R i s \<and> is_sender s \<and> drs_remote_address s = Some (bundle_address R b) \<and>
      DoubleRatchetSession_publish_bundle L S A s = Return (Inl NotPublisher))"
proof -
  obtain st where s: "s = s0\<lparr>drs_store := st\<rparr>" using session_use_keeps [OF assms] by (auto simp: same_but_store_def)
  have bob: "is_receiver s" "named_for S R i s" if "DoubleRatchetSession_new_bob L S R w i = Return (Inr s0)"
    using new_bob_role [OF that] by (simp_all add: s is_receiver_def named_for_def)
  have alice: "is_sender s" "named_for S R i s" "drs_remote_address s = Some (bundle_address R b)"
    if "DoubleRatchetSession_new_alice L S R now' rnd' i b = Return (Inr s0)"
    using new_alice_role [OF that] by (simp_all add: s is_sender_def named_for_def)
  have "DoubleRatchetSession_publish_bundle L S A s = DoubleRatchetSession_publish_bundle L S A s0"
    by (simp add: s DoubleRatchetSession_publish_bundle_def)
  then show ?thesis using bob alice receiver_calls sender_refuses_to_publish by blast
qed

text \<open>A receiver on the concrete library of the session theory that has refused an envelope.\<close>

definition demo_bob_rand :: bob_rand where
  "demo_bob_rand = \<lparr>br_now = 0, br_signed_secret = [1], br_signed_rnd = [], br_kyber_secret = [2], br_kyber_rnd = [],
     br_one_time_secrets = (\<lambda>_. [3])\<rparr>"

theorem session_role_is_fixed_witness:
  "\<exists>s0 r s. DoubleRatchetSession_new_bob demo_session demo_keys demo_ratchet demo_bob_rand [4] = Return (Inr s0) \<and>
     DoubleRatchetSession_decrypt demo_session demo_ratchet [] [1, 2, 3] s0 = Return (r, s) \<and>
     is_receiver s \<and> DoubleRatchetSession_encrypt demo_ratchet 0 [] [1] s = (Inl NotSender, s)"
proof -
  obtain s0 where s0: "DoubleRatchetSession_new_bob demo_session demo_keys demo_ratchet demo_bob_rand [4] = Return (Inr s0)"
    using establish_linked [OF demo_ratchet_ok, of demo_bob_rand "[4]"] by blast
  have d: "DoubleRatchetSession_decrypt demo_session demo_ratchet [] [1, 2, 3] s0 = Return (Inl MalformedEnvelope, s0)"
    by (simp add: DoubleRatchetSession_decrypt_def ENVELOPE_PREFIX_LEN_def)
  have "session_use demo_session demo_ratchet s0 s0" using session_use.decrypted [OF session_use.unused d] .
  from session_role_is_fixed [OF this, of demo_keys demo_bob_rand "[4]" 0 "[]" "[1]"] s0 d show ?thesis by blast
qed

end
