(* ===== verification/Crypto_Prims.thy ===== *)
theory Crypto_Prims
  imports Prelude
begin

text \<open>
  The third-party primitives the core crates call, as a record of functions: Curve25519 keys and
  agreement and the key serializations of libsignal, HKDF-SHA256, ChaCha20-Poly1305 and
  AES-256-GCM. \<open>crypto_ok\<close> states the documented behaviour the proofs use; none of it is a secrecy
  assumption. The \<open>sealed_box\<close> locale is the contract of the two public-key sealing modules.
\<close>

section \<open>Primitives\<close>

record prims =
  dh_pub :: "bytes \<Rightarrow> bytes"
  dh_agree :: "bytes \<Rightarrow> bytes \<Rightarrow> bytes option"
  djb_decode :: "bytes \<Rightarrow> bytes option"
  ident_serialize :: "bytes \<Rightarrow> bytes"
  ident_decode :: "bytes \<Rightarrow> bytes option"
  ident_pair_decode :: "bytes \<Rightarrow> string + (bytes \<times> bytes)"
  hkdf :: "bytes option \<Rightarrow> bytes \<Rightarrow> bytes \<Rightarrow> nat \<Rightarrow> bytes option"
  chacha_enc :: "bytes \<Rightarrow> bytes \<Rightarrow> bytes \<Rightarrow> bytes \<Rightarrow> bytes option"
  chacha_dec :: "bytes \<Rightarrow> bytes \<Rightarrow> bytes \<Rightarrow> bytes \<Rightarrow> bytes option"
  aes_enc :: "bytes \<Rightarrow> bytes \<Rightarrow> bytes \<Rightarrow> bytes option"
  aes_dec :: "bytes \<Rightarrow> bytes \<Rightarrow> bytes \<Rightarrow> bytes option"

text \<open>
  A 32-byte raw public key; agreement is symmetric on honest keys; HKDF-Expand yields the bytes
  asked for up to 255 blocks; an AEAD adds a 16-byte tag, decrypts what it encrypted, and
  accepts nothing but the encryption of what it returns (the tag is recomputed and compared).
\<close>

definition keys_ok :: "prims \<Rightarrow> bool" where
  "keys_ok P \<longleftrightarrow>
     (\<forall>a. length (dh_pub P a) = 32) \<and>
     (\<forall>a b. \<exists>s. dh_agree P a (dh_pub P b) = Some s \<and> dh_agree P b (dh_pub P a) = Some s) \<and>
     (\<forall>a. djb_decode P (dh_pub P a) = Some (dh_pub P a)) \<and>
     (\<forall>a. length (ident_serialize P (dh_pub P a)) = 33 \<and>
          ident_decode P (ident_serialize P (dh_pub P a)) = Some (dh_pub P a))"

definition hkdf_ok :: "prims \<Rightarrow> bool" where
  "hkdf_ok P \<longleftrightarrow> (\<forall>salt ikm info n. n \<le> 255 * 32 \<longrightarrow>
     (\<exists>k. hkdf P salt ikm info n = Some k \<and> length k = n))"

definition aead_ok ::
  "(bytes \<Rightarrow> bytes \<Rightarrow> bytes \<Rightarrow> bytes \<Rightarrow> bytes option) \<Rightarrow>
   (bytes \<Rightarrow> bytes \<Rightarrow> bytes \<Rightarrow> bytes \<Rightarrow> bytes option) \<Rightarrow> bool" where
  "aead_ok enc dec \<longleftrightarrow>
     (\<forall>k n a m. length k = 32 \<longrightarrow> length n = 12 \<longrightarrow>
        (\<exists>c. enc k n a m = Some c \<and> length c = length m + 16 \<and> dec k n a c = Some m)) \<and>
     (\<forall>k n a c m. dec k n a c = Some m \<longrightarrow> enc k n a m = Some c)"

definition crypto_ok :: "prims \<Rightarrow> bool" where
  "crypto_ok P \<longleftrightarrow> keys_ok P \<and> hkdf_ok P \<and> aead_ok (chacha_enc P) (chacha_dec P) \<and>
     aead_ok (\<lambda>k n a. aes_enc P k n) (\<lambda>k n a. aes_dec P k n)"

section \<open>Consequences\<close>

lemma hkdf_okD:
  assumes "crypto_ok P" "n \<le> 8160"
  obtains k where "hkdf P salt ikm info n = Some k" "length k = n"
proof -
  have "n \<le> 255 * 32" using assms(2) by simp
  then show thesis using assms(1) that unfolding crypto_ok_def hkdf_ok_def by blast
qed

lemma chacha_okD:
  assumes "crypto_ok P" "length k = 32" "length n = 12"
  obtains c where "chacha_enc P k n a m = Some c" "length c = length m + 16" "chacha_dec P k n a c = Some m"
  using assms unfolding crypto_ok_def aead_ok_def by blast

lemma chacha_dec_enc: "crypto_ok P \<Longrightarrow> chacha_dec P k n a c = Some m \<Longrightarrow> chacha_enc P k n a m = Some c"
  unfolding crypto_ok_def aead_ok_def by blast

lemma chacha_dec_length:
  assumes "crypto_ok P" "length k = 32" "length n = 12" "chacha_dec P k n a c = Some m"
  shows "length c = length m + 16"
  by (rule chacha_okD [OF assms(1-3), of a m]) (use chacha_dec_enc [OF assms(1,4)] in simp)

lemma aes_okD:
  assumes "crypto_ok P" "length k = 32" "length n = 12"
  obtains c where "aes_enc P k n m = Some c" "length c = length m + 16" "aes_dec P k n c = Some m"
  using assms unfolding crypto_ok_def aead_ok_def by blast

lemma aes_dec_enc: "crypto_ok P \<Longrightarrow> aes_dec P k n c = Some m \<Longrightarrow> aes_enc P k n m = Some c"
  unfolding crypto_ok_def aead_ok_def by blast

lemma agree_okD:
  assumes "crypto_ok P"
  obtains s where "dh_agree P a (dh_pub P b) = Some s" "dh_agree P b (dh_pub P a) = Some s"
  using assms unfolding crypto_ok_def keys_ok_def by blast

lemma keys_okD [simp]:
  assumes "crypto_ok P"
  shows "length (dh_pub P a) = 32" "djb_decode P (dh_pub P a) = Some (dh_pub P a)"
    "length (ident_serialize P (dh_pub P a)) = 33"
    "ident_decode P (ident_serialize P (dh_pub P a)) = Some (dh_pub P a)"
  using assms unfolding crypto_ok_def keys_ok_def by simp_all

text \<open>One ephemeral-static exchange: both ends derive the same key, and it carries a message.\<close>

lemma ecdh_aead:
  assumes "crypto_ok P" "length n = 12"
  obtains s key c where
    "dh_agree P e (dh_pub P k) = Some s" "dh_agree P k (dh_pub P e) = Some s"
    "hkdf P salt s info 32 = Some key"
    "chacha_enc P key n a m = Some c" "length c = length m + 16" "chacha_dec P key n a c = Some m"
proof -
  obtain s where s: "dh_agree P e (dh_pub P k) = Some s" "dh_agree P k (dh_pub P e) = Some s"
    by (rule agree_okD [OF assms(1)])
  obtain key where key: "hkdf P salt s info 32 = Some key" "length key = 32"
    by (rule hkdf_okD [OF assms(1), of 32 salt s info]) simp
  show thesis
    by (rule chacha_okD [OF assms(1) key(2) assms(2)]) (rule that [OF s key(1)])
qed

section \<open>The sealing contract\<close>

text \<open>
  A box sealed to a public key: for honest randomness it is opened by the matching key pair to
  the same bytes, has a fixed overhead, and anything shorter than the overhead is refused.
\<close>

locale sealed_box =
  fixes ok :: bool
    and key_ok :: "'k \<Rightarrow> bool"
    and rand_ok :: "'r \<Rightarrow> bool"
    and address :: "'k \<Rightarrow> 'p"
    and seal :: "'r \<Rightarrow> 'p \<Rightarrow> bytes \<Rightarrow> 'e + bytes"
    and opn :: "'k \<Rightarrow> bytes \<Rightarrow> 'e + bytes"
    and overhead :: nat
  assumes seal_open: "ok \<Longrightarrow> key_ok k \<Longrightarrow> rand_ok r \<Longrightarrow>
      \<exists>c. seal r (address k) m = Inr c \<and> length c = overhead + length m \<and> opn k c = Inr m"
    and open_short: "length c < overhead \<Longrightarrow> isl (opn k c)"
begin

lemma open_of_seal:
  "ok \<Longrightarrow> key_ok k \<Longrightarrow> rand_ok r \<Longrightarrow> seal r (address k) m = Inr c \<Longrightarrow> opn k c = Inr m"
  using seal_open [of k r m] by auto

lemma sealed_length:
  "ok \<Longrightarrow> key_ok k \<Longrightarrow> rand_ok r \<Longrightarrow> seal r (address k) m = Inr c \<Longrightarrow> length c = overhead + length m"
  using seal_open [of k r m] by auto

lemma opened_long: "opn k c = Inr m \<Longrightarrow> overhead \<le> length c"
  using open_short [of c k] by (cases "length c < overhead") auto

text \<open>Sealing one message to many addressees, each with its own randomness.\<close>

lemma seal_each:
  assumes "ok" "\<forall>p \<in> set ps. key_ok (fst p) \<and> rand_ok (snd p)"
  shows "\<exists>cs. map (\<lambda>p. seal (snd p) (address (fst p)) m) ps = map Inr cs \<and>
    list_all2 (\<lambda>p c. opn (fst p) c = Inr m \<and> length c = overhead + length m) ps cs"
  using assms(2)
proof (induction ps)
  case (Cons p ps)
  then obtain cs where "map (\<lambda>p. seal (snd p) (address (fst p)) m) ps = map Inr cs"
    "list_all2 (\<lambda>p c. opn (fst p) c = Inr m \<and> length c = overhead + length m) ps cs"
    by auto
  moreover obtain c where "seal (snd p) (address (fst p)) m = Inr c"
    "length c = overhead + length m" "opn (fst p) c = Inr m"
    using seal_open [OF assms(1), of "fst p" "snd p" m] Cons.prems by auto
  ultimately show ?case by (intro exI [of _ "c # cs"]) simp
qed simp

end

section \<open>A concrete instance\<close>

text \<open>
  Functions with the stated behaviour, for witnesses: XOR with the key as agreement, a key
  stream that does nothing, and a tag that repeats the first sixteen key bytes.
\<close>

definition pad_to :: "nat \<Rightarrow> bytes \<Rightarrow> bytes" where
  "pad_to n bs = take n (bs @ replicate n 0)"

definition demo_enc :: "bytes \<Rightarrow> bytes \<Rightarrow> bytes \<Rightarrow> bytes option" where
  "demo_enc k n m = Some (m @ pad_to 16 k)"

definition demo_dec :: "bytes \<Rightarrow> bytes \<Rightarrow> bytes \<Rightarrow> bytes option" where
  "demo_dec k n c =
     (if 16 \<le> length c \<and> drop (length c - 16) c = pad_to 16 k then Some (take (length c - 16) c) else None)"

definition demo_prims :: prims where
  "demo_prims =
     \<lparr>dh_pub = pad_to 32,
      dh_agree = (\<lambda>a b. Some (map2 (XOR) (pad_to 32 a) (pad_to 32 b))),
      djb_decode = (\<lambda>b. if length b = 32 then Some b else None),
      ident_serialize = (\<lambda>b. 5 # b),
      ident_decode = (\<lambda>b. if length b = 33 then Some (tl b) else None),
      ident_pair_decode = (\<lambda>b. if length b = 64 then Inr (take 32 b, drop 32 b) else Inl ''bad key pair''),
      hkdf = (\<lambda>salt ikm info n. if n \<le> 8160 then Some (pad_to n (info @ ikm)) else None),
      chacha_enc = (\<lambda>k n a. demo_enc k n), chacha_dec = (\<lambda>k n a. demo_dec k n),
      aes_enc = demo_enc, aes_dec = demo_dec\<rparr>"

lemma length_pad_to [simp]: "length (pad_to n bs) = n"
  by (simp add: pad_to_def)

lemma pad_to_id [simp]: "length bs = n \<Longrightarrow> pad_to n bs = bs"
  by (simp add: pad_to_def)

lemma map2_xor_commute: "map2 (XOR) xs ys = map2 (XOR) ys (xs :: bytes)"
  by (induction xs ys rule: list_induct2') (simp_all add: xor.commute)

lemma demo_aead: "aead_ok (\<lambda>k n a. demo_enc k n) (\<lambda>k n a. demo_dec k n)"
  unfolding aead_ok_def demo_enc_def demo_dec_def
  by (auto split: if_splits) (metis append_take_drop_id)

lemma demo_crypto_ok: "crypto_ok demo_prims"
  using demo_aead
  by (simp add: crypto_ok_def keys_ok_def hkdf_ok_def demo_prims_def map2_xor_commute)

end
