(* ===== verification/Identity.thy ===== *)
theory Identity
  imports Crypto_Prims
begin

text \<open>
  The byte-oriented identity keys of \<open>core/crypto/src/identity.rs\<close> and their sealing: an
  ephemeral-static agreement, HKDF-SHA256 and ChaCha20-Poly1305, with the ephemeral key bound as
  associated data. What \<open>seal\<close> draws from the OS generator (ephemeral private key, nonce) is the
  record \<open>seal_rand\<close>.
\<close>

section \<open>Keys\<close>

definition SEAL_HKDF_SALT :: bytes where
  "SEAL_HKDF_SALT = str_bytes ''IdentitySeal-v1''"

definition KEY_LEN :: nat where "KEY_LEN = 32"
definition EPH_PUB_LEN :: nat where "EPH_PUB_LEN = 32"
definition NONCE_LEN :: nat where "NONCE_LEN = 12"
definition TAG_LEN :: nat where "TAG_LEN = 16"
definition MIN_SEALED_LEN :: nat where "MIN_SEALED_LEN = EPH_PUB_LEN + NONCE_LEN + TAG_LEN"

record IdentityKeyPair =
  ikp_private :: bytes
  ikp_public :: bytes

text \<open>\<open>PublicIdentityKey(Box<[u8]>)\<close>: serialized bytes, not validated on construction.\<close>

type_synonym PublicIdentityKey = bytes

datatype SealError = SealMalformed | SealDecryptionFailed

definition SealError_display :: "SealError \<Rightarrow> string" where
  "SealError_display e =
     (case e of
        SealMalformed \<Rightarrow> ''sealed identity blob is structurally malformed''
      | SealDecryptionFailed \<Rightarrow> ''sealed identity blob decryption failed'')"

definition IdentityKeyPair_generate :: "prims \<Rightarrow> bytes \<Rightarrow> IdentityKeyPair" where
  "IdentityKeyPair_generate P secret = \<lparr>ikp_private = secret, ikp_public = dh_pub P secret\<rparr>"

definition IdentityKeyPair_public :: "prims \<Rightarrow> IdentityKeyPair \<Rightarrow> PublicIdentityKey" where
  "IdentityKeyPair_public P k = ident_serialize P (ikp_public k)"

definition IdentityKeyPair_from_bytes :: "prims \<Rightarrow> bytes \<Rightarrow> string + IdentityKeyPair" where
  "IdentityKeyPair_from_bytes P bs =
     (case ident_pair_decode P bs of
        Inl e \<Rightarrow> Inl e
      | Inr (priv, pub) \<Rightarrow> Inr \<lparr>ikp_private = priv, ikp_public = pub\<rparr>)"

definition PublicIdentityKey_from_bytes :: "bytes \<Rightarrow> PublicIdentityKey" where
  "PublicIdentityKey_from_bytes bs = bs"

definition PublicIdentityKey_to_bytes :: "PublicIdentityKey \<Rightarrow> bytes" where
  "PublicIdentityKey_to_bytes k = k"

section \<open>Sealing\<close>

record seal_rand =
  sr_eph :: bytes
  sr_nonce :: bytes

definition PublicIdentityKey_seal ::
  "prims \<Rightarrow> seal_rand \<Rightarrow> PublicIdentityKey \<Rightarrow> bytes \<Rightarrow> SealError + bytes" where
  "PublicIdentityKey_seal P rnd self plaintext =
     (case ident_decode P self of
        None \<Rightarrow> Inl SealMalformed
      | Some recipient \<Rightarrow>
          let eph_pub_bytes = dh_pub P (sr_eph rnd);
              nonce_bytes = sr_nonce rnd
          in (case dh_agree P (sr_eph rnd) recipient of
                None \<Rightarrow> Inl SealMalformed
              | Some shared \<Rightarrow>
                  (case hkdf P (Some SEAL_HKDF_SALT) shared eph_pub_bytes KEY_LEN of
                     None \<Rightarrow> Inl SealDecryptionFailed
                   | Some key \<Rightarrow>
                       (case chacha_enc P key nonce_bytes eph_pub_bytes plaintext of
                          None \<Rightarrow> Inl SealDecryptionFailed
                        | Some ciphertext \<Rightarrow> Inr (eph_pub_bytes @ nonce_bytes @ ciphertext)))))"

definition IdentityKeyPair_open_sealed ::
  "prims \<Rightarrow> IdentityKeyPair \<Rightarrow> bytes \<Rightarrow> SealError + bytes" where
  "IdentityKeyPair_open_sealed P self sealed =
     (if length sealed < MIN_SEALED_LEN then Inl SealMalformed
      else let eph_pub_bytes = take EPH_PUB_LEN sealed;
               nonce_bytes = take NONCE_LEN (drop EPH_PUB_LEN sealed);
               ciphertext = drop (EPH_PUB_LEN + NONCE_LEN) sealed
           in (case djb_decode P eph_pub_bytes of
                 None \<Rightarrow> Inl SealMalformed
               | Some eph_pub \<Rightarrow>
                   (case dh_agree P (ikp_private self) eph_pub of
                      None \<Rightarrow> Inl SealMalformed
                    | Some shared \<Rightarrow>
                        (case hkdf P (Some SEAL_HKDF_SALT) shared eph_pub_bytes KEY_LEN of
                           None \<Rightarrow> Inl SealDecryptionFailed
                         | Some key \<Rightarrow>
                             ok_or SealDecryptionFailed
                               (chacha_dec P key nonce_bytes eph_pub_bytes ciphertext)))))"

section \<open>Lemmas\<close>

lemmas seal_lens = KEY_LEN_def EPH_PUB_LEN_def NONCE_LEN_def TAG_LEN_def MIN_SEALED_LEN_def

text \<open>A key pair is honest when its public half is the one of its private half.\<close>

definition ikp_ok :: "prims \<Rightarrow> IdentityKeyPair \<Rightarrow> bool" where
  "ikp_ok P k \<longleftrightarrow> ikp_public k = dh_pub P (ikp_private k)"

definition seal_rand_ok :: "seal_rand \<Rightarrow> bool" where
  "seal_rand_ok r \<longleftrightarrow> length (sr_nonce r) = 12"

lemma generate_ok [simp]: "ikp_ok P (IdentityKeyPair_generate P s)"
  by (simp add: ikp_ok_def IdentityKeyPair_generate_def)

lemma seal_open_identity:
  assumes "crypto_ok P" "ikp_ok P k" "seal_rand_ok r"
  shows "\<exists>c. PublicIdentityKey_seal P r (IdentityKeyPair_public P k) m = Inr c \<and>
    length c = MIN_SEALED_LEN + length m \<and> IdentityKeyPair_open_sealed P k c = Inr m"
proof -
  let ?e = "dh_pub P (sr_eph r)"
  have n: "length (sr_nonce r) = 12" using assms(3) by (simp add: seal_rand_ok_def)
  obtain s key c where c: "dh_agree P (sr_eph r) (dh_pub P (ikp_private k)) = Some s"
    "dh_agree P (ikp_private k) ?e = Some s" "hkdf P (Some SEAL_HKDF_SALT) s ?e 32 = Some key"
    "chacha_enc P key (sr_nonce r) ?e m = Some c" "length c = length m + 16"
    "chacha_dec P key (sr_nonce r) ?e c = Some m"
    by (rule ecdh_aead [OF assms(1) n])
  show ?thesis
    using assms c n
    by (intro exI [of _ "?e @ sr_nonce r @ c"])
      (simp add: PublicIdentityKey_seal_def IdentityKeyPair_open_sealed_def IdentityKeyPair_public_def
        ikp_ok_def Let_def seal_lens)
qed

lemma open_short_identity: "length c < MIN_SEALED_LEN \<Longrightarrow> isl (IdentityKeyPair_open_sealed P k c)"
  by (simp add: IdentityKeyPair_open_sealed_def)

interpretation ident_box: sealed_box
  "crypto_ok P" "ikp_ok P" seal_rand_ok "IdentityKeyPair_public P"
  "PublicIdentityKey_seal P" "IdentityKeyPair_open_sealed P" MIN_SEALED_LEN
  for P
  by unfold_locales (simp_all add: seal_open_identity open_short_identity)

section \<open>Properties\<close>

text \<open>
  A message sealed to the public key of an honest key pair is recovered by that key pair, for
  every ephemeral key and nonce, and the sealed blob is exactly 60 bytes longer than the message.
\<close>

theorem sealed_blob_round_trips:
  assumes "crypto_ok P" "length (sr_nonce r) = 12"
  shows "\<exists>c. PublicIdentityKey_seal P r (IdentityKeyPair_public P (IdentityKeyPair_generate P secret)) m = Inr c \<and>
    IdentityKeyPair_open_sealed P (IdentityKeyPair_generate P secret) c = Inr m \<and> length c = 60 + length m"
  using ident_box.seal_open [of P "IdentityKeyPair_generate P secret" r m] assms
  by (auto simp: seal_rand_ok_def seal_lens)

theorem sealed_blob_round_trips_witness:
  "\<exists>c. PublicIdentityKey_seal demo_prims \<lparr>sr_eph = [1], sr_nonce = replicate 12 2\<rparr>
         (IdentityKeyPair_public demo_prims (IdentityKeyPair_generate demo_prims [3])) [4, 5] = Inr c \<and>
     IdentityKeyPair_open_sealed demo_prims (IdentityKeyPair_generate demo_prims [3]) c = Inr [4, 5] \<and>
     length c = 60 + length [4, 5 :: u8]"
  by (rule sealed_blob_round_trips [OF demo_crypto_ok]) simp

text \<open>
  \<open>open_sealed\<close> returns a plaintext only for a blob that is, byte for byte, an ephemeral key,
  a nonce and the authenticated encryption of that very plaintext under the key this recipient
  derives; every other input is refused.
\<close>

theorem open_sealed_only_authentic:
  assumes "crypto_ok P" "IdentityKeyPair_open_sealed P k sealed = Inr m"
  shows "\<exists>eph pub nonce shared key c. sealed = eph @ nonce @ c \<and> length eph = 32 \<and> length nonce = 12 \<and>
    djb_decode P eph = Some pub \<and> dh_agree P (ikp_private k) pub = Some shared \<and>
    hkdf P (Some SEAL_HKDF_SALT) shared eph 32 = Some key \<and> chacha_enc P key nonce eph m = Some c"
proof -
  let ?e = "take 32 sealed" and ?n = "take 12 (drop 32 sealed)" and ?c = "drop 44 sealed"
  have long: "60 \<le> length sealed"
    using ident_box.opened_long [OF assms(2)] by (simp add: seal_lens)
  obtain pub s key where "djb_decode P ?e = Some pub" "dh_agree P (ikp_private k) pub = Some s"
    "hkdf P (Some SEAL_HKDF_SALT) s ?e 32 = Some key" "chacha_dec P key ?n ?e ?c = Some m"
    using assms(2)
    by (auto simp: IdentityKeyPair_open_sealed_def Let_def seal_lens split: if_splits option.splits)
  moreover have "sealed = ?e @ ?n @ ?c"
    using take_drop_split [of sealed 32 12] by simp
  moreover have "length ?e = 32" "length ?n = 12" using long by simp_all
  ultimately show ?thesis using chacha_dec_enc [OF assms(1)] by blast
qed

theorem open_sealed_only_authentic_witness:
  "\<exists>sealed. IdentityKeyPair_open_sealed demo_prims (IdentityKeyPair_generate demo_prims [3]) sealed = Inr [4] \<and>
     (\<exists>eph nonce c. sealed = eph @ nonce @ c \<and> length eph = 32 \<and> length nonce = 12)"
proof -
  obtain c where c: "IdentityKeyPair_open_sealed demo_prims (IdentityKeyPair_generate demo_prims [3]) c = Inr [4]"
    using ident_box.seal_open [of demo_prims "IdentityKeyPair_generate demo_prims [3]"
        "\<lparr>sr_eph = [1], sr_nonce = replicate 12 2\<rparr>" "[4]"] demo_crypto_ok
    by (auto simp: seal_rand_ok_def)
  then show ?thesis using open_sealed_only_authentic [OF demo_crypto_ok c] by blast
qed

end
