(* ===== verification/Sealed_Sender.thy ===== *)
theory Sealed_Sender
  imports Identity
begin

text \<open>
  The Sealed Sender envelope of \<open>core/transport/src/sealed_sender.rs\<close>: the construction of
  identity sealing under its own salt, with the sender's serialized identity prefixed to the
  payload inside the encryption and stripped on opening. It meets the same \<open>sealed_box\<close> contract.
\<close>

section \<open>Envelopes\<close>

datatype SealedSenderError = EnvMalformed | NotForRecipient | EnvDecryptionFailed

definition SealedSenderError_display :: "SealedSenderError \<Rightarrow> string" where
  "SealedSenderError_display e =
     (case e of
        EnvMalformed \<Rightarrow> ''sealed sender envelope is structurally malformed''
      | NotForRecipient \<Rightarrow> ''sealed sender envelope authenticated but inner frame is truncated''
      | EnvDecryptionFailed \<Rightarrow> ''sealed sender envelope decryption failed'')"

definition HKDF_SALT :: bytes where
  "HKDF_SALT = str_bytes ''SealedSender-v1''"

definition SENDER_ID_LEN :: nat where "SENDER_ID_LEN = 33"

definition MIN_ENVELOPE_LEN :: nat where
  "MIN_ENVELOPE_LEN = EPH_PUB_LEN + NONCE_LEN + TAG_LEN + SENDER_ID_LEN"

definition sealed_sender_seal ::
  "prims \<Rightarrow> seal_rand \<Rightarrow> IdentityKeyPair \<Rightarrow> bytes \<Rightarrow> bytes \<Rightarrow> SealedSenderError + bytes" where
  "sealed_sender_seal P rnd sender recipient_pub payload =
     (let eph_pub_bytes = dh_pub P (sr_eph rnd);
          nonce = sr_nonce rnd
      in (case dh_agree P (sr_eph rnd) recipient_pub of
            None \<Rightarrow> Inl EnvMalformed
          | Some shared \<Rightarrow>
              (case hkdf P (Some HKDF_SALT) shared eph_pub_bytes KEY_LEN of
                 None \<Rightarrow> Inl EnvDecryptionFailed
               | Some key \<Rightarrow>
                   let sender_id = ident_serialize P (ikp_public sender);
                       plaintext = sender_id @ payload
                   in (case chacha_enc P key nonce eph_pub_bytes plaintext of
                         None \<Rightarrow> Inl EnvDecryptionFailed
                       | Some ciphertext \<Rightarrow> Inr (eph_pub_bytes @ nonce @ ciphertext)))))"

definition sealed_sender_open ::
  "prims \<Rightarrow> IdentityKeyPair \<Rightarrow> bytes \<Rightarrow> SealedSenderError + bytes" where
  "sealed_sender_open P recipient envelope =
     (if length envelope < MIN_ENVELOPE_LEN then Inl EnvMalformed
      else let eph_pub_bytes = take EPH_PUB_LEN envelope;
               nonce_bytes = take NONCE_LEN (drop EPH_PUB_LEN envelope);
               ciphertext = drop (EPH_PUB_LEN + NONCE_LEN) envelope
           in (case djb_decode P eph_pub_bytes of
                 None \<Rightarrow> Inl EnvMalformed
               | Some eph_pub \<Rightarrow>
                   (case dh_agree P (ikp_private recipient) eph_pub of
                      None \<Rightarrow> Inl EnvMalformed
                    | Some shared \<Rightarrow>
                        (case hkdf P (Some HKDF_SALT) shared eph_pub_bytes KEY_LEN of
                           None \<Rightarrow> Inl EnvDecryptionFailed
                         | Some key \<Rightarrow>
                             (case chacha_dec P key nonce_bytes eph_pub_bytes ciphertext of
                                None \<Rightarrow> Inl EnvDecryptionFailed
                              | Some plaintext \<Rightarrow>
                                  if length plaintext < SENDER_ID_LEN then Inl NotForRecipient
                                  else Inr (drop SENDER_ID_LEN plaintext))))))"

section \<open>Lemmas\<close>

lemmas envelope_lens = seal_lens SENDER_ID_LEN_def MIN_ENVELOPE_LEN_def

text \<open>The randomness of a seal together with the sender who seals.\<close>

definition sender_rand_ok :: "prims \<Rightarrow> seal_rand \<times> IdentityKeyPair \<Rightarrow> bool" where
  "sender_rand_ok P r \<longleftrightarrow> seal_rand_ok (fst r) \<and> ikp_ok P (snd r)"

lemma seal_open_envelope:
  assumes "crypto_ok P" "ikp_ok P k" "sender_rand_ok P (r, sender)"
  shows "\<exists>c. sealed_sender_seal P r sender (ikp_public k) m = Inr c \<and>
    length c = MIN_ENVELOPE_LEN + length m \<and> sealed_sender_open P k c = Inr m"
proof -
  let ?e = "dh_pub P (sr_eph r)"
  have n: "length (sr_nonce r) = 12" using assms(3) by (simp add: seal_rand_ok_def sender_rand_ok_def)
  obtain s key c where c: "dh_agree P (sr_eph r) (dh_pub P (ikp_private k)) = Some s"
    "dh_agree P (ikp_private k) ?e = Some s" "hkdf P (Some HKDF_SALT) s ?e 32 = Some key"
    "chacha_enc P key (sr_nonce r) ?e (ident_serialize P (dh_pub P (ikp_private sender)) @ m) = Some c"
    "length c = length (ident_serialize P (dh_pub P (ikp_private sender)) @ m) + 16"
    "chacha_dec P key (sr_nonce r) ?e c = Some (ident_serialize P (dh_pub P (ikp_private sender)) @ m)"
    by (rule ecdh_aead [OF assms(1) n])
  show ?thesis
    using assms c n
    by (intro exI [of _ "?e @ sr_nonce r @ c"])
      (simp add: sealed_sender_seal_def sealed_sender_open_def ikp_ok_def sender_rand_ok_def Let_def
        envelope_lens)
qed

lemma open_short_envelope: "length c < MIN_ENVELOPE_LEN \<Longrightarrow> isl (sealed_sender_open P k c)"
  by (simp add: sealed_sender_open_def)

text \<open>
  The length check makes room for the identity, so an authentic frame is never too short for it: the
  error of a truncated inner frame does not occur.
\<close>

lemma never_not_for_recipient:
  assumes "crypto_ok P"
  shows "sealed_sender_open P k envelope \<noteq> Inl NotForRecipient"
proof
  let ?e = "take 32 envelope" and ?n = "take 12 (drop 32 envelope)" and ?c = "drop 44 envelope"
  assume nf: "sealed_sender_open P k envelope = Inl NotForRecipient"
  then have long: "93 \<le> length envelope" by (auto simp: sealed_sender_open_def envelope_lens split: if_splits)
  obtain s key pt where pt: "hkdf P (Some HKDF_SALT) s ?e 32 = Some key" "chacha_dec P key ?n ?e ?c = Some pt" "length pt < 33"
    using nf by (auto simp: sealed_sender_open_def Let_def envelope_lens split: if_splits option.splits)
  have "length key = 32" by (rule hkdf_okD [OF assms, of 32 "Some HKDF_SALT" s ?e]) (use pt(1) in simp_all)
  then have "length ?c = length pt + 16" using chacha_dec_length [OF assms _ _ pt(2)] long by simp
  then show False using long pt(3) by simp
qed

interpretation sender_box: sealed_box
  "crypto_ok P" "ikp_ok P" "sender_rand_ok P" ikp_public
  "\<lambda>r. sealed_sender_seal P (fst r) (snd r)" "sealed_sender_open P" MIN_ENVELOPE_LEN
  for P
  by unfold_locales (auto simp: seal_open_envelope open_short_envelope)

section \<open>Properties\<close>

text \<open>
  C33: An envelope sealed by any honest sender to an honest recipient is opened by the recipient to
  exactly the payload, the sender's identity prefix removed; it is 93 bytes longer than the
  payload, and every input shorter than 93 bytes is refused as malformed before any decryption. No
  input at all is answered with \<open>NotForRecipient\<close>: that error is unreachable.
\<close>

theorem envelope_round_trips:
  assumes "crypto_ok P" "length (sr_nonce r) = 12"
  shows "(\<exists>c. sealed_sender_seal P r (IdentityKeyPair_generate P a) (ikp_public (IdentityKeyPair_generate P b)) m = Inr c \<and>
      sealed_sender_open P (IdentityKeyPair_generate P b) c = Inr m \<and> length c = 93 + length m) \<and>
    (\<forall>k short. length short < 93 \<longrightarrow> sealed_sender_open P k short = Inl EnvMalformed) \<and>
    (\<forall>k envelope. sealed_sender_open P k envelope \<noteq> Inl NotForRecipient)"
proof (intro conjI)
  have "MIN_ENVELOPE_LEN = 93" by (simp add: envelope_lens)
  then show "\<exists>c. sealed_sender_seal P r (IdentityKeyPair_generate P a) (ikp_public (IdentityKeyPair_generate P b)) m = Inr c \<and>
      sealed_sender_open P (IdentityKeyPair_generate P b) c = Inr m \<and> length c = 93 + length m"
    using sender_box.seal_open [of P "IdentityKeyPair_generate P b" "(r, IdentityKeyPair_generate P a)" m] assms
    by (auto simp: sender_rand_ok_def seal_rand_ok_def)
  show "\<forall>k short. length short < 93 \<longrightarrow> sealed_sender_open P k short = Inl EnvMalformed"
    by (simp add: sealed_sender_open_def envelope_lens)
  show "\<forall>k envelope. sealed_sender_open P k envelope \<noteq> Inl NotForRecipient"
    using never_not_for_recipient [OF assms(1)] by blast
qed

theorem envelope_round_trips_witness:
  "\<exists>c. sealed_sender_seal demo_prims \<lparr>sr_eph = [1], sr_nonce = replicate 12 2\<rparr>
         (IdentityKeyPair_generate demo_prims [8])
         (ikp_public (IdentityKeyPair_generate demo_prims [9])) [4, 5] = Inr c \<and>
     sealed_sender_open demo_prims (IdentityKeyPair_generate demo_prims [9]) c = Inr [4, 5] \<and>
     length c = 93 + length [4, 5 :: u8]"
  using envelope_round_trips [OF demo_crypto_ok,
      of "\<lparr>sr_eph = [1], sr_nonce = replicate 12 2\<rparr>" "[8]" "[9]" "[4, 5]"] by simp

text \<open>
  Opening succeeds only on an authentic envelope: the bytes are an ephemeral key, a nonce and
  the encryption, under the key this recipient derives, of 33 bytes of claimed sender identity
  followed by the returned payload.
\<close>

theorem envelope_open_only_authentic:
  assumes "crypto_ok P" "sealed_sender_open P k envelope = Inr payload"
  shows "\<exists>eph pub nonce shared key c sid. envelope = eph @ nonce @ c \<and> length eph = 32 \<and>
    length nonce = 12 \<and> length sid = 33 \<and> djb_decode P eph = Some pub \<and>
    dh_agree P (ikp_private k) pub = Some shared \<and>
    hkdf P (Some HKDF_SALT) shared eph 32 = Some key \<and>
    chacha_enc P key nonce eph (sid @ payload) = Some c"
proof -
  let ?e = "take 32 envelope" and ?n = "take 12 (drop 32 envelope)" and ?c = "drop 44 envelope"
  have long: "93 \<le> length envelope"
    using sender_box.opened_long [OF assms(2)] by (simp add: envelope_lens)
  obtain pub s key pt where pt: "djb_decode P ?e = Some pub" "dh_agree P (ikp_private k) pub = Some s"
    "hkdf P (Some HKDF_SALT) s ?e 32 = Some key" "chacha_dec P key ?n ?e ?c = Some pt"
    "33 \<le> length pt" "payload = drop 33 pt"
    using assms(2)
    by (auto simp: sealed_sender_open_def Let_def envelope_lens not_less split: if_splits option.splits)
  have "envelope = ?e @ ?n @ ?c" using take_drop_split [of envelope 32 12] by simp
  moreover have "length ?e = 32" "length ?n = 12" "length (take 33 pt) = 33" using long pt(5) by simp_all
  moreover have "chacha_enc P key ?n ?e (take 33 pt @ payload) = Some ?c"
    using chacha_dec_enc [OF assms(1) pt(4)] pt(6) by simp
  ultimately show ?thesis using pt(1-3) by blast
qed

theorem envelope_open_only_authentic_witness:
  "\<exists>c eph nonce key ct sid. sealed_sender_open demo_prims (IdentityKeyPair_generate demo_prims [9]) c = Inr [4] \<and>
     c = eph @ nonce @ ct \<and> chacha_enc demo_prims key nonce eph (sid @ [4]) = Some ct"
proof -
  obtain c where c: "sealed_sender_open demo_prims (IdentityKeyPair_generate demo_prims [9]) c = Inr [4]"
    using sender_box.seal_open [of demo_prims "IdentityKeyPair_generate demo_prims [9]"
        "(\<lparr>sr_eph = [1], sr_nonce = replicate 12 2\<rparr>, IdentityKeyPair_generate demo_prims [8])" "[4]"]
      demo_crypto_ok
    by (auto simp: sender_rand_ok_def seal_rand_ok_def)
  then show ?thesis using envelope_open_only_authentic [OF demo_crypto_ok c] by blast
qed

end
