(* ===== verification/Dht.thy ===== *)
theory Dht
  imports Prekey
begin

text \<open>
  DHT records of prekey bundles (\<open>core/transport/src/dht.rs\<close>): encoding, decoding with the
  identity-binding and signature checks, publishing and looking up under the identity key. The
  Kademlia behaviour is a parameter (its \<open>put_record\<close> and \<open>get_record\<close>, with the law \<open>kad_ok\<close>), and so is what the
  builders of the node's behaviour and swarm call. The module has its own
  framing code over a shrinking slice; it is shown to implement the format of
  \<open>PreKeyBundle::to_bytes\<close> and \<open>from_bytes\<close>.
\<close>

section \<open>Records\<close>

datatype DhtPreKeyError = MalformedRecord | IdentityKeyMismatch | InvalidBundle PreKeyError

definition DhtPreKeyError_display :: "DhtPreKeyError \<Rightarrow> string" where
  "DhtPreKeyError_display e =
     (case e of
        MalformedRecord \<Rightarrow> ''malformed DHT prekey-bundle record''
      | IdentityKeyMismatch \<Rightarrow> ''record identity key does not match its DHT key''
      | InvalidBundle e \<Rightarrow> ''prekey bundle failed verification: '' @ PreKeyError_display e)"

definition record_key_for_identity :: "('spk, 'otk) signal_lib \<Rightarrow> bytes \<Rightarrow> bytes" where
  "record_key_for_identity S ik = identity_serialize S ik"

definition put_field :: "bytes \<Rightarrow> bytes" where
  "put_field bs = be_bytes 4 (length bs) @ bs"

definition encode_bundle ::
  "('spk, 'otk) signal_lib \<Rightarrow> ('spk, 'otk) PreKeyBundle \<Rightarrow> DhtPreKeyError + bytes" where
  "encode_bundle S b =
     (let out = put_field (identity_serialize S (identity_key b))
      in (case spk_serialize S (signed_pre_key b) of
            None \<Rightarrow> Inl MalformedRecord
          | Some signed_bytes \<Rightarrow>
              let out = out @ put_field signed_bytes
              in (case one_time_pre_key b of
                    None \<Rightarrow> Inr (out @ [0])
                  | Some one_time \<Rightarrow>
                      (case otk_serialize S one_time of
                         None \<Rightarrow> Inl MalformedRecord
                       | Some one_time \<Rightarrow> Inr (out @ [1] @ put_field one_time)))))"

text \<open>\<open>split_at\<close> cannot panic here: each is guarded by the length test above it.\<close>

definition take_field :: "bytes \<Rightarrow> (DhtPreKeyError + bytes \<times> bytes)" where
  "take_field cursor =
     (if length cursor < 4 then Inl MalformedRecord
      else let len_bytes = take 4 cursor;
               rest = drop 4 cursor;
               len = be_nat len_bytes
           in if length rest < len then Inl MalformedRecord
              else Inr (take len rest, drop len rest))"

definition decode_bundle ::
  "('spk, 'otk) signal_lib \<Rightarrow> bytes \<Rightarrow> DhtPreKeyError + ('spk, 'otk) PreKeyBundle" where
  "decode_bundle S value =
     (case take_field value of
        Inl e \<Rightarrow> Inl e
      | Inr (ib, cursor) \<Rightarrow>
     (case identity_try_from S ib of
        None \<Rightarrow> Inl MalformedRecord
      | Some ik \<Rightarrow>
     (case take_field cursor of
        Inl e \<Rightarrow> Inl e
      | Inr (sb, cursor) \<Rightarrow>
     (case spk_deserialize S sb of
        None \<Rightarrow> Inl MalformedRecord
      | Some sk \<Rightarrow>
     (case cursor of
        [] \<Rightarrow> Inl MalformedRecord
      | flag # cursor \<Rightarrow>
     (case (if flag = 0 then Inr (None, cursor)
            else if flag = 1 then
              (case take_field cursor of
                 Inl e \<Rightarrow> Inl e
               | Inr (ob, cursor) \<Rightarrow>
                   (case otk_deserialize S ob of
                      None \<Rightarrow> Inl MalformedRecord
                    | Some r \<Rightarrow> Inr (Some r, cursor)))
            else Inl MalformedRecord) of
        Inl e \<Rightarrow> Inl e
      | Inr (ot, cursor) \<Rightarrow>
          if cursor \<noteq> [] then Inl MalformedRecord
          else Inr \<lparr>identity_key = ik, signed_pre_key = sk, one_time_pre_key = ot\<rparr>))))))"

definition decode_and_verify_bundle ::
  "('spk, 'otk) signal_lib \<Rightarrow> bytes \<Rightarrow> bytes \<Rightarrow> DhtPreKeyError + ('spk, 'otk) PreKeyBundle" where
  "decode_and_verify_bundle S key value =
     (case decode_bundle S value of
        Inl e \<Rightarrow> Inl e
      | Inr bundle \<Rightarrow>
          if key \<noteq> identity_serialize S (identity_key bundle) then Inl IdentityKeyMismatch
          else (case verify_pre_key_bundle S bundle of
                  Inl e \<Rightarrow> Inl (InvalidBundle e)
                | Inr _ \<Rightarrow> Inr bundle))"

section \<open>The node\<close>

text \<open>
  The Kademlia behaviour of a node and the swarm that runs it. \<open>kad\<close> holds what libp2p offers for
  it: \<open>Behaviour::new\<close>, \<open>MemoryStore::new\<close>, \<open>set_mode\<close>, and the two fallible calls of the builder.
\<close>

datatype kad_mode = Client | Server

record ('kp, 'pid, 'ms, 'd, 'bd, 'sw, 'e) kad_lib =
  kad_peer_id :: "'kp \<Rightarrow> 'pid"
  kad_memory_store :: "'pid \<Rightarrow> 'ms"
  kad_new :: "'pid \<Rightarrow> 'ms \<Rightarrow> 'd"
  kad_set_mode :: "kad_mode option \<Rightarrow> 'd \<Rightarrow> 'd"
  kad_with_tcp :: "'kp \<Rightarrow> 'e + 'bd"
  kad_with_behaviour :: "'bd \<Rightarrow> 'd \<Rightarrow> 'e + 'sw"

definition build_dht_behaviour :: "('kp, 'pid, 'ms, 'd, 'bd, 'sw, 'e) kad_lib \<Rightarrow> 'pid \<Rightarrow> 'd" where
  "build_dht_behaviour K peer_id =
     (let behaviour = kad_new K peer_id (kad_memory_store K peer_id)
      in kad_set_mode K (Some Server) behaviour)"

definition build_dht_swarm :: "('kp, 'pid, 'ms, 'd, 'bd, 'sw, 'e) kad_lib \<Rightarrow> 'kp \<Rightarrow> 'e + 'sw" where
  "build_dht_swarm K keypair =
     and_then (kad_with_tcp K keypair) (\<lambda>builder.
       kad_with_behaviour K builder (build_dht_behaviour K (kad_peer_id K keypair)))"

section \<open>Publishing and looking up\<close>

datatype 'e PublishError = Encode DhtPreKeyError | Store 'e

definition PublishError_from :: "DhtPreKeyError \<Rightarrow> 'e PublishError" where
  "PublishError_from e = Encode e"

definition PublishError_display :: "('e \<Rightarrow> string) \<Rightarrow> 'e PublishError \<Rightarrow> string" where
  "PublishError_display show_store e =
     (case e of
        Encode e \<Rightarrow> ''could not encode bundle: '' @ DhtPreKeyError_display e
      | Store e \<Rightarrow> ''local record store rejected the record: '' @ show_store e)"

definition publish_pre_key_bundle ::
  "('spk, 'otk) signal_lib \<Rightarrow> (bytes \<Rightarrow> bytes \<Rightarrow> 'd \<Rightarrow> ('e + 'q) \<times> 'd) \<Rightarrow>
   ('spk, 'otk) PreKeyBundle \<Rightarrow> 'd \<Rightarrow> ('e PublishError + 'q) \<times> 'd" where
  "publish_pre_key_bundle S put_record b d =
     (case encode_bundle S b of
        Inl e \<Rightarrow> (Inl (PublishError_from e), d)
      | Inr value \<Rightarrow>
          let (r, d) = put_record (record_key_for_identity S (identity_key b)) value d
          in (map_err Store r, d))"

definition lookup_pre_key_bundle ::
  "('spk, 'otk) signal_lib \<Rightarrow> (bytes \<Rightarrow> 'd \<Rightarrow> 'q \<times> 'd) \<Rightarrow> bytes \<Rightarrow> 'd \<Rightarrow> 'q \<times> 'd" where
  "lookup_pre_key_bundle S get_record ik d = get_record (record_key_for_identity S ik) d"

section \<open>Lemmas\<close>

interpretation dht: field_reader "\<lambda>c. c" "\<lambda>c. True" put_field "\<lambda>c. Return (take_field c)"
proof unfold_locales
  fix c seg post :: bytes
  assume "length seg < 2 ^ 32" "c = put_field seg @ post"
  then show "\<exists>c'. Return (take_field c) = Return (Inr (seg, c')) \<and> True \<and> c' = post"
    by (simp add: take_field_def put_field_def)
next
  fix c seg c' :: bytes
  assume "Return (take_field c) = Return (Inr (seg, c'))"
  then have r: "0 + 4 \<le> length c" "be_nat (take 4 (drop 0 c)) \<le> length c - (0 + 4)"
    "seg = take (be_nat (take 4 (drop 0 c))) (drop (0 + 4) c)"
    "c' = drop (be_nat (take 4 c)) (drop 4 c)"
    by (auto simp: take_field_def Let_def split: if_splits)
  note s = split_prefixed [OF r(1) refl r(2,3)]
  then show "True \<and> c = put_field seg @ c' \<and> length seg < 2 ^ 32"
    using r(4) by (simp add: put_field_def add.commute)
qed simp

lemma put_field_eq: "put_field = write_len_prefixed"
  by (rule ext) (simp add: put_field_def write_len_prefixed_def)

lemma take_field_iff:
  "take_field c = Inr (seg, c') \<longleftrightarrow> c = write_len_prefixed seg @ c' \<and> length seg < 2 ^ 32"
  using dht.fetch_sound [of c seg c'] dht.fetch_put [of seg c c'] by (auto simp: put_field_eq)

lemma decode_bundle_iff: "decode_bundle S value = Inr b \<longleftrightarrow> bundle_layout S b value"
proof
  assume "decode_bundle S value = Inr b"
  then obtain ib c1 sb rst where d: "take_field value = Inr (ib, c1)" "take_field c1 = Inr (sb, rst)"
    "identity_try_from S ib = Some (identity_key b)" "spk_deserialize S sb = Some (signed_pre_key b)"
    "rst = [0] \<and> one_time_pre_key b = None \<or>
     (\<exists>ob c r. rst = 1 # c \<and> take_field c = Inr (ob, []) \<and> otk_deserialize S ob = Some r \<and>
        one_time_pre_key b = Some r)"
    by (auto simp: decode_bundle_def split: sum.splits option.splits list.splits if_splits)
  have "otpk_layout (otk_deserialize S) (one_time_pre_key b) rst"
    using d(5) by (auto simp: otpk_layout_def take_field_iff)
  then show "bundle_layout S b value"
    unfolding bundle_layout_def using d(1-4) unfolding take_field_iff by blast
next
  assume "bundle_layout S b value"
  then obtain ib sb rst where l: "value = write_len_prefixed ib @ write_len_prefixed sb @ rst"
    "length ib < 2 ^ 32" "length sb < 2 ^ 32" "identity_try_from S ib = Some (identity_key b)"
    "spk_deserialize S sb = Some (signed_pre_key b)"
    "otpk_layout (otk_deserialize S) (one_time_pre_key b) rst"
    unfolding bundle_layout_def by blast
  have t: "take_field value = Inr (ib, write_len_prefixed sb @ rst)"
    "take_field (write_len_prefixed sb @ rst) = Inr (sb, rst)"
    using l(1-3) by (simp_all add: take_field_iff)
  show "decode_bundle S value = Inr b"
  proof (cases "one_time_pre_key b")
    case None
    then show ?thesis using l t by (simp add: decode_bundle_def otpk_layout_def)
  next
    case (Some r)
    then obtain ob where ob: "rst = 1 # write_len_prefixed ob" "length ob < 2 ^ 32"
      "otk_deserialize S ob = Some r" using l(6) by (auto simp: otpk_layout_def)
    then have "take_field (write_len_prefixed ob) = Inr (ob, [])" by (simp add: take_field_iff)
    then show ?thesis using l t ob Some by (simp add: decode_bundle_def)
  qed
qed

lemma encode_is_to_bytes:
  "encode_bundle S b = map_err (\<lambda>_. MalformedRecord) (PreKeyBundle_to_bytes S b)"
  by (auto simp: encode_bundle_def PreKeyBundle_to_bytes_def put_field_eq Let_def map_err_def split: option.splits)

lemma record_key_inject:
  assumes "signal_ok S"
  shows "record_key_for_identity S x = record_key_for_identity S y \<longleftrightarrow> x = y"
  using assms unfolding signal_ok_def record_key_for_identity_def by (metis option.inject)

lemma accepted_record:
  assumes "decode_and_verify_bundle S key value = Inr b"
  shows "bundle_layout S b value" "key = record_key_for_identity S (identity_key b)"
    "verify_pre_key_bundle S b = Inr ()"
  using assms
  by (auto simp: decode_and_verify_bundle_def decode_bundle_iff record_key_for_identity_def split: sum.splits if_splits)

lemma honest_record:
  assumes "signal_ok S" "bundle_fits S b" "verify_pre_key_bundle S b = Inr ()"
  obtains v where "encode_bundle S b = Inr v"
    "decode_and_verify_bundle S (record_key_for_identity S (identity_key b)) v = Inr b"
    "\<And>other. other \<noteq> identity_key b \<Longrightarrow>
       decode_and_verify_bundle S (record_key_for_identity S other) v = Inl IdentityKeyMismatch"
proof -
  obtain v where v: "PreKeyBundle_to_bytes S b = Inr v" "bundle_layout S b v"
    using to_bytes_layout assms by blast
  then have "encode_bundle S b = Inr v" "decode_bundle S v = Inr b"
    by (simp_all add: encode_is_to_bytes decode_bundle_iff)
  then show ?thesis
    using that [of v] assms(3) record_key_inject [OF assms(1)]
    by (simp add: decode_and_verify_bundle_def record_key_for_identity_def)
qed

section \<open>The record store\<close>

text \<open>
  What libp2p documents of a Kademlia behaviour over a \<open>MemoryStore\<close>: \<open>put_record\<close> writes the record
  to the local store under its key, replacing what was there, or reports the store's error and
  leaves the store as it was; \<open>get_record\<close> changes no record, and its query is first answered from the
  local store. \<open>stored\<close> reads the local store and \<open>local_answer\<close> the record a query has found there.
\<close>

definition kad_ok ::
  "(bytes \<Rightarrow> bytes \<Rightarrow> 'd \<Rightarrow> ('e + 'q) \<times> 'd) \<Rightarrow> (bytes \<Rightarrow> 'd \<Rightarrow> 'q \<times> 'd) \<Rightarrow>
   ('d \<Rightarrow> bytes \<rightharpoonup> bytes) \<Rightarrow> ('d \<Rightarrow> 'q \<Rightarrow> bytes option) \<Rightarrow> bool" where
  "kad_ok put_record get_record stored local_answer \<longleftrightarrow>
     (\<forall>k v d q d'. put_record k v d = (Inr q, d') \<longrightarrow> stored d' = (stored d)(k \<mapsto> v)) \<and>
     (\<forall>k v d e d'. put_record k v d = (Inl e, d') \<longrightarrow> stored d' = stored d) \<and>
     (\<forall>k d q d'. get_record k d = (q, d') \<longrightarrow> stored d' = stored d \<and> local_answer d' q = stored d k)"

text \<open>Publishing several bundles, one after the other, whatever becomes of each.\<close>

definition publish_all ::
  "('spk, 'otk) signal_lib \<Rightarrow> (bytes \<Rightarrow> bytes \<Rightarrow> 'd \<Rightarrow> ('e + 'q) \<times> 'd) \<Rightarrow>
   ('spk, 'otk) PreKeyBundle list \<Rightarrow> 'd \<Rightarrow> 'd" where
  "publish_all S put_record bs d = fold (\<lambda>b d. snd (publish_pre_key_bundle S put_record b d)) bs d"

lemma publish_stores:
  assumes "kad_ok put_record get_record stored local_answer" "publish_pre_key_bundle S put_record b d = (r, d')"
  shows "case r of
      Inl (Encode e) \<Rightarrow> encode_bundle S b = Inl e \<and> d' = d
    | Inl (Store e) \<Rightarrow> stored d' = stored d
    | Inr q \<Rightarrow> stored d' = (stored d)(record_key_for_identity S (identity_key b) \<mapsto> projr (encode_bundle S b)) \<and>
        encode_bundle S b = Inr (projr (encode_bundle S b))"
proof (cases "encode_bundle S b")
  case (Inl e)
  then show ?thesis using assms(2) by (auto simp: publish_pre_key_bundle_def PublishError_from_def)
next
  case (Inr v)
  obtain r' d2 where "put_record (record_key_for_identity S (identity_key b)) v d = (r', d2)" by fastforce
  then show ?thesis using assms Inr
    by (cases r') (auto simp: publish_pre_key_bundle_def kad_ok_def map_err_def)
qed

lemma local_lookup:
  assumes "kad_ok put_record get_record stored local_answer" "lookup_pre_key_bundle S get_record ik d = (q, d')"
  shows "local_answer d' q = stored d (record_key_for_identity S ik)"
  using assms by (auto simp: lookup_pre_key_bundle_def kad_ok_def)

lemma publish_all_elsewhere:
  assumes "signal_ok S" "kad_ok put_record get_record stored local_answer" "\<forall>c \<in> set cs. identity_key c \<noteq> ik"
  shows "stored (publish_all S put_record cs d) (record_key_for_identity S ik) = stored d (record_key_for_identity S ik)"
  using assms(3)
proof (induction cs arbitrary: d)
  case Nil
  then show ?case by (simp add: publish_all_def)
next
  case (Cons c cs)
  obtain r d' where p: "publish_pre_key_bundle S put_record c d = (r, d')" by fastforce
  have "record_key_for_identity S ik \<noteq> record_key_for_identity S (identity_key c)"
    using record_key_inject [OF assms(1)] Cons.prems by auto
  then have "stored d' (record_key_for_identity S ik) = stored d (record_key_for_identity S ik)"
    using publish_stores [OF assms(2) p] by (auto split: sum.splits PublishError.splits)
  then show ?case using Cons p by (simp add: publish_all_def)
qed

text \<open>
  A store in the manner of \<open>MemoryStore\<close>, which refuses values of 65 KiB and more, with the record
  each query has found.
\<close>

definition demo_put :: "bytes \<Rightarrow> bytes \<Rightarrow> (bytes \<rightharpoonup> bytes) \<times> bytes option list \<Rightarrow>
    (string + nat) \<times> ((bytes \<rightharpoonup> bytes) \<times> bytes option list)" where
  "demo_put k v = (\<lambda>(m, qs). if length v \<ge> 65 * 1024 then (Inl ''ValueTooLarge'', m, qs)
     else (Inr (length qs), m(k \<mapsto> v), qs @ [None]))"

definition demo_get :: "bytes \<Rightarrow> (bytes \<rightharpoonup> bytes) \<times> bytes option list \<Rightarrow> nat \<times> ((bytes \<rightharpoonup> bytes) \<times> bytes option list)" where
  "demo_get k = (\<lambda>(m, qs). (length qs, m, qs @ [m k]))"

lemma demo_kad_ok: "kad_ok demo_put demo_get fst (\<lambda>(m, qs) q. qs ! q)"
  by (auto simp: kad_ok_def demo_put_def demo_get_def split: if_splits)

section \<open>Properties\<close>

text \<open>
  The DHT record format and the byte format of \<open>PreKeyBundle\<close> are the same format: both
  encoders produce the same bytes, and the slice-based decoder accepts exactly the inputs the
  offset-based parser accepts, with the same bundle.
\<close>

theorem dht_format_is_bundle_format:
  "encode_bundle S b = map_err (\<lambda>_. MalformedRecord) (PreKeyBundle_to_bytes S b) \<and>
   (decode_bundle S value = Inr b' \<longleftrightarrow> PreKeyBundle_from_bytes S value = Return (Inr b'))"
  by (simp add: encode_is_to_bytes decode_bundle_iff from_bytes_iff)

text \<open>
  C13: A record is accepted for a key only if it is a well-formed bundle whose own identity key
  serializes to that key and whose signed prekey verifies under that identity; so a validly
  signed bundle of one identity never answers a lookup for another. Publishing a bundle reports an
  encoding error and touches nothing, or the store's error and leaves every record as it was, or
  writes exactly one record, its encoding, under the key of its identity. An honest bundle always
  encodes; once it was published, and any bundles of other identities after it, a lookup for its
  identity finds its record, which is accepted as that very bundle and refused for every other
  identity.
\<close>

theorem dht_record_is_bound_to_identity:
  assumes "signal_ok S" "kad_ok put_record get_record stored local_answer"
  shows "(decode_and_verify_bundle S key value = Inr b \<longrightarrow>
      bundle_layout S b value \<and> key = record_key_for_identity S (identity_key b) \<and>
      verify_pre_key_bundle S b = Inr ()) \<and>
    (case publish_pre_key_bundle S put_record b d of
       (Inl (Encode e), d') \<Rightarrow> encode_bundle S b = Inl e \<and> d' = d
     | (Inl (Store e), d') \<Rightarrow> stored d' = stored d
     | (Inr _, d') \<Rightarrow> \<exists>v. encode_bundle S b = Inr v \<and>
         stored d' = (stored d)(record_key_for_identity S (identity_key b) \<mapsto> v)) \<and>
    (bundle_fits S b \<and> verify_pre_key_bundle S b = Inr () \<longrightarrow>
      (\<exists>v. encode_bundle S b = Inr v \<and>
         decode_and_verify_bundle S (record_key_for_identity S (identity_key b)) v = Inr b \<and>
         (\<forall>other. other \<noteq> identity_key b \<longrightarrow>
            decode_and_verify_bundle S (record_key_for_identity S other) v = Inl IdentityKeyMismatch) \<and>
         (\<forall>q d' cs. publish_pre_key_bundle S put_record b d = (Inr q, d') \<and>
            (\<forall>c \<in> set cs. identity_key c \<noteq> identity_key b) \<longrightarrow>
            (case lookup_pre_key_bundle S get_record (identity_key b) (publish_all S put_record cs d') of
               (q', d'') \<Rightarrow> local_answer d'' q' = Some v))))"
    (is "?accepted \<and> ?published \<and> (?honest \<longrightarrow> (\<exists>v. ?found v))")
proof -
  have published: ?published
    using publish_stores [OF assms(2)] by (force split: prod.splits sum.splits PublishError.splits)
  have "\<exists>v. ?found v" if honest: ?honest
  proof -
    obtain v where v: "encode_bundle S b = Inr v"
      "decode_and_verify_bundle S (record_key_for_identity S (identity_key b)) v = Inr b"
      "\<And>other. other \<noteq> identity_key b \<Longrightarrow>
         decode_and_verify_bundle S (record_key_for_identity S other) v = Inl IdentityKeyMismatch"
      using honest_record [OF assms(1)] honest by blast
    have "local_answer d'' q' = Some v"
      if "publish_pre_key_bundle S put_record b d = (Inr q, d')" "\<forall>c \<in> set cs. identity_key c \<noteq> identity_key b"
        "lookup_pre_key_bundle S get_record (identity_key b) (publish_all S put_record cs d') = (q', d'')" for q d' cs q' d''
    proof -
      have "stored d' (record_key_for_identity S (identity_key b)) = Some v" using published that(1) v(1) by simp
      then show ?thesis
        using local_lookup [OF assms(2) that(3)] publish_all_elsewhere [OF assms that(2), of d'] by simp
    qed
    then have "?found v" using v by (simp split: prod.splits) blast
    then show ?thesis ..
  qed
  then have honest: "?honest \<longrightarrow> (\<exists>v. ?found v)" ..
  have ?accepted using accepted_record by metis
  then show ?thesis by (rule conjI [OF _ conjI [OF published honest]])
qed

theorem dht_record_is_bound_to_identity_witness:
  "let b = \<lparr>identity_key = [5], signed_pre_key = ([1], [5, 1]), one_time_pre_key = None\<rparr>;
       c = \<lparr>identity_key = [6], signed_pre_key = ([2], [6, 2]), one_time_pre_key = Some 9\<rparr>
   in case publish_pre_key_bundle demo_signal demo_put b (Map.empty, []) of (r, d') \<Rightarrow>
     r = Inr 0 \<and>
     (case lookup_pre_key_bundle demo_signal demo_get [5] (publish_all demo_signal demo_put [c] d') of (q, m, qs) \<Rightarrow>
        \<exists>v. qs ! q = Some v \<and> encode_bundle demo_signal b = Inr v \<and>
          decode_and_verify_bundle demo_signal (record_key_for_identity demo_signal [5]) v = Inr b \<and>
          decode_and_verify_bundle demo_signal (record_key_for_identity demo_signal [6]) v = Inl IdentityKeyMismatch)"
proof -
  let ?b = "\<lparr>identity_key = [5], signed_pre_key = ([1], [5, 1]), one_time_pre_key = None\<rparr>"
  let ?c = "\<lparr>identity_key = [6], signed_pre_key = ([2], [6, 2]), one_time_pre_key = Some 9\<rparr>"
  have b: "bundle_fits demo_signal ?b" "verify_pre_key_bundle demo_signal ?b = Inr ()"
    by (simp_all add: bundle_fits_def demo_signal_def demo_spk_bytes_def verify_pre_key_bundle_def
        verify_signed_pre_key_def)
  obtain d' where p: "publish_pre_key_bundle demo_signal demo_put ?b (Map.empty, []) = (Inr 0, d')"
    by (simp add: publish_pre_key_bundle_def encode_bundle_def demo_signal_def demo_spk_bytes_def put_field_def
        demo_put_def map_err_def)
  obtain v where v: "encode_bundle demo_signal ?b = Inr v"
    "decode_and_verify_bundle demo_signal (record_key_for_identity demo_signal [5]) v = Inr ?b"
    "\<forall>other. other \<noteq> [5] \<longrightarrow>
       decode_and_verify_bundle demo_signal (record_key_for_identity demo_signal other) v = Inl IdentityKeyMismatch"
    "\<forall>q d' cs. publish_pre_key_bundle demo_signal demo_put ?b (Map.empty, []) = (Inr q, d') \<and>
       (\<forall>c \<in> set cs. identity_key c \<noteq> [5]) \<longrightarrow>
       (case lookup_pre_key_bundle demo_signal demo_get [5] (publish_all demo_signal demo_put cs d') of
          (q', d'') \<Rightarrow> (case d'' of (m, qs) \<Rightarrow> \<lambda>q. qs ! q) q' = Some v)"
    using dht_record_is_bound_to_identity [OF demo_signal_ok demo_kad_ok, of "[]" "[]" ?b "(Map.empty, [])"] b by auto
  have "case lookup_pre_key_bundle demo_signal demo_get [5] (publish_all demo_signal demo_put [?c] d') of
      (q', d'') \<Rightarrow> (case d'' of (m, qs) \<Rightarrow> \<lambda>q. qs ! q) q' = Some v"
    using v(4) [THEN spec [of _ 0], THEN spec [of _ d'], THEN spec [of _ "[?c]"]] p by simp
  then show ?thesis using v(1-3) unfolding Let_def p by (auto split: prod.splits)
qed

end
