(* ===== verification/Fanout.thy ===== *)
theory Fanout
  imports Ratchet_Session
begin

text \<open>
  Per-device fan-out of a 1:1 message (\<open>core/protocol/src/fanout.rs\<close>): one sender and one
  receiver session for every linked device. The \<open>BTreeMap\<close>s are association lists with strictly
  ascending keys behind the \<open>map_impl\<close> interface; identity key pairs are their private half;
  the randomness of the sessions is an argument.
\<close>

section \<open>Ordered maps\<close>

type_synonym ('k, 'v) btmap = "('k \<times> 'v) list"

fun bt_insert :: "'k::linorder \<Rightarrow> 'v \<Rightarrow> ('k, 'v) btmap \<Rightarrow> ('k, 'v) btmap" where
  "bt_insert k v [] = [(k, v)]"
| "bt_insert k v ((j, w) # m) =
     (if k < j then (k, v) # (j, w) # m else if k = j then (k, v) # m else (j, w) # bt_insert k v m)"

definition bt_remove :: "'k \<Rightarrow> ('k, 'v) btmap \<Rightarrow> ('k, 'v) btmap" where
  "bt_remove k m = filter (\<lambda>p. fst p \<noteq> k) m"

definition bt_keys :: "('k, 'v) btmap \<Rightarrow> 'k list" where
  "bt_keys m = map fst m"

definition bt_wf :: "('k::linorder, 'v) btmap \<Rightarrow> bool" where
  "bt_wf m = sorted_wrt (<) (map fst m)"

lemma set_keys_bt_insert: "fst ` set (bt_insert k v m) = insert k (fst ` set m)"
  by (induction k v m rule: bt_insert.induct) auto

lemma bt_wf_insert: "bt_wf m \<Longrightarrow> bt_wf (bt_insert k v m)"
  unfolding bt_wf_def
  by (induction k v m rule: bt_insert.induct) (auto simp flip: set_map simp: set_keys_bt_insert [simplified image_set])

lemma map_of_bt_insert: "bt_wf m \<Longrightarrow> map_of (bt_insert k v m) = (map_of m)(k \<mapsto> v)"
proof (induction k v m rule: bt_insert.induct)
  case (2 k v j w m)
  then have "map_of m k = None" if "k \<le> j"
    using that by (auto simp: bt_wf_def map_of_eq_None_iff)
  then show ?case using 2 by (auto simp: bt_wf_def fun_eq_iff)
qed simp

lemma map_of_bt_remove: "map_of (bt_remove k m) = (map_of m)(k := None)"
  by (induction m) (auto simp: bt_remove_def fun_eq_iff)

interpretation bt: map_impl "[]" map_of bt_insert bt_remove bt_keys bt_wf
proof unfold_locales
  fix k :: "'a::linorder" and m :: "('a, 'b) btmap"
  show "bt_wf m \<Longrightarrow> bt_wf (bt_remove k m)"
    by (simp add: bt_wf_def bt_remove_def sorted_wrt_map sorted_wrt_filter)
  show "bt_wf m \<Longrightarrow> distinct (bt_keys m)"
    by (simp add: bt_wf_def bt_keys_def strict_sorted_iff)
qed (auto simp: map_of_bt_insert map_of_bt_remove bt_wf_insert bt_keys_def dom_map_of_conv_image_fst, simp add: bt_wf_def)

section \<open>Data\<close>

type_synonym DeviceId = u32

definition DeviceId_display :: "DeviceId \<Rightarrow> string" where
  "DeviceId_display d = ''device:'' @ show_nat (unat d)"

record DeviceCiphertext =
  ct_device :: DeviceId
  ct_envelope :: bytes

datatype FanoutError =
    DuplicateDevice DeviceId
  | DuplicateIdentity DeviceId
  | NoDevices
  | FanEstablishment DeviceId SessionError
  | FanEncrypt DeviceId SessionError
  | FanDecrypt DeviceId SessionError
  | UnknownIdentity
  | DeviceMismatch DeviceId DeviceId

definition FanoutError_display ::
  "('spk, 'otk, 'kpk, 'st) ratchet_lib \<Rightarrow> FanoutError \<Rightarrow> string" where
  "FanoutError_display R e =
     (case e of
        DuplicateDevice d \<Rightarrow> ''duplicate device id '' @ DeviceId_display d @ '' in recipient list''
      | DuplicateIdentity d \<Rightarrow> ''recipient identity already linked to device '' @ DeviceId_display d
      | NoDevices \<Rightarrow> ''fan-out recipient list must contain at least one device''
      | FanEstablishment d e \<Rightarrow> ''session establishment failed for device '' @ DeviceId_display d @ '': ''
          @ SessionError_display R e
      | FanEncrypt d e \<Rightarrow> ''encrypt failed for device '' @ DeviceId_display d @ '': '' @ SessionError_display R e
      | FanDecrypt d e \<Rightarrow> ''decrypt failed for device '' @ DeviceId_display d @ '': '' @ SessionError_display R e
      | UnknownIdentity \<Rightarrow> ''no device in this fan-out matches the given identity key''
      | DeviceMismatch claimed actual \<Rightarrow> ''ciphertext claims device '' @ DeviceId_display claimed
          @ '' but identity resolves to device '' @ DeviceId_display actual)"

record ('spk, 'otk, 'kpk, 'st) FanoutSession =
  sender_sessions :: "(DeviceId, ('spk, 'otk, 'kpk, 'st) DoubleRatchetSession) btmap"
  identity_to_device :: "(bytes, DeviceId) hmap"
  receiver_sessions :: "(DeviceId, ('spk, 'otk, 'kpk, 'st) DoubleRatchetSession) btmap"

text \<open>What establishing the session of one device draws.\<close>

record device_rand =
  dr_bob :: bob_rand
  dr_now :: u64
  dr_rnd :: bytes

section \<open>Establishment\<close>

fun establish_devices ::
  "session_lib \<Rightarrow> ('spk, 'otk) signal_lib \<Rightarrow> ('spk, 'otk, 'kpk) record_lib \<Rightarrow> ('spk, 'otk, 'kpk, 'st) ratchet_lib \<Rightarrow>
   bytes \<Rightarrow> (DeviceId \<times> bytes \<times> device_rand) list \<Rightarrow> ('spk, 'otk, 'kpk, 'st) FanoutSession \<Rightarrow>
   (FanoutError + ('spk, 'otk, 'kpk, 'st) FanoutSession) run" where
  "establish_devices L S A R sender [] f = Return (Inr f)"
| "establish_devices L S A R sender ((device_id, recipient_identity, w) # devices) f =
     (if map_of (sender_sessions f) device_id \<noteq> None then Return (Inl (DuplicateDevice device_id))
      else
        run_bind (DoubleRatchetSession_new_bob L S R (dr_bob w) recipient_identity) (\<lambda>r.
        try_bind (lift (map_err (FanEstablishment device_id) r)) (\<lambda>receiver.
        run_bind (DoubleRatchetSession_publish_bundle L S A receiver) (\<lambda>r.
        try_bind (lift (map_err (FanEstablishment device_id) r)) (\<lambda>bundle.
        run_bind (DoubleRatchetSession_new_alice L S R (dr_now w) (dr_rnd w) sender bundle) (\<lambda>r.
        try_bind (lift (map_err (FanEstablishment device_id) r)) (\<lambda>outbound.
        let ih = identity_hash S R recipient_identity in
        (case map_of (identity_to_device f) ih of
           Some existing \<Rightarrow> Return (Inl (DuplicateIdentity existing))
         | None \<Rightarrow>
             establish_devices L S A R sender devices
               (f\<lparr>identity_to_device := hm_insert ih device_id (identity_to_device f),
                  sender_sessions := bt_insert device_id outbound (sender_sessions f),
                  receiver_sessions := bt_insert device_id receiver (receiver_sessions f)\<rparr>)))))))))"

definition FanoutSession_establish ::
  "session_lib \<Rightarrow> ('spk, 'otk) signal_lib \<Rightarrow> ('spk, 'otk, 'kpk) record_lib \<Rightarrow> ('spk, 'otk, 'kpk, 'st) ratchet_lib \<Rightarrow>
   bytes \<Rightarrow> (DeviceId \<times> bytes \<times> device_rand) list \<Rightarrow>
   (FanoutError + ('spk, 'otk, 'kpk, 'st) FanoutSession) run" where
  "FanoutSession_establish L S A R sender devices =
     (if devices = [] then Return (Inl NoDevices)
      else establish_devices L S A R sender devices
        \<lparr>sender_sessions = [], identity_to_device = [], receiver_sessions = []\<rparr>)"

section \<open>Sending, receiving, removing\<close>

text \<open>The loop over the snapshot of device ids; a failure keeps the sessions advanced so far.\<close>

fun encrypt_devices ::
  "('spk, 'otk, 'kpk, 'st) ratchet_lib \<Rightarrow> (DeviceId \<Rightarrow> u64 \<times> bytes) \<Rightarrow> bytes \<Rightarrow> DeviceId list \<Rightarrow>
   ('spk, 'otk, 'kpk, 'st) FanoutSession \<Rightarrow>
   (FanoutError + DeviceCiphertext list) run \<times> ('spk, 'otk, 'kpk, 'st) FanoutSession" where
  "encrypt_devices R rnd plaintext [] f = (Return (Inr []), f)"
| "encrypt_devices R rnd plaintext (device_id # device_ids) f =
     (case map_of (sender_sessions f) device_id of
        None \<Rightarrow> (Panic, f)
      | Some session \<Rightarrow>
          (let (r, session') = DoubleRatchetSession_encrypt R (fst (rnd device_id)) (snd (rnd device_id)) plaintext session;
               f = f\<lparr>sender_sessions := bt_insert device_id session' (sender_sessions f)\<rparr>
           in case r of
                Inl e \<Rightarrow> (Return (Inl (FanEncrypt device_id e)), f)
              | Inr envelope \<Rightarrow>
                  (let (rest, f) = encrypt_devices R rnd plaintext device_ids f
                   in (try_bind rest (\<lambda>out. Return (Inr (\<lparr>ct_device = device_id, ct_envelope = envelope\<rparr> # out))), f))))"

definition FanoutSession_encrypt_to_all ::
  "('spk, 'otk, 'kpk, 'st) ratchet_lib \<Rightarrow> (DeviceId \<Rightarrow> u64 \<times> bytes) \<Rightarrow> bytes \<Rightarrow>
   ('spk, 'otk, 'kpk, 'st) FanoutSession \<Rightarrow>
   (FanoutError + DeviceCiphertext list) run \<times> ('spk, 'otk, 'kpk, 'st) FanoutSession" where
  "FanoutSession_encrypt_to_all R rnd plaintext f =
     encrypt_devices R rnd plaintext (bt_keys (sender_sessions f)) f"

definition FanoutSession_decrypt_as ::
  "session_lib \<Rightarrow> ('spk, 'otk) signal_lib \<Rightarrow> ('spk, 'otk, 'kpk, 'st) ratchet_lib \<Rightarrow> bytes \<Rightarrow> bytes \<Rightarrow> DeviceCiphertext \<Rightarrow>
   ('spk, 'otk, 'kpk, 'st) FanoutSession \<Rightarrow>
   ((FanoutError + bytes) \<times> ('spk, 'otk, 'kpk, 'st) FanoutSession) run" where
  "FanoutSession_decrypt_as L S R rnd device_identity ciphertext f =
     (case map_of (identity_to_device f) (identity_hash S R device_identity) of
        None \<Rightarrow> Return (Inl UnknownIdentity, f)
      | Some device_id \<Rightarrow>
          if ct_device ciphertext \<noteq> device_id
          then Return (Inl (DeviceMismatch (ct_device ciphertext) device_id), f)
          else (case map_of (receiver_sessions f) device_id of
                  None \<Rightarrow> Panic
                | Some session \<Rightarrow>
                    run_bind (DoubleRatchetSession_decrypt L R rnd (ct_envelope ciphertext) session) (\<lambda>(r, session').
                      Return (map_err (FanDecrypt device_id) r,
                        f\<lparr>receiver_sessions := bt_insert device_id session' (receiver_sessions f)\<rparr>))))"

definition FanoutSession_remove_device ::
  "DeviceId \<Rightarrow> ('spk, 'otk, 'kpk, 'st) FanoutSession \<Rightarrow>
   (FanoutError + unit) \<times> ('spk, 'otk, 'kpk, 'st) FanoutSession" where
  "FanoutSession_remove_device device_id f =
     (Inr (), f\<lparr>sender_sessions := bt_remove device_id (sender_sessions f),
                receiver_sessions := bt_remove device_id (receiver_sessions f),
                identity_to_device := filter (\<lambda>p. snd p \<noteq> device_id) (identity_to_device f)\<rparr>)"

section \<open>Invariants\<close>

text \<open>
  The three tables describe the same devices, and every device is reached by some identity.
\<close>

definition fan_wf :: "('spk, 'otk, 'kpk, 'st) FanoutSession \<Rightarrow> bool" where
  "fan_wf f \<longleftrightarrow> bt_wf (sender_sessions f) \<and> bt_wf (receiver_sessions f) \<and> hm_wf (identity_to_device f) \<and>
     dom (map_of (receiver_sessions f)) = dom (map_of (sender_sessions f)) \<and>
     ran (map_of (identity_to_device f)) = dom (map_of (sender_sessions f))"

text \<open>On every device the sender and the receiver session are in step.\<close>

definition fan_linked ::
  "('spk, 'otk, 'kpk, 'st) ratchet_lib \<Rightarrow>
   (ProtocolAddress \<Rightarrow> ProtocolAddress \<Rightarrow> bytes \<Rightarrow> 'st \<Rightarrow> 'st \<Rightarrow> bool) \<Rightarrow>
   ('spk, 'otk, 'kpk, 'st) FanoutSession \<Rightarrow> bool" where
  "fan_linked R synced f \<longleftrightarrow>
     (\<forall>d a b. map_of (sender_sessions f) d = Some a \<longrightarrow> map_of (receiver_sessions f) d = Some b \<longrightarrow>
        session_linked R synced a b)"

text \<open>What one ciphertext does to the receiver of its device.\<close>

definition delivers ::
  "session_lib \<Rightarrow> ('spk, 'otk, 'kpk, 'st) ratchet_lib \<Rightarrow> bytes \<Rightarrow> bytes \<Rightarrow>
   ('spk, 'otk, 'kpk, 'st) DoubleRatchetSession \<Rightarrow> bool" where
  "delivers L R m e b \<longleftrightarrow> (\<forall>q. \<exists>b'. DoubleRatchetSession_decrypt L R q e b = Return (Inr m, b'))"

lemma encrypt_delivers:
  assumes "ratchet_ok L S A R synced" "session_linked R synced a b"
  obtains e a' where "DoubleRatchetSession_encrypt R now rnd m a = (Inr e, a')" "delivers L R m e b"
proof -
  obtain e a' where e: "DoubleRatchetSession_encrypt R now rnd m a = (Inr e, a')"
    using session_channel.transfer [OF assms, of "(now, rnd)" m "[]"] by auto
  have "delivers L R m e b"
    unfolding delivers_def using session_channel.transfer [OF assms, of "(now, rnd)" m] e by fastforce
  with e show thesis by (rule that)
qed

lemma encrypt_devices_ok:
  assumes ok: "ratchet_ok L S A R synced"
  shows "distinct ds \<Longrightarrow> set ds \<subseteq> dom (map_of (sender_sessions f)) \<Longrightarrow> fan_wf f \<Longrightarrow>
    \<forall>d \<in> set ds. \<forall>a b. map_of (sender_sessions f) d = Some a \<longrightarrow> map_of (receiver_sessions f) d = Some b \<longrightarrow>
      session_linked R synced a b \<Longrightarrow>
    \<exists>out f'. encrypt_devices R rnd m ds f = (Return (Inr out), f') \<and> map ct_device out = ds \<and> fan_wf f' \<and>
      receiver_sessions f' = receiver_sessions f \<and> identity_to_device f' = identity_to_device f \<and>
      dom (map_of (sender_sessions f')) = dom (map_of (sender_sessions f)) \<and>
      (\<forall>c \<in> set out. \<forall>b. map_of (receiver_sessions f) (ct_device c) = Some b \<longrightarrow> delivers L R m (ct_envelope c) b)"
proof (induction ds arbitrary: f)
  case (Cons d ds)
  obtain a where a: "map_of (sender_sessions f) d = Some a" using Cons.prems(2) by auto
  then obtain b where b: "map_of (receiver_sessions f) d = Some b"
    using Cons.prems(3) unfolding fan_wf_def by (metis domD domI)
  have "session_linked R synced a b" using Cons.prems(4) a b by simp
  then obtain e a' where e: "DoubleRatchetSession_encrypt R (fst (rnd d)) (snd (rnd d)) m a = (Inr e, a')"
    "delivers L R m e b"
    by (rule encrypt_delivers [OF ok])
  define f1 where "f1 = f\<lparr>sender_sessions := bt_insert d a' (sender_sessions f)\<rparr>"
  have wf: "bt_wf (sender_sessions f)" using Cons.prems(3) by (simp add: fan_wf_def)
  have m1: "map_of (sender_sessions f1) = (map_of (sender_sessions f))(d \<mapsto> a')"
    using bt.get_insert [OF wf] by (simp add: f1_def)
  have d1: "dom (map_of (sender_sessions f1)) = dom (map_of (sender_sessions f))" using a by (auto simp: m1)
  have wf1: "fan_wf f1"
    using Cons.prems(3) bt.invar_insert [OF wf] d1 unfolding fan_wf_def by (simp add: f1_def)
  have rec: "receiver_sessions f1 = receiver_sessions f" "identity_to_device f1 = identity_to_device f"
    by (simp_all add: f1_def)
  have ds: "distinct ds" "set ds \<subseteq> dom (map_of (sender_sessions f1))"
    "\<forall>d \<in> set ds. \<forall>a b. map_of (sender_sessions f1) d = Some a \<longrightarrow> map_of (receiver_sessions f1) d = Some b \<longrightarrow>
      session_linked R synced a b"
    using Cons.prems(1,2,4) d1 by (auto simp: m1 rec)
  obtain out f' where ih: "encrypt_devices R rnd m ds f1 = (Return (Inr out), f')" "map ct_device out = ds" "fan_wf f'"
    "receiver_sessions f' = receiver_sessions f1" "identity_to_device f' = identity_to_device f1"
    "dom (map_of (sender_sessions f')) = dom (map_of (sender_sessions f1))"
    "\<forall>c \<in> set out. \<forall>b. map_of (receiver_sessions f1) (ct_device c) = Some b \<longrightarrow> delivers L R m (ct_envelope c) b"
    using Cons.IH [OF ds(1,2) wf1 ds(3)] by blast
  have "encrypt_devices R rnd m (d # ds) f = (Return (Inr (\<lparr>ct_device = d, ct_envelope = e\<rparr> # out)), f')"
    using a e(1) ih(1) by (simp add: f1_def)
  then show ?case using ih e(2) b d1 by (auto simp: rec)
qed simp

lemma wf_keys: "fan_wf f \<Longrightarrow> distinct (bt_keys (sender_sessions f)) \<and> set (bt_keys (sender_sessions f)) = dom (map_of (sender_sessions f))"
  by (simp add: fan_wf_def bt.distinct_keys bt.set_keys)

lemma encrypt_to_all_ok:
  assumes "ratchet_ok L S A R synced" "fan_wf f" "fan_linked R synced f"
  shows "\<exists>out f'. FanoutSession_encrypt_to_all R rnd m f = (Return (Inr out), f') \<and>
    map ct_device out = bt_keys (sender_sessions f) \<and> fan_wf f' \<and>
    receiver_sessions f' = receiver_sessions f \<and> identity_to_device f' = identity_to_device f \<and>
    (\<forall>c \<in> set out. \<forall>b. map_of (receiver_sessions f) (ct_device c) = Some b \<longrightarrow> delivers L R m (ct_envelope c) b)"
proof -
  have k: "distinct (bt_keys (sender_sessions f))"
    "set (bt_keys (sender_sessions f)) \<subseteq> dom (map_of (sender_sessions f))"
    using wf_keys [OF assms(2)] by auto
  have "\<forall>d \<in> set (bt_keys (sender_sessions f)). \<forall>a b. map_of (sender_sessions f) d = Some a \<longrightarrow>
      map_of (receiver_sessions f) d = Some b \<longrightarrow> session_linked R synced a b"
    using assms(3) by (auto simp: fan_linked_def)
  from encrypt_devices_ok [OF assms(1) k assms(2) this] show ?thesis
    unfolding FanoutSession_encrypt_to_all_def by blast
qed

lemma decrypt_as_ok:
  assumes "map_of (identity_to_device f) (identity_hash S R i) = Some (ct_device c)"
    and "map_of (receiver_sessions f) (ct_device c) = Some b" "delivers L R m (ct_envelope c) b"
  shows "\<exists>f'. FanoutSession_decrypt_as L S R q i c f = Return (Inr m, f')"
proof -
  obtain b' where "DoubleRatchetSession_decrypt L R q (ct_envelope c) b = Return (Inr m, b')"
    using assms(3) unfolding delivers_def by blast
  then show ?thesis using assms(1,2) by (simp add: FanoutSession_decrypt_as_def map_err_def)
qed

section \<open>Establishment\<close>

text \<open>The device list is unambiguous and disjoint from what is already linked.\<close>

definition fresh_devices ::
  "('spk, 'otk) signal_lib \<Rightarrow> ('spk, 'otk, 'kpk, 'st) ratchet_lib \<Rightarrow>
   (DeviceId \<times> bytes \<times> device_rand) list \<Rightarrow> ('spk, 'otk, 'kpk, 'st) FanoutSession \<Rightarrow> bool" where
  "fresh_devices S R ds f \<longleftrightarrow>
     distinct (map fst ds) \<and> distinct (map (\<lambda>x. identity_hash S R (fst (snd x))) ds) \<and>
     fst ` set ds \<inter> dom (map_of (sender_sessions f)) = {} \<and>
     (\<lambda>x. identity_hash S R (fst (snd x))) ` set ds \<inter> dom (map_of (identity_to_device f)) = {}"

definition link_device ::
  "bytes \<Rightarrow> DeviceId \<Rightarrow> ('spk, 'otk, 'kpk, 'st) DoubleRatchetSession \<Rightarrow> ('spk, 'otk, 'kpk, 'st) DoubleRatchetSession \<Rightarrow>
   ('spk, 'otk, 'kpk, 'st) FanoutSession \<Rightarrow> ('spk, 'otk, 'kpk, 'st) FanoutSession" where
  "link_device ih d a b f =
     f\<lparr>identity_to_device := hm_insert ih d (identity_to_device f),
       sender_sessions := bt_insert d a (sender_sessions f),
       receiver_sessions := bt_insert d b (receiver_sessions f)\<rparr>"

lemma link_device_maps:
  assumes "fan_wf f"
  shows "map_of (identity_to_device (link_device ih d a b f)) = (map_of (identity_to_device f))(ih \<mapsto> d)"
    "map_of (sender_sessions (link_device ih d a b f)) = (map_of (sender_sessions f))(d \<mapsto> a)"
    "map_of (receiver_sessions (link_device ih d a b f)) = (map_of (receiver_sessions f))(d \<mapsto> b)"
  using assms by (simp_all add: link_device_def fan_wf_def hm.get_insert bt.get_insert)

lemma link_device_wf:
  assumes "fan_wf f" "map_of (identity_to_device f) ih = None"
  shows "fan_wf (link_device ih d a b f)"
proof -
  have "bt_wf (sender_sessions (link_device ih d a b f))" "bt_wf (receiver_sessions (link_device ih d a b f))"
    "hm_wf (identity_to_device (link_device ih d a b f))"
    using assms(1) by (simp_all add: link_device_def fan_wf_def hm.invar_insert bt.invar_insert)
  then show ?thesis
    using assms unfolding fan_wf_def [of "link_device ih d a b f"] link_device_maps [OF assms(1)]
    by (auto simp: fan_wf_def)
qed

lemma link_device_linked:
  assumes "fan_wf f" "fan_linked R synced f" "session_linked R synced a b"
  shows "fan_linked R synced (link_device ih d a b f)"
  using assms(2,3) unfolding fan_linked_def link_device_maps [OF assms(1)] by auto

lemma establish_step:
  assumes "ratchet_ok L S A R synced" "map_of (sender_sessions f) d = None"
  obtains a b where "session_linked R synced a b"
    "establish_devices L S A R sender ((d, i, w) # ds) f =
      (case map_of (identity_to_device f) (identity_hash S R i) of
         Some existing \<Rightarrow> Return (Inl (DuplicateIdentity existing))
       | None \<Rightarrow> establish_devices L S A R sender ds (link_device (identity_hash S R i) d a b f))"
proof -
  obtain b u a where "DoubleRatchetSession_new_bob L S R (dr_bob w) i = Return (Inr b)"
    "DoubleRatchetSession_publish_bundle L S A b = Return (Inr u)"
    "DoubleRatchetSession_new_alice L S R (dr_now w) (dr_rnd w) sender u = Return (Inr a)"
    and ln: "session_linked R synced a b"
    using establish_linked [OF assms(1), of "dr_bob w" i "dr_now w" "dr_rnd w" sender] by blast
  then have "establish_devices L S A R sender ((d, i, w) # ds) f =
      (case map_of (identity_to_device f) (identity_hash S R i) of
         Some existing \<Rightarrow> Return (Inl (DuplicateIdentity existing))
       | None \<Rightarrow> establish_devices L S A R sender ds (link_device (identity_hash S R i) d a b f))"
    using assms(2) by (simp add: link_device_def lift_def map_err_def Let_def split: option.splits)
  with ln show thesis by (rule that)
qed

lemma fresh_devices_Cons:
  assumes "fan_wf f"
  shows "fresh_devices S R ((d, i, w) # ds) f \<longleftrightarrow>
    map_of (sender_sessions f) d = None \<and> map_of (identity_to_device f) (identity_hash S R i) = None \<and>
    fresh_devices S R ds (link_device (identity_hash S R i) d a b f)"
  unfolding fresh_devices_def link_device_maps [OF assms] by auto

lemma establish_devices_ok:
  assumes ok: "ratchet_ok L S A R synced"
  shows "fan_wf f \<Longrightarrow> fan_linked R synced f \<Longrightarrow> fresh_devices S R ds f \<Longrightarrow>
    \<exists>f'. establish_devices L S A R sender ds f = Return (Inr f') \<and> fan_wf f' \<and> fan_linked R synced f' \<and>
      dom (map_of (sender_sessions f')) = dom (map_of (sender_sessions f)) \<union> fst ` set ds \<and>
      map_of (identity_to_device f') =
        map_of (identity_to_device f) ++ map_of (map (\<lambda>x. (identity_hash S R (fst (snd x)), fst x)) ds)"
proof (induction ds arbitrary: f)
  case (Cons x ds)
  obtain d i w where x: "x = (d, i, w)" by (cases x) auto
  have none: "map_of (sender_sessions f) d = None" "map_of (identity_to_device f) (identity_hash S R i) = None"
    using Cons.prems(3) fresh_devices_Cons [OF Cons.prems(1)] unfolding x by blast+
  obtain a b where ab: "session_linked R synced a b"
    "establish_devices L S A R sender ((d, i, w) # ds) f =
      (case map_of (identity_to_device f) (identity_hash S R i) of
         Some existing \<Rightarrow> Return (Inl (DuplicateIdentity existing))
       | None \<Rightarrow> establish_devices L S A R sender ds (link_device (identity_hash S R i) d a b f))"
    by (rule establish_step [OF ok none(1)])
  let ?f = "link_device (identity_hash S R i) d a b f"
  have fr: "fresh_devices S R ds ?f"
    using Cons.prems(3) fresh_devices_Cons [OF Cons.prems(1)] unfolding x by blast
  then have nin: "map_of (map (\<lambda>x. (identity_hash S R (fst (snd x)), fst x)) ds) (identity_hash S R i) = None"
    unfolding fresh_devices_def link_device_maps [OF Cons.prems(1)] by (force simp: map_of_eq_None_iff)
  obtain f' where f': "establish_devices L S A R sender ds ?f = Return (Inr f')" "fan_wf f'" "fan_linked R synced f'"
    "dom (map_of (sender_sessions f')) = dom (map_of (sender_sessions ?f)) \<union> fst ` set ds"
    "map_of (identity_to_device f') =
        map_of (identity_to_device ?f) ++ map_of (map (\<lambda>x. (identity_hash S R (fst (snd x)), fst x)) ds)"
    using Cons.IH [OF link_device_wf [OF Cons.prems(1) none(2)] link_device_linked [OF Cons.prems(1,2) ab(1)] fr] by blast
  have est: "establish_devices L S A R sender (x # ds) f = Return (Inr f')"
    unfolding x ab(2) using none(2) f'(1) by simp
  have "dom (map_of (sender_sessions f')) = dom (map_of (sender_sessions f)) \<union> fst ` set (x # ds)"
    unfolding f'(4) link_device_maps [OF Cons.prems(1)] by (auto simp: x)
  moreover have "map_of (identity_to_device f') =
      map_of (identity_to_device f) ++ map_of (map (\<lambda>x. (identity_hash S R (fst (snd x)), fst x)) (x # ds))"
    unfolding f'(5) link_device_maps [OF Cons.prems(1)]
    using nin by (intro ext) (auto simp: x map_add_def split: option.splits)
  ultimately show ?case using est f'(2,3) by blast
qed auto

lemma establish_devices_refused:
  assumes ok: "ratchet_ok L S A R synced"
  shows "fan_wf f \<Longrightarrow> \<not> fresh_devices S R ds f \<Longrightarrow> \<exists>d. establish_devices L S A R sender ds f = Return (Inl (DuplicateDevice d)) \<or>
    establish_devices L S A R sender ds f = Return (Inl (DuplicateIdentity d))"
proof (induction ds arbitrary: f)
  case (Cons x ds)
  obtain d i w where x: "x = (d, i, w)" by (cases x) auto
  show ?case
  proof (cases "map_of (sender_sessions f) d")
    case None
    obtain a b where ab:
      "establish_devices L S A R sender ((d, i, w) # ds) f =
      (case map_of (identity_to_device f) (identity_hash S R i) of
         Some existing \<Rightarrow> Return (Inl (DuplicateIdentity existing))
       | None \<Rightarrow> establish_devices L S A R sender ds (link_device (identity_hash S R i) d a b f))"
      by (rule establish_step [OF ok None])
    show ?thesis
    proof (cases "map_of (identity_to_device f) (identity_hash S R i)")
      case free: None
      have "\<not> fresh_devices S R ds (link_device (identity_hash S R i) d a b f)"
        using Cons.prems(2) None free fresh_devices_Cons [OF Cons.prems(1)] unfolding x by blast
      from Cons.IH [OF link_device_wf [OF Cons.prems(1) free] this] ab free show ?thesis by (simp add: x)
    qed (use ab in \<open>simp add: x\<close>)
  qed (simp add: x)
qed (simp add: fresh_devices_def)

section \<open>Removal\<close>

lemma ran_filter_values:
  assumes "distinct (map fst m)"
  shows "map_of (filter (\<lambda>p. snd p \<noteq> d) m) = (\<lambda>h. if map_of m h = Some d then None else map_of m h)"
  using assms by (induction m) (auto simp: fun_eq_iff map_of_eq_None_iff)

lemma bt_keys_remove: "bt_keys (bt_remove d m) = filter (\<lambda>k. k \<noteq> d) (bt_keys m)"
  by (simp add: bt_keys_def bt_remove_def filter_map comp_def)

lemma remove_device_maps:
  assumes "fan_wf f"
  shows "map_of (sender_sessions (snd (FanoutSession_remove_device d f))) = (map_of (sender_sessions f))(d := None)"
    "map_of (receiver_sessions (snd (FanoutSession_remove_device d f))) = (map_of (receiver_sessions f))(d := None)"
    "map_of (identity_to_device (snd (FanoutSession_remove_device d f))) h =
       (if map_of (identity_to_device f) h = Some d then None else map_of (identity_to_device f) h)"
    "bt_keys (sender_sessions (snd (FanoutSession_remove_device d f))) = filter (\<lambda>k. k \<noteq> d) (bt_keys (sender_sessions f))"
  using assms
  by (simp_all add: FanoutSession_remove_device_def fan_wf_def bt.get_remove hm_wf_def ran_filter_values
      bt_keys_remove)

lemma remove_device_wf:
  assumes "fan_wf f"
  shows "fan_wf (snd (FanoutSession_remove_device d f))"
proof -
  let ?f = "snd (FanoutSession_remove_device d f)"
  have "bt_wf (sender_sessions ?f)" "bt_wf (receiver_sessions ?f)" "hm_wf (identity_to_device ?f)"
    using assms by (simp_all add: FanoutSession_remove_device_def fan_wf_def bt.invar_remove hm_wf_def distinct_map_filter)
  moreover have "ran (map_of (identity_to_device ?f)) = ran (map_of (identity_to_device f)) - {d}"
    unfolding ran_def remove_device_maps(3) [OF assms] by force
  ultimately show ?thesis
    using assms unfolding fan_wf_def [of ?f] remove_device_maps(1,2) [OF assms] by (simp add: fan_wf_def)
qed

lemma remove_device_linked:
  "fan_wf f \<Longrightarrow> fan_linked R synced f \<Longrightarrow> fan_linked R synced (snd (FanoutSession_remove_device d f))"
  by (simp add: fan_linked_def remove_device_maps)

definition remove_all :: "DeviceId list \<Rightarrow> ('spk, 'otk, 'kpk, 'st) FanoutSession \<Rightarrow> ('spk, 'otk, 'kpk, 'st) FanoutSession" where
  "remove_all ds f = fold (\<lambda>d f. snd (FanoutSession_remove_device d f)) ds f"

lemma remove_all_ok:
  "fan_wf f \<Longrightarrow> fan_linked R synced f \<Longrightarrow> fan_wf (remove_all ds f) \<and> fan_linked R synced (remove_all ds f) \<and>
    bt_keys (sender_sessions (remove_all ds f)) = filter (\<lambda>k. k \<notin> set ds) (bt_keys (sender_sessions f)) \<and>
    (\<forall>h. map_of (identity_to_device (remove_all ds f)) h =
       (case map_of (identity_to_device f) h of None \<Rightarrow> None | Some d \<Rightarrow> if d \<in> set ds then None else Some d))"
proof (induction ds arbitrary: f)
  case (Cons d ds)
  note ih = Cons.IH [OF remove_device_wf [OF Cons.prems(1), of d] remove_device_linked [OF Cons.prems, of d]]
  have r: "remove_all (d # ds) f = remove_all ds (snd (FanoutSession_remove_device d f))" by (simp add: remove_all_def)
  have "filter (\<lambda>k. k \<notin> set ds) (filter (\<lambda>k. k \<noteq> d) ks) = filter (\<lambda>k. k \<notin> set (d # ds)) ks" for ks
    by (induction ks) auto
  then show ?case
    using ih unfolding r remove_device_maps(3,4) [OF Cons.prems(1)] by (auto split: option.splits)
qed (auto simp: remove_all_def split: option.splits)

lemma keys_sorted: "fan_wf f \<Longrightarrow> bt_keys (sender_sessions f) = sorted_list_of_set (dom (map_of (sender_sessions f)))"
proof -
  assume wf: "fan_wf f"
  then have "sorted (bt_keys (sender_sessions f))" "distinct (bt_keys (sender_sessions f))"
    by (simp_all add: fan_wf_def bt_wf_def bt_keys_def strict_sorted_iff)
  then show ?thesis using wf_keys [OF wf] by (metis sorted_list_of_set.idem_if_sorted_distinct)
qed

section \<open>Properties\<close>

definition demo_device_rand :: device_rand where
  "demo_device_rand = \<lparr>dr_bob = \<lparr>br_now = 0, br_signed_secret = [1], br_signed_rnd = [], br_kyber_secret = [2],
     br_kyber_rnd = [], br_one_time_secrets = (\<lambda>_. [3])\<rparr>, dr_now = 0, dr_rnd = []\<rparr>"

lemma fan_empty: "fan_wf \<lparr>sender_sessions = [], identity_to_device = [], receiver_sessions = []\<rparr>"
  "fan_linked R synced \<lparr>sender_sessions = [], identity_to_device = [], receiver_sessions = []\<rparr>"
  by (simp_all add: fan_wf_def fan_linked_def bt_wf_def hm_wf_def)

text \<open>
  C12: For a device list without repeated ids or identities the fan-out is established, and after any
  devices are removed one call of \<open>encrypt_to_all\<close> yields exactly one ciphertext for every device
  still linked, in ascending order of id; each such device decrypts its ciphertext to the
  plaintext, and a removed device's identity is unknown, whatever ciphertext it presents.
\<close>

theorem fanout_reaches_exactly_the_linked_devices:
  assumes "ratchet_ok L S A R synced" "devices \<noteq> []" "distinct (map fst devices)"
    and "distinct (map (\<lambda>x. identity_hash S R (fst (snd x))) devices)"
  shows "\<exists>f out f'. FanoutSession_establish L S A R sender devices = Return (Inr f) \<and>
    FanoutSession_encrypt_to_all R rnd m (remove_all gone f) = (Return (Inr out), f') \<and>
    map ct_device out = sorted_list_of_set (fst ` set devices - set gone) \<and>
    (\<forall>(d, i, w) \<in> set devices.
       if d \<in> set gone then \<forall>c q. FanoutSession_decrypt_as L S R q i c f' = Return (Inl UnknownIdentity, f')
       else \<exists>c \<in> set out. ct_device c = d \<and> (\<forall>q. \<exists>f''. FanoutSession_decrypt_as L S R q i c f' = Return (Inr m, f'')))"
proof -
  let ?f0 = "\<lparr>sender_sessions = [], identity_to_device = [], receiver_sessions = []\<rparr>"
  let ?ids = "map_of (map (\<lambda>x. (identity_hash S R (fst (snd x)), fst x)) devices)"
  have "fresh_devices S R devices ?f0" using assms(3,4) by (simp add: fresh_devices_def)
  then obtain f where f: "establish_devices L S A R sender devices ?f0 = Return (Inr f)" "fan_wf f" "fan_linked R synced f"
    "dom (map_of (sender_sessions f)) = fst ` set devices"
    "map_of (identity_to_device f) = ?ids"
    using establish_devices_ok [OF assms(1) fan_empty, of devices sender, simplified] by blast
  have est: "FanoutSession_establish L S A R sender devices = Return (Inr f)"
    using f(1) assms(2) by (simp add: FanoutSession_establish_def)
  let ?g = "remove_all gone f"
  note g = remove_all_ok [OF f(2,3), of gone]
  obtain out f' where out: "FanoutSession_encrypt_to_all R rnd m ?g = (Return (Inr out), f')"
    "map ct_device out = bt_keys (sender_sessions ?g)" "fan_wf f'"
    "receiver_sessions f' = receiver_sessions ?g" "identity_to_device f' = identity_to_device ?g"
    "\<forall>c \<in> set out. \<forall>b. map_of (receiver_sessions ?g) (ct_device c) = Some b \<longrightarrow> delivers L R m (ct_envelope c) b"
    using encrypt_to_all_ok [OF assms(1), of ?g rnd m] g by blast
  have doms: "dom (map_of (sender_sessions ?g)) = fst ` set devices - set gone"
    using wf_keys [of ?g] wf_keys [OF f(2)] g f(4) by auto
  have keys: "map ct_device out = sorted_list_of_set (fst ` set devices - set gone)"
    using out(2) keys_sorted [of ?g] g doms by simp
  have each: "if d \<in> set gone then \<forall>c q. FanoutSession_decrypt_as L S R q i c f' = Return (Inl UnknownIdentity, f')
       else \<exists>c \<in> set out. ct_device c = d \<and> (\<forall>q. \<exists>f''. FanoutSession_decrypt_as L S R q i c f' = Return (Inr m, f''))"
    if x: "(d, i, w) \<in> set devices" for d i w
  proof -
    have "?ids (identity_hash S R i) = Some d"
      using assms(4) x by (intro map_of_is_SomeI) (force simp: comp_def)+
    then have known: "map_of (identity_to_device f') (identity_hash S R i) = (if d \<in> set gone then None else Some d)"
      using out(5) g f(5) by simp
    show ?thesis
    proof (cases "d \<in> set gone")
      case False
      then have d: "d \<in> dom (map_of (sender_sessions ?g))" using x doms by force
      then have "d \<in> set (map ct_device out)" using out(2) wf_keys [of ?g] g by simp
      then obtain c where c: "c \<in> set out" "ct_device c = d" by auto
      obtain b where b: "map_of (receiver_sessions ?g) d = Some b" using d g unfolding fan_wf_def by (metis domD)
      then have "delivers L R m (ct_envelope c) b" using out(6) c by blast
      then show ?thesis
        using False c known b out(4) decrypt_as_ok [of f' S R i c b L m] by auto
    qed (simp add: FanoutSession_decrypt_as_def known)
  qed
  show ?thesis using est out(1) keys each by blast
qed

theorem fanout_reaches_exactly_the_linked_devices_witness:
  "\<exists>f out f'. FanoutSession_establish demo_session demo_keys demo_records demo_ratchet [9]
      [(2, [1], demo_device_rand), (1, [2], demo_device_rand), (3, [3], demo_device_rand)] = Return (Inr f) \<and>
    FanoutSession_encrypt_to_all demo_ratchet (\<lambda>_. (0, [])) [42] (remove_all [3] f) = (Return (Inr out), f') \<and>
    map ct_device out = [1, 2]"
proof -
  have h: "hd (identity_hash demo_keys demo_ratchet (x # xs)) = x" for x xs
    by (simp add: identity_hash_def hash_of_identity_key_def demo_ratchet_def demo_keys_def public_identity_def numeral_eq_Suc)
  have ne: "identity_hash demo_keys demo_ratchet [x] \<noteq> identity_hash demo_keys demo_ratchet [y]" if "x \<noteq> y" for x y
    using h [of x "[]"] h [of y "[]"] that by metis
  have "sorted_list_of_set (fst ` set [(2 :: u32, [1 :: u8], demo_device_rand), (1, [2], demo_device_rand), (3, [3], demo_device_rand)] - set [3]) = [1, 2]"
    by (simp add: insert_Diff_if word_le_nat_alt)
  with fanout_reaches_exactly_the_linked_devices [OF demo_ratchet_ok, of
      "[(2, [1], demo_device_rand), (1, [2], demo_device_rand), (3, [3], demo_device_rand)]" "[9]" "\<lambda>_. (0, [])" "[42]" "[3]"] ne
  show ?thesis by fastforce
qed

text \<open>
  Establishment never panics and is decided by the device list alone: it succeeds exactly for a
  non-empty list in which no device id and no identity occurs twice, and otherwise answers
  \<open>NoDevices\<close>, \<open>DuplicateDevice\<close> or \<open>DuplicateIdentity\<close> with no session exposed.
\<close>

theorem fanout_establish_is_decided_by_the_list:
  assumes "ratchet_ok L S A R synced"
  shows "if devices = [] then FanoutSession_establish L S A R sender devices = Return (Inl NoDevices)
    else if distinct (map fst devices) \<and> distinct (map (\<lambda>x. identity_hash S R (fst (snd x))) devices)
    then \<exists>f. FanoutSession_establish L S A R sender devices = Return (Inr f)
    else \<exists>d. FanoutSession_establish L S A R sender devices = Return (Inl (DuplicateDevice d)) \<or>
      FanoutSession_establish L S A R sender devices = Return (Inl (DuplicateIdentity d))"
proof (cases "fresh_devices S R devices \<lparr>sender_sessions = [], identity_to_device = [], receiver_sessions = []\<rparr>")
  case True
  then show ?thesis
    using establish_devices_ok [OF assms fan_empty, of devices sender]
    by (auto simp: FanoutSession_establish_def fresh_devices_def)
next
  case False
  then have ne: "devices \<noteq> []" "\<not> (distinct (map fst devices) \<and> distinct (map (\<lambda>x. identity_hash S R (fst (snd x))) devices))"
    by (auto simp: fresh_devices_def)
  then show ?thesis
    using establish_devices_refused [OF assms fan_empty(1) False, of sender]
    unfolding FanoutSession_establish_def by auto
qed

theorem fanout_establish_is_decided_by_the_list_witness:
  "\<exists>d. FanoutSession_establish demo_session demo_keys demo_records demo_ratchet [9]
       [(2, [1], demo_device_rand), (2, [2], demo_device_rand)] = Return (Inl (DuplicateDevice d)) \<or>
     FanoutSession_establish demo_session demo_keys demo_records demo_ratchet [9]
       [(2, [1], demo_device_rand), (2, [2], demo_device_rand)] = Return (Inl (DuplicateIdentity d))"
  using fanout_establish_is_decided_by_the_list [OF demo_ratchet_ok, where sender = "[9]" and
      devices = "[(2, [1], demo_device_rand), (2, [2], demo_device_rand)]"]
  by simp

end
