(* ===== verification/Storage.thy ===== *)
theory Storage
  imports Framing
begin

text \<open>
  The encrypted store of \<open>core/storage/src/lib.rs\<close>: key literals, opening with key validation and
  schema creation, and the typed accessors with their length-prefixed envelope. SQLite with
  SQLCipher is the parameter record \<open>sqlite\<close>, statements are the source's SQL text. What those statements do
  to a database file is the law \<open>sqlcipher_ok\<close>.
\<close>

section \<open>The database library\<close>

text \<open>
  A connection handle \<open>'c\<close> carries the state of the database; \<open>query_blob\<close> reads a nullable column;
  \<open>is_no_rows\<close> recognizes \<open>QueryReturnedNoRows\<close>.
\<close>

record ('c, 'e) sqlite =
  conn_open :: "string \<Rightarrow> 'e + 'c"
  execute_batch :: "string \<Rightarrow> 'c \<Rightarrow> ('e + unit) \<times> 'c"
  execute_int :: "string \<Rightarrow> int \<Rightarrow> 'c \<Rightarrow> ('e + unit) \<times> 'c"
  execute_row :: "string \<Rightarrow> string \<Rightarrow> bytes \<Rightarrow> 'c \<Rightarrow> ('e + unit) \<times> 'c"
  query_int :: "string \<Rightarrow> 'c \<Rightarrow> 'e + int"
  query_blob :: "string \<Rightarrow> string \<Rightarrow> 'c \<Rightarrow> 'e + bytes option"
  is_no_rows :: "'e \<Rightarrow> bool"
  sql_display :: "'e \<Rightarrow> string"

section \<open>Keys and errors\<close>

type_synonym StoreKey = bytes

definition StoreKey_new :: "bytes \<Rightarrow> StoreKey" where
  "StoreKey_new bs = bs"

definition as_sqlcipher_literal :: "StoreKey \<Rightarrow> string" where
  "as_sqlcipher_literal k = ''x'' @ [CHR 0x27] @ hex_encode k @ [CHR 0x27]"

definition StoreKey_debug :: "StoreKey \<Rightarrow> string" where
  "StoreKey_debug k = ''StoreKey(REDACTED)''"

datatype 'e StorageError = InvalidKey | Database 'e | Corrupted string

definition StorageError_display :: "('c, 'e) sqlite \<Rightarrow> 'e StorageError \<Rightarrow> string" where
  "StorageError_display Q e =
     (case e of
        InvalidKey \<Rightarrow> ''store key is invalid or the store is corrupted''
      | Database err \<Rightarrow> ''store database error: '' @ sql_display Q err
      | Corrupted reason \<Rightarrow> ''stored state is corrupted: '' @ reason)"

definition SCHEMA_VERSION :: int where "SCHEMA_VERSION = 1"

definition IDENTITY_KEY :: string where "IDENTITY_KEY = ''identity''"

section \<open>Opening\<close>

text \<open>The source's statements; line breaks inside them are insignificant and written as spaces.\<close>

definition PROBE :: string where "PROBE = ''SELECT count(*) FROM sqlite_master''"

definition CREATE_META :: string where
  "CREATE_META = ''CREATE TABLE IF NOT EXISTS schema_meta ( id INTEGER PRIMARY KEY CHECK (id = 0), version INTEGER NOT NULL );''"

definition INSERT_META :: string where
  "INSERT_META = ''INSERT INTO schema_meta (id, version) VALUES (0, ?1) ON CONFLICT(id) DO NOTHING''"

definition CREATE_STATE :: string where
  "CREATE_STATE = ''CREATE TABLE IF NOT EXISTS state ( key TEXT PRIMARY KEY, value BLOB NOT NULL );''"

definition INSERT_STATE :: string where
  "INSERT_STATE = ''INSERT OR REPLACE INTO state (key, value) VALUES (?1, ?2)''"

definition SELECT_STATE :: string where
  "SELECT_STATE = ''SELECT value FROM state WHERE key = ?1''"

definition pragma_key :: "StoreKey \<Rightarrow> string" where
  "pragma_key key = ''PRAGMA key = '' @ [CHR 0x22] @ as_sqlcipher_literal key @ [CHR 0x22] @ '';''"

definition initialize_schema :: "('c, 'e) sqlite \<Rightarrow> 'c \<Rightarrow> 'e + 'c" where
  "initialize_schema Q conn =
     (case execute_batch Q CREATE_META conn of
        (Inl e, _) \<Rightarrow> Inl e
      | (Inr _, conn) \<Rightarrow>
     (case execute_int Q INSERT_META SCHEMA_VERSION conn of
        (Inl e, _) \<Rightarrow> Inl e
      | (Inr _, conn) \<Rightarrow>
     (case execute_batch Q CREATE_STATE conn of
        (Inl e, _) \<Rightarrow> Inl e
      | (Inr _, conn) \<Rightarrow> Inr conn)))"

definition Store_open :: "('c, 'e) sqlite \<Rightarrow> string \<Rightarrow> StoreKey \<Rightarrow> 'e StorageError + 'c" where
  "Store_open Q path key =
     and_then (map_err Database (conn_open Q path)) (\<lambda>conn.
     case execute_batch Q (pragma_key key) conn of
       (Inl e, _) \<Rightarrow> Inl (Database e)
     | (Inr _, conn) \<Rightarrow>
         and_then (map_err (\<lambda>_. InvalidKey) (query_int Q PROBE conn)) (\<lambda>_.
           map_err Database (initialize_schema Q conn)))"

definition Store_schema_version :: "('c, 'e) sqlite \<Rightarrow> 'c \<Rightarrow> 'e StorageError + int" where
  "Store_schema_version Q conn =
     map_err Database (query_int Q ''SELECT version FROM schema_meta WHERE id = 0'' conn)"

definition EncryptedStore_open ::
  "('c, 'e) sqlite \<Rightarrow> (string \<Rightarrow> string \<Rightarrow> string) \<Rightarrow> string \<Rightarrow> bytes \<Rightarrow> 'e StorageError + 'c" where
  "EncryptedStore_open Q join dir key = Store_open Q (join dir ''store.db'') (StoreKey_new key)"

section \<open>Typed values\<close>

definition parse_envelope :: "bytes \<Rightarrow> ('e StorageError + bytes) run" where
  "parse_envelope envelope =
     (if length envelope < 4 then Return (Inl (Corrupted ''value shorter than length prefix''))
      else run_bind (slice_range envelope 0 4) (\<lambda>prefix.
        let len = be_nat prefix in
        run_bind (slice_range envelope 4 (length envelope)) (\<lambda>body.
        if length body \<noteq> len
        then Return (Inl (Corrupted ''declared length does not match stored body''))
        else Return (Inr body))))"

definition EncryptedStore_put_raw ::
  "('c, 'e) sqlite \<Rightarrow> string \<Rightarrow> bytes \<Rightarrow> 'c \<Rightarrow> ('e StorageError + unit) \<times> 'c" where
  "EncryptedStore_put_raw Q key blob conn = apfst (map_err Database) (execute_row Q INSERT_STATE key blob conn)"

definition EncryptedStore_put_typed ::
  "('c, 'e) sqlite \<Rightarrow> string \<Rightarrow> bytes \<Rightarrow> 'c \<Rightarrow> ('e StorageError + unit) \<times> 'c" where
  "EncryptedStore_put_typed Q key v conn =
     (let envelope = be_bytes 4 (length v) @ v
      in apfst (map_err Database) (execute_row Q INSERT_STATE key envelope conn))"

definition EncryptedStore_get_typed ::
  "('c, 'e) sqlite \<Rightarrow> string \<Rightarrow> 'c \<Rightarrow> ('e StorageError + bytes option) run" where
  "EncryptedStore_get_typed Q key conn =
     (case (case query_blob Q SELECT_STATE key conn of
              Inr row \<Rightarrow> Inr row
            | Inl err \<Rightarrow> if is_no_rows Q err then Inr None else Inl (Database err)) of
        Inl e \<Rightarrow> Return (Inl e)
      | Inr None \<Rightarrow> Return (Inr None)
      | Inr (Some envelope) \<Rightarrow> try_bind (parse_envelope envelope) (\<lambda>body. Return (Inr (Some body))))"

definition EncryptedStore_put_identity ::
  "('c, 'e) sqlite \<Rightarrow> bytes \<Rightarrow> 'c \<Rightarrow> ('e StorageError + unit) \<times> 'c" where
  "EncryptedStore_put_identity Q serialized conn = EncryptedStore_put_typed Q IDENTITY_KEY serialized conn"

definition EncryptedStore_get_identity ::
  "('c, 'e) sqlite \<Rightarrow> 'c \<Rightarrow> ('e StorageError + bytes option) run" where
  "EncryptedStore_get_identity Q conn = EncryptedStore_get_typed Q IDENTITY_KEY conn"

text \<open>
  A caller's sequence of writes, raw or typed, given up at the first error as \<open>?\<close> does.
\<close>

datatype store_write = RawWrite string bytes | TypedWrite string bytes

primrec write_key :: "store_write \<Rightarrow> string" where
  "write_key (RawWrite k _) = k"
| "write_key (TypedWrite k _) = k"

primrec run_write :: "('c, 'e) sqlite \<Rightarrow> store_write \<Rightarrow> 'c \<Rightarrow> ('e StorageError + unit) \<times> 'c" where
  "run_write Q (RawWrite k v) c = EncryptedStore_put_raw Q k v c"
| "run_write Q (TypedWrite k v) c = EncryptedStore_put_typed Q k v c"

primrec run_writes :: "('c, 'e) sqlite \<Rightarrow> store_write list \<Rightarrow> 'c \<Rightarrow> ('e StorageError + unit) \<times> 'c" where
  "run_writes Q [] c = (Inr (), c)"
| "run_writes Q (w # ws) c =
     (case run_write Q w c of (Inl e, c) \<Rightarrow> (Inl e, c) | (Inr _, c) \<Rightarrow> run_writes Q ws c)"

text \<open>
  \<open>INSERT OR REPLACE\<close> on a primary key: the row is replaced, every other row keeps its value.
\<close>

definition table_ok :: "('c, 'e) sqlite \<Rightarrow> bool" where
  "table_ok Q \<longleftrightarrow>
     (\<forall>k v c c'. execute_row Q INSERT_STATE k v c = (Inr (), c') \<longrightarrow>
        query_blob Q SELECT_STATE k c' = Inr (Some v) \<and>
        (\<forall>k'. k' \<noteq> k \<longrightarrow> query_blob Q SELECT_STATE k' c' = query_blob Q SELECT_STATE k' c))"

section \<open>SQLCipher\<close>

text \<open>
  The database file behind a connection: the key literal its pages are encrypted under (none while
  no page has been written), whether its pages are undamaged, the version row of \<open>schema_meta\<close> and the
  rows of \<open>state\<close> (none where the table does not exist).
\<close>

record cipher_file =
  cf_key :: "string option"
  cf_intact :: bool
  cf_version :: "int option option"
  cf_rows :: "(string \<rightharpoonup> bytes) option"

definition key_opens :: "string option \<Rightarrow> cipher_file \<Rightarrow> bool" where
  "key_opens k f \<longleftrightarrow> cf_key f = None \<or> cf_intact f \<and> cf_key f = k"

text \<open>
  What SQLCipher and SQLite document of the statements of the store; \<open>staged\<close> is the key literal
  given to a connection and \<open>file\<close> the file behind it. \<open>PRAGMA key\<close> with a 32-byte literal always succeeds
  and only stages the key; the first read fails exactly if the staged key does not decrypt the
  file. On a readable file \<open>CREATE TABLE IF NOT EXISTS\<close> keeps an existing table, \<open>ON CONFLICT DO NOTHING\<close> keeps an existing row,
  \<open>INSERT OR REPLACE\<close> replaces its row alone, and each of these may also fail, for instance on a full disk,
  which a write then leaves without effect.
\<close>

definition keying_ok :: "('c, 'e) sqlite \<Rightarrow> ('c \<Rightarrow> string option) \<Rightarrow> ('c \<Rightarrow> cipher_file) \<Rightarrow> bool" where
  "keying_ok Q staged file \<longleftrightarrow>
     (\<forall>k c. length k = 32 \<longrightarrow>
        (\<exists>c'. execute_batch Q (pragma_key k) c = (Inr (), c') \<and>
           staged c' = Some (as_sqlcipher_literal k) \<and> file c' = file c)) \<and>
     (\<forall>c. (\<exists>n. query_int Q PROBE c = Inr n) \<longleftrightarrow> key_opens (staged c) (file c))"

definition schema_ok :: "('c, 'e) sqlite \<Rightarrow> ('c \<Rightarrow> string option) \<Rightarrow> ('c \<Rightarrow> cipher_file) \<Rightarrow> bool" where
  "schema_ok Q staged file \<longleftrightarrow>
     (\<forall>c c'. key_opens (staged c) (file c) \<and> execute_batch Q CREATE_META c = (Inr (), c') \<longrightarrow>
        staged c' = staged c \<and>
        file c' = (file c)\<lparr>cf_key := staged c, cf_intact := True,
          cf_version := Some (case cf_version (file c) of None \<Rightarrow> None | Some v \<Rightarrow> v)\<rparr>) \<and>
     (\<forall>n c c' v. key_opens (staged c) (file c) \<and> cf_version (file c) = Some v \<and> execute_int Q INSERT_META n c = (Inr (), c') \<longrightarrow>
        staged c' = staged c \<and>
        file c' = (file c)\<lparr>cf_version := Some (Some (case v of None \<Rightarrow> n | Some w \<Rightarrow> w))\<rparr>) \<and>
     (\<forall>c c'. key_opens (staged c) (file c) \<and> execute_batch Q CREATE_STATE c = (Inr (), c') \<longrightarrow>
        staged c' = staged c \<and>
        file c' = (file c)\<lparr>cf_key := staged c, cf_intact := True,
          cf_rows := Some (case cf_rows (file c) of None \<Rightarrow> Map.empty | Some r \<Rightarrow> r)\<rparr>) \<and>
     (\<forall>c v. key_opens (staged c) (file c) \<and> cf_version (file c) = Some (Some v) \<longrightarrow>
        query_int Q ''SELECT version FROM schema_meta WHERE id = 0'' c = Inr v)"

definition rows_ok :: "('c, 'e) sqlite \<Rightarrow> ('c \<Rightarrow> string option) \<Rightarrow> ('c \<Rightarrow> cipher_file) \<Rightarrow> bool" where
  "rows_ok Q staged file \<longleftrightarrow>
     (\<forall>k v c r c'. execute_row Q INSERT_STATE k v c = (r, c') \<longrightarrow> staged c' = staged c \<and>
        (case r of
           Inl _ \<Rightarrow> file c' = file c
         | Inr _ \<Rightarrow> file c' = (file c)\<lparr>cf_rows := map_option (\<lambda>rows. rows(k \<mapsto> v)) (cf_rows (file c))\<rparr>)) \<and>
     (\<forall>c rows k. key_opens (staged c) (file c) \<and> cf_rows (file c) = Some rows \<longrightarrow>
        (case rows k of
           None \<Rightarrow> \<exists>e. query_blob Q SELECT_STATE k c = Inl e \<and> is_no_rows Q e
         | Some v \<Rightarrow> query_blob Q SELECT_STATE k c = Inr (Some v)))"

definition sqlcipher_ok :: "('c, 'e) sqlite \<Rightarrow> ('c \<Rightarrow> string option) \<Rightarrow> ('c \<Rightarrow> cipher_file) \<Rightarrow> bool" where
  "sqlcipher_ok Q staged file \<longleftrightarrow> keying_ok Q staged file \<and> schema_ok Q staged file \<and> rows_ok Q staged file"

text \<open>The library as a later process finds it, with the connection \<open>c\<close> to the same file.\<close>

definition reopening :: "('c, 'e) sqlite \<Rightarrow> 'c \<Rightarrow> ('c, 'e) sqlite" where
  "reopening Q c = Q\<lparr>conn_open := (\<lambda>_. Inr c)\<rparr>"

text \<open>A file as a successful opening leaves it.\<close>

definition opened_file :: "StoreKey \<Rightarrow> cipher_file \<Rightarrow> cipher_file" where
  "opened_file key f = f\<lparr>cf_key := Some (as_sqlcipher_literal key), cf_intact := True,
     cf_version := Some (Some (case cf_version f of Some (Some v) \<Rightarrow> v | _ \<Rightarrow> SCHEMA_VERSION)),
     cf_rows := Some (case cf_rows f of None \<Rightarrow> Map.empty | Some r \<Rightarrow> r)\<rparr>"

section \<open>Lemmas\<close>

lemma parse_envelope_iff:
  "parse_envelope e = Return (Inr b) \<longleftrightarrow> length b < 2 ^ 32 \<and> e = be_bytes 4 (length b) @ b"
proof (cases "length e < 4")
  case False
  then have t: "length (take 4 e) = 4" by simp
  have n: "be_nat (take 4 e) < 2 ^ 32" using be_nat_bound [of "take 4 e"] t by simp
  have "parse_envelope e = Return (Inr b) \<longleftrightarrow> b = drop 4 e \<and> length b = be_nat (take 4 e)"
    using False by (auto simp: parse_envelope_def slice_range_def)
  also have "\<dots> \<longleftrightarrow> length b < 2 ^ 32 \<and> e = be_bytes 4 (length b) @ b"
  proof
    assume b: "b = drop 4 e \<and> length b = be_nat (take 4 e)"
    then have "be_bytes 4 (length b) = take 4 e" using be_bytes_be_nat [OF t] by metis
    with b show "length b < 2 ^ 32 \<and> e = be_bytes 4 (length b) @ b" using n by (metis append_take_drop_id)
  next
    assume b: "length b < 2 ^ 32 \<and> e = be_bytes 4 (length b) @ b"
    then have "take 4 e = be_bytes 4 (length b)" "drop 4 e = b" by (metis append_eq_conv_conj length_be_bytes)+
    with b show "b = drop 4 e \<and> length b = be_nat (take 4 e)" by simp
  qed
  finally show ?thesis .
qed (auto simp: parse_envelope_def)

lemma parse_envelope_total: "parse_envelope e \<noteq> Panic"
  by (auto simp: parse_envelope_def slice_range_def Let_def)

lemma put_then_query:
  assumes "table_ok Q" "execute_row Q INSERT_STATE k v c = (Inr (), c')"
  shows "query_blob Q SELECT_STATE k' c' = (if k' = k then Inr (Some v) else query_blob Q SELECT_STATE k' c)"
  using assms unfolding table_ok_def by auto

lemma put_raw_row:
  "EncryptedStore_put_raw Q k v c = (Inr (), c1) \<Longrightarrow> execute_row Q INSERT_STATE k v c = (Inr (), c1)"
  by (auto simp: EncryptedStore_put_raw_def map_err_def apfst_def map_prod_def split: prod.splits sum.splits)

lemma put_typed_row:
  "EncryptedStore_put_typed Q k v c = (Inr (), c1) \<Longrightarrow>
   execute_row Q INSERT_STATE k (be_bytes 4 (length v) @ v) c = (Inr (), c1)"
  by (rule put_raw_row) (simp add: EncryptedStore_put_raw_def EncryptedStore_put_typed_def)

lemma put_identity_row:
  "EncryptedStore_put_identity Q v c = (Inr (), c1) \<Longrightarrow>
   execute_row Q INSERT_STATE IDENTITY_KEY (be_bytes 4 (length v) @ v) c = (Inr (), c1)"
  unfolding EncryptedStore_put_identity_def by (rule put_typed_row)

lemma run_write_other_row:
  assumes "table_ok Q" "run_write Q w c = (Inr (), c')" "write_key w \<noteq> k"
  shows "query_blob Q SELECT_STATE k c' = query_blob Q SELECT_STATE k c"
proof (cases w)
  case (RawWrite k' v)
  then show ?thesis using assms put_then_query [OF assms(1) put_raw_row, of k' v c c' k] by simp
next
  case (TypedWrite k' v)
  then show ?thesis using assms put_then_query [OF assms(1) put_typed_row, of k' v c c' k] by simp
qed

lemma run_writes_other_row:
  "table_ok Q \<Longrightarrow> run_writes Q ws c = (Inr (), c') \<Longrightarrow> k \<notin> write_key ` set ws \<Longrightarrow>
   query_blob Q SELECT_STATE k c' = query_blob Q SELECT_STATE k c"
  by (induction ws arbitrary: c)
    (auto simp: run_write_other_row split: prod.splits sum.splits)

lemma stored_identity_is_read:
  fixes Q :: "('c, 'e) sqlite"
  assumes "table_ok Q" "length v < 2 ^ 32" "EncryptedStore_put_identity Q v c = (Inr (), c1)"
  shows "EncryptedStore_get_identity Q c1 = Return (Inr (Some v))"
proof -
  have "(parse_envelope (be_bytes 4 (length v) @ v) :: ('e StorageError + bytes) run) = Return (Inr v)"
    using assms(2) parse_envelope_iff by blast
  then show ?thesis
    using put_then_query [OF assms(1) put_identity_row [OF assms(3)]]
    by (simp add: EncryptedStore_get_identity_def EncryptedStore_get_typed_def)
qed

lemma literal_inject: "as_sqlcipher_literal k = as_sqlcipher_literal k' \<longleftrightarrow> k = k'"
  using hex_encode_inj by (auto simp: as_sqlcipher_literal_def)

lemma sqlcipher_parts:
  "sqlcipher_ok Q staged file \<Longrightarrow> keying_ok Q staged file"
  "sqlcipher_ok Q staged file \<Longrightarrow> schema_ok Q staged file"
  "sqlcipher_ok Q staged file \<Longrightarrow> rows_ok Q staged file"
  by (simp_all add: sqlcipher_ok_def)

lemma reopening_fields [simp]:
  "conn_open (reopening Q c) path = Inr c" "execute_batch (reopening Q c) = execute_batch Q"
  "execute_int (reopening Q c) = execute_int Q" "execute_row (reopening Q c) = execute_row Q"
  "query_int (reopening Q c) = query_int Q" "query_blob (reopening Q c) = query_blob Q"
  "is_no_rows (reopening Q c) = is_no_rows Q"
  by (simp_all add: reopening_def)

lemma sqlcipher_reopening: "sqlcipher_ok (reopening Q c) staged file \<longleftrightarrow> sqlcipher_ok Q staged file"
  unfolding sqlcipher_ok_def keying_ok_def schema_ok_def rows_ok_def reopening_fields ..

lemma insert_meta:
  assumes "schema_ok Q staged file" "key_opens (staged c) (file c)" "cf_version (file c) = Some v"
    and "execute_int Q INSERT_META n c = (Inr (), c')"
  shows "staged c' = staged c" "file c' = (file c)\<lparr>cf_version := Some (Some (case v of None \<Rightarrow> n | Some w \<Rightarrow> w))\<rparr>"
  using assms unfolding schema_ok_def by blast+

lemma select_version:
  assumes "schema_ok Q staged file" "key_opens (staged c) (file c)" "cf_version (file c) = Some (Some v)"
  shows "query_int Q ''SELECT version FROM schema_meta WHERE id = 0'' c = Inr v"
  using assms unfolding schema_ok_def by blast

lemma initialize_schema_file:
  assumes "schema_ok Q staged file" "key_opens (staged c) (file c)" "initialize_schema Q c = Inr s"
    and "staged c = Some (as_sqlcipher_literal key)"
  shows "staged s = staged c \<and> file s = opened_file key (file c)"
proof -
  obtain c1 c2 where c: "execute_batch Q CREATE_META c = (Inr (), c1)" "execute_int Q INSERT_META SCHEMA_VERSION c1 = (Inr (), c2)"
    "execute_batch Q CREATE_STATE c2 = (Inr (), s)"
    using assms(3) by (auto simp: initialize_schema_def split: prod.splits sum.splits)
  have 1: "staged c1 = staged c" "file c1 = (file c)\<lparr>cf_key := staged c, cf_intact := True,
      cf_version := Some (case cf_version (file c) of None \<Rightarrow> None | Some v \<Rightarrow> v)\<rparr>"
    using assms(1,2) c(1) unfolding schema_ok_def by blast+
  then have "key_opens (staged c1) (file c1)"
    "cf_version (file c1) = Some (case cf_version (file c) of None \<Rightarrow> None | Some v \<Rightarrow> v)"
    by (simp_all add: key_opens_def)
  note 2 = insert_meta [OF assms(1) this c(2)]
  with 1 have "key_opens (staged c2) (file c2)" by (simp add: key_opens_def)
  then have "staged s = staged c2" "file s = (file c2)\<lparr>cf_key := staged c2, cf_intact := True,
      cf_rows := Some (case cf_rows (file c2) of None \<Rightarrow> Map.empty | Some r \<Rightarrow> r)\<rparr>"
    using assms(1) c(3) unfolding schema_ok_def by blast+
  with 1 2 show ?thesis using assms(4) by (auto simp: opened_file_def split: option.splits)
qed

text \<open>Opening, by what the file was before.\<close>

lemma open_outcome:
  assumes "sqlcipher_ok Q staged file" "conn_open Q path = Inr c0" "length key = 32"
  shows "case Store_open Q path key of
      Inl InvalidKey \<Rightarrow> \<not> key_opens (Some (as_sqlcipher_literal key)) (file c0)
    | Inl (Database _) \<Rightarrow> key_opens (Some (as_sqlcipher_literal key)) (file c0)
    | Inl (Corrupted _) \<Rightarrow> False
    | Inr s \<Rightarrow> key_opens (Some (as_sqlcipher_literal key)) (file c0) \<and>
        staged s = Some (as_sqlcipher_literal key) \<and> file s = opened_file key (file c0)"
proof -
  obtain c1 where c1: "execute_batch Q (pragma_key key) c0 = (Inr (), c1)"
    "staged c1 = Some (as_sqlcipher_literal key)" "file c1 = file c0"
    using sqlcipher_parts(1) [OF assms(1)] assms(3) unfolding keying_ok_def by blast
  have probe: "(\<exists>n. query_int Q PROBE c1 = Inr n) \<longleftrightarrow> key_opens (Some (as_sqlcipher_literal key)) (file c0)"
    using sqlcipher_parts(1) [OF assms(1)] c1(2,3) unfolding keying_ok_def by metis
  show ?thesis
  proof (cases "query_int Q PROBE c1")
    case (Inl e)
    then show ?thesis using probe c1(1) assms(2) by (simp add: Store_open_def)
  next
    case (Inr n)
    then have "key_opens (staged c1) (file c1)" using probe c1(2,3) by metis
    note init = initialize_schema_file [OF sqlcipher_parts(2) [OF assms(1)] this _ c1(2)]
    have "key_opens (Some (as_sqlcipher_literal key)) (file c0)" using probe Inr by blast
    moreover have "Store_open Q path key = map_err Database (initialize_schema Q c1)"
      using c1(1) assms(2) Inr by (simp add: Store_open_def)
    ultimately show ?thesis using init c1(2,3) by (cases "initialize_schema Q c1") simp_all
  qed
qed

text \<open>A connection after opening, and after any writes.\<close>

definition keyed :: "('c \<Rightarrow> string option) \<Rightarrow> ('c \<Rightarrow> cipher_file) \<Rightarrow> StoreKey \<Rightarrow> 'c \<Rightarrow> bool" where
  "keyed staged file key c \<longleftrightarrow> staged c = Some (as_sqlcipher_literal key) \<and> cf_key (file c) = staged c \<and>
     cf_intact (file c) \<and> cf_rows (file c) \<noteq> None"

lemma keyed_write:
  assumes "sqlcipher_ok Q staged file" "keyed staged file key c" "execute_row Q INSERT_STATE k v c = (r, c')"
  shows "keyed staged file key c'"
proof -
  have "staged c' = staged c" "case r of Inl _ \<Rightarrow> file c' = file c
     | Inr _ \<Rightarrow> file c' = (file c)\<lparr>cf_rows := map_option (\<lambda>rows. rows(k \<mapsto> v)) (cf_rows (file c))\<rparr>"
    using sqlcipher_parts(3) [OF assms(1)] assms(3) unfolding rows_ok_def by blast+
  then show ?thesis using assms(2) by (cases r) (auto simp: keyed_def)
qed

lemma keyed_run_write:
  assumes "sqlcipher_ok Q staged file" "keyed staged file key c" "run_write Q w c = (r, c')"
  shows "keyed staged file key c'"
  using assms(3) keyed_write [OF assms(1,2)]
  by (cases w) (auto simp: EncryptedStore_put_raw_def EncryptedStore_put_typed_def Let_def apfst_def map_prod_def split: prod.splits)

lemma keyed_run_writes:
  "sqlcipher_ok Q staged file \<Longrightarrow> keyed staged file key c \<Longrightarrow> run_writes Q ws c = (r, c') \<Longrightarrow> keyed staged file key c'"
proof (induction ws arbitrary: c)
  case (Cons w ws)
  obtain q c1 where w: "run_write Q w c = (q, c1)" by fastforce
  then have "keyed staged file key c1" using keyed_run_write Cons.prems by metis
  then show ?case using Cons w by (cases q) auto
qed simp

lemma keyed_opens:
  "keyed staged file key c \<Longrightarrow> key_opens (Some (as_sqlcipher_literal key')) (file c) \<longleftrightarrow> key' = key"
  by (auto simp: keyed_def key_opens_def literal_inject)

lemma opened_keyed:
  "staged s = Some (as_sqlcipher_literal key) \<Longrightarrow> file s = opened_file key f \<Longrightarrow> keyed staged file key s"
  by (simp add: keyed_def opened_file_def)

lemma keyed_get:
  assumes "rows_ok Q staged file" "keyed staged file key c"
  shows "EncryptedStore_get_typed Q k c =
    (case the (cf_rows (file c)) k of
       None \<Rightarrow> Return (Inr None)
     | Some envelope \<Rightarrow> try_bind (parse_envelope envelope) (\<lambda>body. Return (Inr (Some body))))"
proof -
  obtain rows where rows: "key_opens (staged c) (file c)" "cf_rows (file c) = Some rows"
    using assms(2) by (auto simp: keyed_def key_opens_def)
  then have "case rows k of
      None \<Rightarrow> \<exists>e. query_blob Q SELECT_STATE k c = Inl e \<and> is_no_rows Q e
    | Some v \<Rightarrow> query_blob Q SELECT_STATE k c = Inr (Some v)"
    using assms(1) unfolding rows_ok_def by blast
  then show ?thesis using rows(2) by (cases "rows k") (auto simp: EncryptedStore_get_typed_def)
qed

text \<open>An opened store and its version.\<close>

lemma opened:
  assumes "sqlcipher_ok Q staged file" "conn_open Q path = Inr c0" "length key = 32" "Store_open Q path key = Inr s"
  shows "keyed staged file key s" "file s = opened_file key (file c0)"
    "Store_schema_version Q s = Inr (case cf_version (file c0) of Some (Some v) \<Rightarrow> v | _ \<Rightarrow> SCHEMA_VERSION)"
proof -
  have s: "staged s = Some (as_sqlcipher_literal key)" "file s = opened_file key (file c0)"
    using open_outcome [OF assms(1-3)] assms(4) by simp_all
  show "keyed staged file key s" "file s = opened_file key (file c0)" using opened_keyed s by auto
  have "key_opens (staged s) (file s)" using s by (simp add: key_opens_def opened_file_def)
  moreover have "cf_version (file s) = Some (Some (case cf_version (file c0) of Some (Some v) \<Rightarrow> v | _ \<Rightarrow> SCHEMA_VERSION))"
    using s(2) by (simp add: opened_file_def)
  ultimately show "Store_schema_version Q s = Inr (case cf_version (file c0) of Some (Some v) \<Rightarrow> v | _ \<Rightarrow> SCHEMA_VERSION)"
    using select_version [OF sqlcipher_parts(2) [OF assms(1)]] by (simp add: Store_schema_version_def)
qed

lemma open_refuses:
  assumes "sqlcipher_ok Q staged file" "conn_open Q path = Inr c0" "length key = 32"
  shows "Store_open Q path key = Inl InvalidKey \<longleftrightarrow> \<not> key_opens (Some (as_sqlcipher_literal key)) (file c0)"
  using open_outcome [OF assms] by (auto split: sum.splits StorageError.splits)

text \<open>Opening again the file that a keyed connection has left.\<close>

lemma reopen:
  assumes "sqlcipher_ok Q staged file" "keyed staged file key s'" "file c1 = file s'" "length key' = 32"
  shows "Store_open (reopening Q c1) path key' = Inl InvalidKey \<longleftrightarrow> key' \<noteq> key"
    and "Store_open (reopening Q c1) path key' = Inr s2 \<Longrightarrow> EncryptedStore_get_typed Q k s2 = EncryptedStore_get_typed Q k s'"
proof -
  have law: "sqlcipher_ok (reopening Q c1) staged file" using assms(1) by (simp add: sqlcipher_reopening)
  show "Store_open (reopening Q c1) path key' = Inl InvalidKey \<longleftrightarrow> key' \<noteq> key"
    using open_refuses [OF law reopening_fields(1) assms(4)] keyed_opens [OF assms(2)] assms(3) by simp
  assume "Store_open (reopening Q c1) path key' = Inr s2"
  note s2 = opened [OF law reopening_fields(1) assms(4) this]
  have "cf_rows (file s2) = cf_rows (file s')"
    using s2(2) assms(2,3) by (auto simp: opened_file_def keyed_def)
  then show "EncryptedStore_get_typed Q k s2 = EncryptedStore_get_typed Q k s'"
    using keyed_get [OF sqlcipher_parts(3) [OF assms(1)]] s2(1) assms(2) by metis
qed

section \<open>Properties\<close>

text \<open>
  The \<open>PRAGMA key\<close> statement cannot be broken out of and identifies the key: the key literal
  consists only of lower-case hex digits between \<open>x'\<close> and \<open>'\<close>, a 32-byte key gives exactly 67
  characters, and different keys give different statements.
\<close>

theorem pragma_key_is_safe:
  "set (as_sqlcipher_literal k) \<subseteq> set ''0123456789abcdefx'' \<union> {CHR 0x27} \<and>
   length (as_sqlcipher_literal k) = 2 * length k + 3 \<and>
   (pragma_key k = pragma_key k' \<longrightarrow> k = k')"
proof (intro conjI impI)
  show "set (as_sqlcipher_literal k) \<subseteq> set ''0123456789abcdefx'' \<union> {CHR 0x27}"
    using hex_encode_chars [of k] unfolding as_sqlcipher_literal_def by fastforce
  show "length (as_sqlcipher_literal k) = 2 * length k + 3"
    by (simp add: as_sqlcipher_literal_def length_hex_encode)
  assume "pragma_key k = pragma_key k'"
  then show "k = k'" by (intro hex_encode_inj) (simp add: pragma_key_def as_sqlcipher_literal_def)
qed

theorem pragma_key_is_safe_witness:
  "length (as_sqlcipher_literal (replicate 32 171)) = 67 \<and> pragma_key [171] \<noteq> pragma_key [172]"
  using pragma_key_is_safe [of "replicate 32 171" "[]"] pragma_key_is_safe [of "[171]" "[172]"] by auto


text \<open>
  C21: What is read back is what was written, or an error: after \<open>put_identity\<close> any number of raw or
  typed writes to other rows leave \<open>get_identity\<close> returning the stored bytes; after a raw write to
  the identity row it returns a value only if those raw bytes are a complete envelope of exactly
  that value, and otherwise \<open>Corrupted\<close>; it never panics.
\<close>

theorem identity_survives_or_is_refused:
  fixes Q :: "('c, 'e) sqlite"
  assumes "table_ok Q" "length v < 2 ^ 32" "EncryptedStore_put_identity Q v c = (Inr (), c1)"
    and "IDENTITY_KEY \<notin> write_key ` set ws" "run_writes Q ws c1 = (Inr (), c2)"
    and "EncryptedStore_put_raw Q IDENTITY_KEY raw c2 = (Inr (), c3)"
  shows "EncryptedStore_get_identity Q c1 = Return (Inr (Some v)) \<and>
    EncryptedStore_get_identity Q c2 = Return (Inr (Some v)) \<and>
    (case EncryptedStore_get_identity Q c3 of
       Return (Inr (Some u)) \<Rightarrow> raw = be_bytes 4 (length u) @ u
     | Return (Inl (Corrupted _)) \<Rightarrow> \<nexists>u. length u < 2 ^ 32 \<and> raw = be_bytes 4 (length u) @ u
     | _ \<Rightarrow> False)"
proof -
  have e: "execute_row Q INSERT_STATE IDENTITY_KEY raw c2 = (Inr (), c3)" by (rule put_raw_row [OF assms(6)])
  have one: "EncryptedStore_get_identity Q c1 = Return (Inr (Some v))"
    by (rule stored_identity_is_read [OF assms(1-3)])
  moreover have "EncryptedStore_get_identity Q c2 = EncryptedStore_get_identity Q c1"
    using run_writes_other_row [OF assms(1,5,4)]
    by (simp add: EncryptedStore_get_identity_def EncryptedStore_get_typed_def)
  ultimately have two: "EncryptedStore_get_identity Q c2 = Return (Inr (Some v))" by simp
  have g: "EncryptedStore_get_identity Q c3 = try_bind (parse_envelope raw) (\<lambda>body. Return (Inr (Some body)))"
    using put_then_query [OF assms(1) e] by (simp add: EncryptedStore_get_identity_def EncryptedStore_get_typed_def)
  show ?thesis
  proof (cases "parse_envelope raw :: ('e StorageError + bytes) run")
    case (Return r)
    show ?thesis
    proof (cases r)
      case (Inl err)
      then have "\<nexists>u. length u < 2 ^ 32 \<and> raw = be_bytes 4 (length u) @ u"
        using Return parse_envelope_iff [of raw] by (metis run.inject sum.distinct(1))
      moreover have "\<exists>m. err = Corrupted m"
        using Return Inl by (auto simp: parse_envelope_def slice_range_def Let_def split: if_splits)
      ultimately show ?thesis using one two g Return Inl by auto
    next
      case (Inr u)
      then have "raw = be_bytes 4 (length u) @ u" using Return parse_envelope_iff by blast
      then show ?thesis using one two g Return Inr by simp
    qed
  qed (use parse_envelope_total in blast)
qed

section \<open>A concrete instance\<close>

text \<open>
  For the witnesses: a connection is whether the key literal was accepted (the one of the key
  \<open>[7]\<close>) and the rows of the state table.
\<close>

definition demo_sqlite :: "(bool \<times> (string, bytes) hmap, string) sqlite" where
  "demo_sqlite =
     \<lparr>conn_open = (\<lambda>path. Inr (False, [])),
      execute_batch = (\<lambda>sql c. (Inr (), (fst c \<or> sql = pragma_key [7], snd c))),
      execute_int = (\<lambda>sql n c. (Inr (), c)),
      execute_row = (\<lambda>sql k v c. (Inr (), (fst c, hm_insert k v (snd c)))),
      query_int = (\<lambda>sql c. if fst c then Inr 0 else Inl ''file is not a database''),
      query_blob = (\<lambda>sql k c. case map_of (snd c) k of None \<Rightarrow> Inl ''no rows'' | Some v \<Rightarrow> Inr (Some v)),
      is_no_rows = (\<lambda>e. e = ''no rows''), sql_display = (\<lambda>e. e)\<rparr>"

lemma demo_table_ok: "table_ok demo_sqlite"
proof -
  have "map_of (hm_insert k v m) k' = (if k' = k then Some v else map_of m k')" for k k' :: string and v :: bytes and m
    by (simp add: hm_insert_def hm_remove_def map_of_filter_in) (induction m, auto)
  then show ?thesis by (auto simp: table_ok_def demo_sqlite_def)
qed

text \<open>
  A database library that does what the statements say: a connection is the staged key and the
  file; every statement but \<open>PRAGMA key\<close> fails where the key does not open the file.
\<close>

type_synonym demo_conn = "string option \<times> cipher_file"

definition demo_batch :: "string \<Rightarrow> demo_conn \<Rightarrow> (string + unit) \<times> demo_conn" where
  "demo_batch sql = (\<lambda>(k, f).
     if take 13 sql = ''PRAGMA key = '' then (Inr (), Some (butlast (butlast (drop 14 sql))), f)
     else if \<not> key_opens k f then (Inl ''file is not a database'', k, f)
     else if sql = CREATE_META then
       (Inr (), k, f\<lparr>cf_key := k, cf_intact := True,
          cf_version := Some (case cf_version f of None \<Rightarrow> None | Some v \<Rightarrow> v)\<rparr>)
     else (Inr (), k, f\<lparr>cf_key := k, cf_intact := True,
             cf_rows := Some (case cf_rows f of None \<Rightarrow> Map.empty | Some r \<Rightarrow> r)\<rparr>))"

definition demo_cipher :: "cipher_file \<Rightarrow> (demo_conn, string) sqlite" where
  "demo_cipher disk =
     \<lparr>conn_open = (\<lambda>path. Inr (None, disk)), execute_batch = demo_batch,
      execute_int = (\<lambda>sql n (k, f). case cf_version f of
          Some None \<Rightarrow> (Inr (), k, f\<lparr>cf_version := Some (Some n)\<rparr>) | _ \<Rightarrow> (Inr (), k, f)),
      execute_row = (\<lambda>sql key v (k, f). case cf_rows f of
          None \<Rightarrow> (Inl ''no such table'', k, f) | Some r \<Rightarrow> (Inr (), k, f\<lparr>cf_rows := Some (r(key \<mapsto> v))\<rparr>)),
      query_int = (\<lambda>sql (k, f). if \<not> key_opens k f then Inl ''file is not a database''
          else case cf_version f of Some (Some v) \<Rightarrow> Inr v | _ \<Rightarrow> Inr 0),
      query_blob = (\<lambda>sql key (k, f). case the (cf_rows f) key of None \<Rightarrow> Inl ''no rows'' | Some v \<Rightarrow> Inr (Some v)),
      is_no_rows = (\<lambda>e. e = ''no rows''), sql_display = (\<lambda>e. e)\<rparr>"

lemma demo_pragma: "demo_batch (pragma_key key) (k, f) = (Inr (), Some (as_sqlcipher_literal key), f)"
  by (simp add: demo_batch_def pragma_key_def butlast_append)

lemma demo_sqlcipher_ok: "sqlcipher_ok (demo_cipher disk) fst snd"
  unfolding sqlcipher_ok_def
proof (intro conjI)
  show "keying_ok (demo_cipher disk) fst snd"
    by (auto simp: keying_ok_def demo_cipher_def demo_pragma split: option.splits)
  show "schema_ok (demo_cipher disk) fst snd"
    by (auto simp: schema_ok_def demo_cipher_def demo_batch_def CREATE_META_def CREATE_STATE_def split: option.splits)
  show "rows_ok (demo_cipher disk) fst snd"
    by (auto simp: rows_ok_def demo_cipher_def split: option.splits)
qed

definition fresh_file :: cipher_file where
  "fresh_file = \<lparr>cf_key = None, cf_intact = True, cf_version = None, cf_rows = None\<rparr>"

lemma demo_create:
  "key_opens k f \<Longrightarrow> demo_batch CREATE_META (k, f) =
     (Inr (), k, f\<lparr>cf_key := k, cf_intact := True, cf_version := Some (case cf_version f of None \<Rightarrow> None | Some v \<Rightarrow> v)\<rparr>)"
  "key_opens k f \<Longrightarrow> demo_batch CREATE_STATE (k, f) =
     (Inr (), k, f\<lparr>cf_key := k, cf_intact := True, cf_rows := Some (case cf_rows f of None \<Rightarrow> Map.empty | Some r \<Rightarrow> r)\<rparr>)"
  by (simp_all add: demo_batch_def CREATE_META_def CREATE_STATE_def)

lemma demo_open:
  assumes "key_opens (Some (as_sqlcipher_literal k)) f"
  shows "EncryptedStore_open (demo_cipher f) (@) dir k = Inr (Some (as_sqlcipher_literal k), opened_file k f)"
  using assms
  by (cases "cf_version f"; cases "the (cf_version f)"; cases "cf_rows f")
    (simp_all add: EncryptedStore_open_def Store_open_def StoreKey_new_def initialize_schema_def demo_cipher_def
      demo_pragma demo_create opened_file_def key_opens_def)


theorem identity_survives_or_is_refused_witness:
  "\<exists>c c3. EncryptedStore_get_identity demo_sqlite (c :: bool \<times> (string, bytes) hmap) = Return (Inr (Some [1, 2, 3])) \<and>
     EncryptedStore_put_raw demo_sqlite IDENTITY_KEY [9] c = (Inr (), c3) \<and>
     (\<exists>m. EncryptedStore_get_identity demo_sqlite c3 = Return (Inl (Corrupted m)))"
proof -
  define c1 where "c1 = snd (EncryptedStore_put_identity demo_sqlite [1, 2, 3] (True, []))"
  let ?ws = "[RawWrite ''other'' [5], TypedWrite ''more'' [6]]"
  define c2 where "c2 = snd (run_writes demo_sqlite ?ws c1)"
  define c3 where "c3 = snd (EncryptedStore_put_raw demo_sqlite IDENTITY_KEY [9] c2)"
  have p: "EncryptedStore_put_identity demo_sqlite [1, 2, 3] (True, []) = (Inr (), c1)"
    "run_writes demo_sqlite ?ws c1 = (Inr (), c2)"
    "EncryptedStore_put_raw demo_sqlite IDENTITY_KEY [9] c2 = (Inr (), c3)"
    by (simp_all add: c1_def c2_def c3_def EncryptedStore_put_identity_def EncryptedStore_put_typed_def
        EncryptedStore_put_raw_def demo_sqlite_def map_err_def)
  have k: "IDENTITY_KEY \<notin> write_key ` set ?ws" "length [1 :: u8, 2, 3] < 2 ^ 32" by (simp_all add: IDENTITY_KEY_def)
  note r = identity_survives_or_is_refused [OF demo_table_ok k(2) p(1) k(1) p(2,3)]
  have "length [9 :: u8] \<noteq> length (be_bytes 4 (length u) @ u)" for u by simp
  then have ne: "[9] \<noteq> be_bytes 4 (length u) @ u" for u by metis
  have "\<exists>m. EncryptedStore_get_identity demo_sqlite c3 = Return (Inl (Corrupted m))"
    using r ne
    by (cases "EncryptedStore_get_identity demo_sqlite c3")
      (simp_all split: sum.splits option.splits StorageError.splits, blast)
  with r p(3) show ?thesis by blast
qed

end
