(* ===== verification/Group.thy ===== *)
theory Group
  imports Identity
begin

text \<open>
  Sender-key group sessions (\<open>core/protocol/src/group.rs\<close>). A session is the roster and the chain
  key; \<open>encrypt_as\<close> ratchets the chain key and writes one sealed message key per member. Offsets
  of the decoder are \<open>usize\<close>: additions wrap at the width \<open>w\<close> of the target (64 natively, 32 on
  wasm32), and a slice whose ends are out of order or out of range panics. Randomness (seal
  randomness per member, the fresh chain key) is an argument.
\<close>

section \<open>Data\<close>

definition MAX_MEMBERS :: nat where "MAX_MEMBERS = 255"

datatype io_kind = InvalidData | InvalidInput | PermissionDenied | Other

type_synonym io_error = "io_kind \<times> string"

text \<open>The newtype \<open>GroupMember\<close> is its public key; \<open>NonMember\<close> is a caller without a private key.\<close>

type_synonym GroupMember = PublicIdentityKey

definition GroupMember_new :: "PublicIdentityKey \<Rightarrow> GroupMember" where
  "GroupMember_new pubkey = pubkey"

datatype Caller = KeyPairCaller IdentityKeyPair | NonMemberCaller PublicIdentityKey

definition NonMember_new :: "PublicIdentityKey \<Rightarrow> Caller" where
  "NonMember_new pubkey = NonMemberCaller pubkey"

definition Caller_public :: "prims \<Rightarrow> Caller \<Rightarrow> PublicIdentityKey" where
  "Caller_public P c =
     (case c of KeyPairCaller k \<Rightarrow> IdentityKeyPair_public P k | NonMemberCaller pk \<Rightarrow> pk)"

definition Caller_open_sealed :: "prims \<Rightarrow> Caller \<Rightarrow> bytes \<Rightarrow> io_error + bytes" where
  "Caller_open_sealed P c sealed =
     (case c of
        KeyPairCaller k \<Rightarrow>
          map_err (\<lambda>e. (InvalidData, SealError_display e)) (IdentityKeyPair_open_sealed P k sealed)
      | NonMemberCaller _ \<Rightarrow>
          Inl (PermissionDenied, ''non-member holds no private key to open a sealed wrapper''))"

record GroupSession =
  gs_members :: "PublicIdentityKey list"
  gs_chain_key :: bytes

text \<open>\<open>expect\<close> on an HKDF expansion.\<close>

definition expand :: "prims \<Rightarrow> bytes \<Rightarrow> string \<Rightarrow> nat \<Rightarrow> bytes run" where
  "expand P key info n =
     (case hkdf P None key (str_bytes info) n of None \<Rightarrow> Panic | Some k \<Rightarrow> Return k)"

definition GroupSession_new :: "prims \<Rightarrow> PublicIdentityKey \<Rightarrow> GroupSession run" where
  "GroupSession_new P sender_pub =
     run_bind (expand P (PublicIdentityKey_to_bytes sender_pub) ''chain'' 32) (\<lambda>ck.
       Return \<lparr>gs_members = [], gs_chain_key = ck\<rparr>)"

definition GroupSession_add_member :: "PublicIdentityKey \<Rightarrow> GroupSession \<Rightarrow> GroupSession" where
  "GroupSession_add_member member g = g\<lparr>gs_members := gs_members g @ [member]\<rparr>"

definition GroupSession_rotate_sender_key :: "bytes \<Rightarrow> GroupSession \<Rightarrow> GroupSession" where
  "GroupSession_rotate_sender_key fresh g = g\<lparr>gs_chain_key := fresh\<rparr>"

definition GroupSession_remove_member :: "bytes \<Rightarrow> PublicIdentityKey \<Rightarrow> GroupSession \<Rightarrow> GroupSession" where
  "GroupSession_remove_member fresh member g =
     GroupSession_rotate_sender_key fresh
       (g\<lparr>gs_members := filter (\<lambda>m. m \<noteq> member) (gs_members g)\<rparr>)"

definition GroupSession_sender_key_copy_for :: "GroupSession \<Rightarrow> bytes" where
  "GroupSession_sender_key_copy_for g = gs_chain_key g"

section \<open>Encryption\<close>

text \<open>The sealing loop: member \<open>i\<close> uses the randomness \<open>rnd i\<close>; the first failure is returned.\<close>

fun seal_members ::
  "prims \<Rightarrow> (nat \<Rightarrow> seal_rand) \<Rightarrow> bytes \<Rightarrow> nat \<Rightarrow> PublicIdentityKey list \<Rightarrow>
   io_error + (PublicIdentityKey \<times> bytes) list" where
  "seal_members P rnd key_bytes i [] = Inr []"
| "seal_members P rnd key_bytes i (m # ms) =
     (case PublicIdentityKey_seal P (rnd i) m key_bytes of
        Inl e \<Rightarrow> Inl (Other, SealError_display e)
      | Inr sealed \<Rightarrow>
          (case seal_members P rnd key_bytes (Suc i) ms of
             Inl e \<Rightarrow> Inl e
           | Inr wrappers \<Rightarrow> Inr ((m, sealed) # wrappers)))"

definition wrapper_bytes :: "PublicIdentityKey \<times> bytes \<Rightarrow> bytes" where
  "wrapper_bytes w =
     PublicIdentityKey_to_bytes (fst w) @ le_bytes 2 (length (snd w)) @ snd w"

definition group_frame :: "bytes \<Rightarrow> bytes \<Rightarrow> (PublicIdentityKey \<times> bytes) list \<Rightarrow> bytes" where
  "group_frame nonce_bytes ciphertext_payload wrappers =
     nonce_bytes @ le_bytes 4 (length ciphertext_payload) @ ciphertext_payload
       @ [word_of_nat (length wrappers)] @ concat (map wrapper_bytes wrappers)"

definition GroupSession_encrypt_as ::
  "prims \<Rightarrow> (nat \<Rightarrow> seal_rand) \<Rightarrow> bytes \<Rightarrow> GroupSession \<Rightarrow> (io_error + bytes) run \<times> GroupSession" where
  "GroupSession_encrypt_as P rnd plaintext g =
     (if length (gs_members g) > MAX_MEMBERS
      then (Return (Inl (InvalidInput, ''group has '' @ show_nat (length (gs_members g))
              @ '' members, exceeding the wire format's 255-member limit'')), g)
      else
        let current_chain_key = gs_chain_key g
        in (case expand P current_chain_key ''msg'' 32 of
              Panic \<Rightarrow> (Panic, g)
            | Return key_bytes \<Rightarrow>
           (case expand P current_chain_key ''nonce'' 12 of
              Panic \<Rightarrow> (Panic, g)
            | Return nonce_bytes \<Rightarrow>
           (case expand P current_chain_key ''chain-ratchet'' 32 of
              Panic \<Rightarrow> (Panic, g)
            | Return next_chain_key \<Rightarrow>
                let g = g\<lparr>gs_chain_key := next_chain_key\<rparr>
                in (case aes_enc P key_bytes nonce_bytes plaintext of
                      None \<Rightarrow> (Return (Inl (Other, ''aead::Error'')), g)
                    | Some ciphertext_payload \<Rightarrow>
                        (case seal_members P rnd key_bytes 0 (gs_members g) of
                           Inl e \<Rightarrow> (Return (Inl e), g)
                         | Inr wrappers \<Rightarrow>
                             (Return (Inr (group_frame nonce_bytes ciphertext_payload wrappers)), g)))))))"

section \<open>Decryption\<close>

text \<open>The wrapper loop: the remaining count, the offset, the wrapper found so far.\<close>

fun find_wrapper ::
  "nat \<Rightarrow> bytes \<Rightarrow> bytes \<Rightarrow> nat \<Rightarrow> nat \<Rightarrow> bytes option \<Rightarrow> (io_error + bytes option) run" where
  "find_wrapper w ciphertext caller_pubkey 0 pos found = Return (Inr found)"
| "find_wrapper w ciphertext caller_pubkey (Suc n) pos found =
     (if us_add w (us_add w pos 33) 2 > length ciphertext
      then Return (Inl (InvalidData, ''wrapper truncated''))
      else run_bind (slice_range ciphertext pos (us_add w pos 33)) (\<lambda>pubkey_bytes.
        let pos = us_add w pos 33 in
        run_bind (slice_range ciphertext pos (us_add w pos 2)) (\<lambda>len_bytes.
        let sealed_len = le_nat len_bytes; pos = us_add w pos 2 in
        if us_add w pos sealed_len > length ciphertext
        then Return (Inl (InvalidData, ''sealed wrapper truncated''))
        else run_bind (slice_range ciphertext pos (us_add w pos sealed_len)) (\<lambda>sealed_bytes.
          find_wrapper w ciphertext caller_pubkey n (us_add w pos sealed_len)
            (if found = None \<and> pubkey_bytes = caller_pubkey then Some sealed_bytes else found)))))"

text \<open>The last step of both decryption paths: the AES key must have 32 bytes, the tag must hold.\<close>

definition open_payload :: "prims \<Rightarrow> bytes \<Rightarrow> bytes \<Rightarrow> bytes \<Rightarrow> io_error + bytes" where
  "open_payload P key_bytes nonce_bytes payload =
     (if length key_bytes \<noteq> 32 then Inl (Other, ''Invalid Length'')
      else ok_or (InvalidData, ''aead::Error'') (aes_dec P key_bytes nonce_bytes payload))"

definition GroupSession_decrypt_as ::
  "prims \<Rightarrow> nat \<Rightarrow> Caller \<Rightarrow> bytes \<Rightarrow> (io_error + bytes) run" where
  "GroupSession_decrypt_as P w caller ciphertext =
     (if length ciphertext < 12 + 4 + 1 then Return (Inl (InvalidData, ''ciphertext too short''))
      else
        run_bind (slice_range ciphertext 0 12) (\<lambda>nonce_bytes.
        run_bind (slice_range ciphertext 12 16) (\<lambda>len_bytes.
        let payload_len = le_nat len_bytes; pos = 16 in
        if length ciphertext < us_add w (us_add w pos payload_len) 1
        then Return (Inl (InvalidData, ''payload length mismatch''))
        else run_bind (slice_range ciphertext pos (us_add w pos payload_len)) (\<lambda>payload.
        let pos = us_add w pos payload_len in
        run_bind (index_at ciphertext pos) (\<lambda>wrapper_count.
        let pos = us_add w pos 1; caller_pubkey = PublicIdentityKey_to_bytes (Caller_public P caller) in
        run_bind (find_wrapper w ciphertext caller_pubkey (unat wrapper_count) pos None) (\<lambda>r.
        Return (case r of
            Inl e \<Rightarrow> Inl e
          | Inr None \<Rightarrow> Inl (PermissionDenied, ''caller not a member'')
          | Inr (Some sealed) \<Rightarrow>
              (case Caller_open_sealed P caller sealed of
                 Inl e \<Rightarrow> Inl e
               | Inr key_bytes \<Rightarrow> open_payload P key_bytes nonce_bytes payload))))))))"

definition GroupSession_try_decrypt_with_sender_key ::
  "prims \<Rightarrow> nat \<Rightarrow> bytes \<Rightarrow> bytes \<Rightarrow> (io_error + bytes) run" where
  "GroupSession_try_decrypt_with_sender_key P w sender_key ciphertext =
     (if length ciphertext < 12 + 4 + 1 then Return (Inl (InvalidData, ''ciphertext too short''))
      else
        run_bind (slice_range ciphertext 0 12) (\<lambda>nonce_bytes.
        run_bind (expand P sender_key ''msg'' 32) (\<lambda>key_bytes.
        run_bind (slice_range ciphertext 12 16) (\<lambda>len_bytes.
        let payload_len = le_nat len_bytes in
        if length ciphertext < us_add w 16 payload_len
        then Return (Inl (InvalidData, ''payload length mismatch''))
        else run_bind (slice_range ciphertext 16 (us_add w 16 payload_len)) (\<lambda>payload.
          Return (open_payload P key_bytes nonce_bytes payload))))))"

section \<open>Reading a well-formed frame\<close>

lemma slice_middle:
  assumes "ct = pre @ mid @ post" "i = length pre" "j = length pre + length mid"
  shows "slice_range ct i j = Return mid"
  using assms by (simp add: slice_range_def)

definition wrappers_ok :: "(PublicIdentityKey \<times> bytes) list \<Rightarrow> bool" where
  "wrappers_ok ws \<longleftrightarrow> (\<forall>w \<in> set ws. length (fst w) = 33 \<and> length (snd w) < 65536)"

lemma find_wrapper_frame:
  assumes "ct = pre @ concat (map wrapper_bytes ws)" "length ct < 2 ^ w" "wrappers_ok ws"
  shows "find_wrapper w ct me (length ws) (length pre) found =
    Return (Inr (if found = None then map_of ws me else found))"
  using assms
proof (induction ws arbitrary: pre found)
  case (Cons x ws)
  obtain pk sealed where x: "x = (pk, sealed)" by fastforce
  define lb where "lb = le_bytes 2 (length sealed)"
  have pk: "length pk = 33" "length sealed < 65536" "length lb = 2" "le_nat lb = length sealed"
    using Cons.prems(3) x by (auto simp: wrappers_ok_def lb_def)
  have wb: "wrapper_bytes x = pk @ lb @ sealed"
    using x by (simp add: wrapper_bytes_def PublicIdentityKey_to_bytes_def lb_def)
  have ct: "ct = pre @ pk @ lb @ sealed @ concat (map wrapper_bytes ws)"
    using Cons.prems(1) wb by simp
  have len: "length ct = length pre + 35 + length sealed + length (concat (map wrapper_bytes ws))"
    using pk by (simp add: ct)
  have s1: "slice_range ct (length pre) (length pre + 33) = Return pk"
    by (rule slice_middle [OF ct]) (simp_all add: pk)
  have s2: "slice_range ct (length pre + 33) (length pre + 33 + 2) = Return lb"
    by (rule slice_middle [of ct "pre @ pk"]) (simp_all add: pk ct)
  have s3: "slice_range ct (length pre + 33 + 2) (length pre + 33 + 2 + length sealed) = Return sealed"
    by (rule slice_middle [of ct "pre @ pk @ lb"]) (simp_all add: pk ct)
  have a: "us_add w (length pre) 33 = length pre + 33" "us_add w (length pre + 33) 2 = length pre + 33 + 2"
    "us_add w (length pre + 33 + 2) (length sealed) = length pre + 33 + 2 + length sealed"
    using len Cons.prems(2) by simp_all
  have IH: "find_wrapper w ct me (length ws) (length (pre @ wrapper_bytes x)) f =
      Return (Inr (if f = None then map_of ws me else f))" for f
    using Cons.prems x by (intro Cons.IH) (simp_all add: wrappers_ok_def)
  have l: "length (pre @ wrapper_bytes x) = length pre + 33 + 2 + length sealed"
    using pk wb by simp
  have ok: "\<not> length ct < length pre + 33 + 2" "\<not> length ct < length pre + 33 + 2 + length sealed"
    using len by simp_all
  show ?case
    unfolding list.size find_wrapper.simps add_0_right add_Suc_right a if_not_P [OF ok(1)] s1
      run_bind_simps Let_def s2 pk(4) if_not_P [OF ok(2)] s3 IH [unfolded l]
    using x by auto
qed simp

lemma open_frame:
  assumes "length n = 12" "length p < 2 ^ 32" "length ws \<le> 255" "wrappers_ok ws"
    and "length (group_frame n p ws) < 2 ^ w"
  shows "GroupSession_decrypt_as P w caller (group_frame n p ws) =
    Return (case map_of ws (Caller_public P caller) of
        None \<Rightarrow> Inl (PermissionDenied, ''caller not a member'')
      | Some sealed \<Rightarrow>
          (case Caller_open_sealed P caller sealed of
             Inl e \<Rightarrow> Inl e
           | Inr key \<Rightarrow> open_payload P key n p))"
proof -
  let ?ct = "group_frame n p ws"
  define lb where "lb = le_bytes 4 (length p)"
  define tail where "tail = concat (map wrapper_bytes ws)"
  have lb: "length lb = 4" "le_nat lb = length p" using assms(2) by (simp_all add: lb_def)
  have ct: "?ct = n @ lb @ p @ [word_of_nat (length ws)] @ tail"
    by (simp add: group_frame_def lb_def tail_def)
  have len: "length ?ct = 17 + length p + length tail" using assms(1) lb by (simp add: ct)
  have s: "slice_range ?ct 0 12 = Return n" "slice_range ?ct 12 16 = Return lb"
    "slice_range ?ct 16 (16 + length p) = Return p"
    using slice_middle [of ?ct "[]" n "lb @ p @ [word_of_nat (length ws)] @ tail"]
      slice_middle [of ?ct n lb "p @ [word_of_nat (length ws)] @ tail"]
      slice_middle [of ?ct "n @ lb" p "[word_of_nat (length ws)] @ tail"] assms(1) lb
    by (simp_all add: ct)
  have at: "index_at ?ct (16 + length p) = Return (word_of_nat (length ws))"
    using assms(1) lb by (simp add: index_at_def ct nth_append)
  have a: "us_add w 16 (length p) = 16 + length p" "us_add w (16 + length p) 1 = 16 + length p + 1"
    using len assms(5) by simp_all
  have count: "unat (word_of_nat (length ws) :: u8) = length ws"
    using assms(3) by (simp add: unat_of_nat)
  have "find_wrapper w ?ct me (length ws) (length (n @ lb @ p @ [word_of_nat (length ws)])) None =
      Return (Inr (map_of ws me))" for me
    using assms(4,5) by (subst find_wrapper_frame) (simp_all add: ct tail_def)
  then have f: "find_wrapper w ?ct me (length ws) (16 + length p + 1) None = Return (Inr (map_of ws me))" for me
    using assms(1) lb by (simp add: add.commute)
  have ok: "\<not> length ?ct < 12 + 4 + 1" "\<not> length ?ct < 16 + length p + 1" using len by simp_all
  show ?thesis
    unfolding GroupSession_decrypt_as_def if_not_P [OF ok(1)] s run_bind_simps Let_def lb(2) a
      if_not_P [OF ok(2)] at count f PublicIdentityKey_to_bytes_def
    by (auto split: option.splits)
qed

section \<open>Encryption in detail\<close>

lemma expand_ok:
  assumes "crypto_ok P" "n \<le> 8160"
  obtains k where "expand P key info n = Return k" "length k = n"
  by (rule hkdf_okD [OF assms, of None key "str_bytes info"]) (auto simp: expand_def that)

definition honest :: "prims \<Rightarrow> IdentityKeyPair list \<Rightarrow> bool" where
  "honest P ks \<longleftrightarrow> (\<forall>k \<in> set ks. ikp_ok P k)"

lemma public_length: "crypto_ok P \<Longrightarrow> ikp_ok P k \<Longrightarrow> length (IdentityKeyPair_public P k) = 33"
  by (simp add: IdentityKeyPair_public_def ikp_ok_def)

lemma seal_members_honest:
  assumes "crypto_ok P" "honest P ks" "\<forall>i. seal_rand_ok (rnd i)"
  shows "\<exists>ws. seal_members P rnd key i (map (IdentityKeyPair_public P) ks) = Inr ws \<and>
    map fst ws = map (IdentityKeyPair_public P) ks \<and>
    (\<forall>w \<in> set ws. length (fst w) = 33 \<and> length (snd w) = 60 + length key \<and>
       (\<forall>k. ikp_ok P k \<longrightarrow> IdentityKeyPair_public P k = fst w \<longrightarrow>
          IdentityKeyPair_open_sealed P k (snd w) = Inr key))"
  using assms(2)
proof (induction ks arbitrary: i)
  case (Cons k ks)
  then have k: "ikp_ok P k" "honest P ks" by (simp_all add: honest_def)
  then obtain ws where ws: "seal_members P rnd key (Suc i) (map (IdentityKeyPair_public P) ks) = Inr ws"
    "map fst ws = map (IdentityKeyPair_public P) ks"
    "\<forall>w \<in> set ws. length (fst w) = 33 \<and> length (snd w) = 60 + length key \<and>
       (\<forall>k. ikp_ok P k \<longrightarrow> IdentityKeyPair_public P k = fst w \<longrightarrow>
          IdentityKeyPair_open_sealed P k (snd w) = Inr key)"
    using Cons.IH by blast
  obtain c where c: "PublicIdentityKey_seal P (rnd i) (IdentityKeyPair_public P k) key = Inr c"
    using ident_box.seal_open [OF assms(1) k(1) assms(3) [rule_format]] by blast
  have "length c = 60 + length key"
    using ident_box.sealed_length [OF assms(1) k(1) assms(3) [rule_format] c] by (simp add: seal_lens)
  moreover have "IdentityKeyPair_open_sealed P k' c = Inr key"
    if "ikp_ok P k'" "IdentityKeyPair_public P k' = IdentityKeyPair_public P k" for k'
    using ident_box.open_of_seal [OF assms(1) that(1) assms(3) [rule_format]] c that(2) by simp
  ultimately show ?case
    using ws c public_length [OF assms(1) k(1)]
    by (intro exI [of _ "(IdentityKeyPair_public P k, c) # ws"]) simp
qed simp

text \<open>What one call of \<open>encrypt_as\<close> produces for a roster of honest members.\<close>

lemma encrypt_as_honest:
  assumes "crypto_ok P" "honest P ks" "\<forall>i. seal_rand_ok (rnd i)" "length ks \<le> 255"
    and "gs_members g = map (IdentityKeyPair_public P) ks"
  obtains key nonce next_key p ws where
    "expand P (gs_chain_key g) ''msg'' 32 = Return key" "length key = 32" "length nonce = 12"
    "expand P (gs_chain_key g) ''nonce'' 12 = Return nonce"
    "expand P (gs_chain_key g) ''chain-ratchet'' 32 = Return next_key" "length next_key = 32"
    "aes_dec P key nonce p = Some m" "length p = length m + 16"
    "map fst ws = map (IdentityKeyPair_public P) ks"
    "\<forall>w \<in> set ws. length (fst w) = 33 \<and> length (snd w) = 92 \<and>
       (\<forall>k. ikp_ok P k \<longrightarrow> IdentityKeyPair_public P k = fst w \<longrightarrow>
          IdentityKeyPair_open_sealed P k (snd w) = Inr key)"
    "GroupSession_encrypt_as P rnd m g =
       (Return (Inr (group_frame nonce p ws)), g\<lparr>gs_chain_key := next_key\<rparr>)"
proof -
  obtain key where key: "expand P (gs_chain_key g) ''msg'' 32 = Return key" "length key = 32"
    by (rule expand_ok [OF assms(1), of 32 "gs_chain_key g" "''msg''"]) simp
  obtain nonce where nonce: "expand P (gs_chain_key g) ''nonce'' 12 = Return nonce" "length nonce = 12"
    by (rule expand_ok [OF assms(1), of 12 "gs_chain_key g" "''nonce''"]) simp
  obtain nk where nk: "expand P (gs_chain_key g) ''chain-ratchet'' 32 = Return nk" "length nk = 32"
    by (rule expand_ok [OF assms(1), of 32 "gs_chain_key g" "''chain-ratchet''"]) simp
  obtain p where p: "aes_enc P key nonce m = Some p" "length p = length m + 16" "aes_dec P key nonce p = Some m"
    by (rule aes_okD [OF assms(1) key(2) nonce(2)])
  obtain ws where ws: "seal_members P rnd key 0 (map (IdentityKeyPair_public P) ks) = Inr ws"
    "map fst ws = map (IdentityKeyPair_public P) ks"
    "\<forall>w \<in> set ws. length (fst w) = 33 \<and> length (snd w) = 60 + length key \<and>
       (\<forall>k. ikp_ok P k \<longrightarrow> IdentityKeyPair_public P k = fst w \<longrightarrow>
          IdentityKeyPair_open_sealed P k (snd w) = Inr key)"
    using seal_members_honest [OF assms(1-3)] by blast
  have "GroupSession_encrypt_as P rnd m g =
       (Return (Inr (group_frame nonce p ws)), g\<lparr>gs_chain_key := nk\<rparr>)"
    using assms(4,5) key nonce nk p ws by (simp add: GroupSession_encrypt_as_def MAX_MEMBERS_def)
  then show thesis using that [OF key nonce(2,1) nk p(3,2) ws(2)] ws(3) key(2) by simp
qed

lemma length_wrapper_bytes: "length (wrapper_bytes w) = length (fst w) + 2 + length (snd w)"
  by (simp add: wrapper_bytes_def PublicIdentityKey_to_bytes_def)

lemma length_wrappers:
  "\<forall>w \<in> set ws. length (fst w) = 33 \<and> length (snd w) = 92 \<Longrightarrow>
     length (concat (map wrapper_bytes ws)) = 127 * length ws"
  by (induction ws) (auto simp: length_wrapper_bytes)

lemma map_of_fst_None: "map fst ws = ps \<Longrightarrow> map_of ws k = None \<longleftrightarrow> k \<notin> set ps"
  by (auto simp: map_of_eq_None_iff simp flip: list.set_map)

lemma encrypted_frame:
  assumes "\<forall>w \<in> set ws. length (fst w) = 33 \<and> length (snd w) = (92 :: nat)" "length nonce = 12"
    "length p = length m + 16" "33 + length m + 127 * length ws < 2 ^ w"
  shows "length (group_frame nonce p ws) < 2 ^ w" "wrappers_ok ws"
  using assms length_wrappers [OF assms(1)] by (simp_all add: group_frame_def wrappers_ok_def)

section \<open>Panics\<close>

text \<open>A width with room to spare: no offset of the decoder can wrap.\<close>

lemma find_wrapper_no_panic:
  assumes "pos \<le> length ct" "length ct + 2 ^ 33 \<le> 2 ^ w"
  shows "find_wrapper w ct me n pos found \<noteq> Panic"
  using assms(1)
proof (induction n arbitrary: pos found)
  case (Suc n)
  have room: "us_add w a b = a + b" if "a \<le> length ct + 33" "b < 2 ^ 32" for a b
    using that assms(2) by (intro us_add_small) simp
  show ?case
  proof (cases "pos + 33 + 2 > length ct")
    case True
    then show ?thesis using Suc.prems room by simp
  next
    case False
    define lb where "lb = take 2 (drop (pos + 33) ct)"
    have "le_nat lb < 256 ^ 2" using le_nat_bound [of lb] False by (simp add: lb_def)
    then have l: "le_nat lb < 2 ^ 32" by simp
    show ?thesis
    proof (cases "pos + 33 + 2 + le_nat lb > length ct")
      case True
      then show ?thesis using False room l Suc.prems
        by (simp add: slice_range_def lb_def [symmetric] add.assoc)
    next
      case inside: False
      then show ?thesis
        using False room l Suc.prems Suc.IH [of "pos + 33 + 2 + le_nat lb"]
        by (simp add: slice_range_def lb_def [symmetric] add.assoc Let_def)
    qed
  qed
qed simp

lemma decrypt_no_panic:
  assumes "length ct + 2 ^ 33 \<le> 2 ^ w"
  shows "GroupSession_decrypt_as P w caller ct \<noteq> Panic"
proof (cases "length ct < 17")
  case True
  then show ?thesis by (simp add: GroupSession_decrypt_as_def)
next
  case False
  define lb where "lb = take 4 (drop 12 ct)"
  have "le_nat lb < 256 ^ 4" using le_nat_bound [of lb] False by (simp add: lb_def)
  then have l: "le_nat lb < 2 ^ 32" by simp
  have a: "us_add w 16 (le_nat lb) = 16 + le_nat lb" "us_add w (16 + le_nat lb) 1 = 16 + le_nat lb + 1"
    using l assms False by (simp_all)
  have s: "slice_range ct 0 12 = Return (take 12 ct)" "slice_range ct 12 16 = Return lb"
    using False by (simp_all add: slice_range_def lb_def)
  show ?thesis
  proof (cases "length ct < 16 + le_nat lb + 1")
    case True
    then show ?thesis using False a s by (simp add: GroupSession_decrypt_as_def)
  next
    case inside: False
    have "find_wrapper w ct me n (16 + le_nat lb + 1) None \<noteq> Panic" for me n
      using inside by (intro find_wrapper_no_panic assms) simp
    then show ?thesis using False inside a s
      by (auto simp: GroupSession_decrypt_as_def slice_range_def index_at_def run_bind_def Let_def
          split: run.splits)
  qed
qed

section \<open>Delivery\<close>

lemma roster_delivery:
  assumes "crypto_ok P" "honest P ks" "\<forall>i. seal_rand_ok (rnd i)" "length ks \<le> 255"
    and "gs_members g = map (IdentityKeyPair_public P) ks"
    and "length m + 16 < 2 ^ 32" "33 + length m + 127 * length ks < 2 ^ w"
  shows "\<exists>ct g'. GroupSession_encrypt_as P rnd m g = (Return (Inr ct), g') \<and>
    (\<forall>k. ikp_ok P k \<longrightarrow> GroupSession_decrypt_as P w (KeyPairCaller k) ct =
       Return (if IdentityKeyPair_public P k \<in> set (gs_members g) then Inr m
               else Inl (PermissionDenied, ''caller not a member'')))"
proof -
  obtain key nonce nk p ws where e: "length key = 32" "length nonce = 12"
    "aes_dec P key nonce p = Some m" "length p = length m + 16"
    "map fst ws = map (IdentityKeyPair_public P) ks"
    "\<forall>w \<in> set ws. length (fst w) = 33 \<and> length (snd w) = 92 \<and>
       (\<forall>k. ikp_ok P k \<longrightarrow> IdentityKeyPair_public P k = fst w \<longrightarrow>
          IdentityKeyPair_open_sealed P k (snd w) = Inr key)"
    "GroupSession_encrypt_as P rnd m g = (Return (Inr (group_frame nonce p ws)), g\<lparr>gs_chain_key := nk\<rparr>)"
    by (rule encrypt_as_honest [OF assms(1-5), of m])
  have n: "length ws = length ks" using arg_cong [OF e(5), of length] by simp
  have lens: "\<forall>w \<in> set ws. length (fst w) = 33 \<and> length (snd w) = 92" using e(6) by blast
  have fit: "length (group_frame nonce p ws) < 2 ^ w" "wrappers_ok ws"
    using encrypted_frame [OF lens e(2,4), of w] assms(7) n by simp_all
  have "GroupSession_decrypt_as P w (KeyPairCaller k) (group_frame nonce p ws) =
      Return (if IdentityKeyPair_public P k \<in> set (gs_members g) then Inr m
              else Inl (PermissionDenied, ''caller not a member''))" if k: "ikp_ok P k" for k
  proof -
    have pl: "length p < 2 ^ 32" "length ws \<le> 255" using assms(4,6) e(4) n by simp_all
    note d = open_frame [OF e(2) pl fit(2,1), of P "KeyPairCaller k"]
    show ?thesis
    proof (cases "map_of ws (IdentityKeyPair_public P k)")
      case None
      then have "IdentityKeyPair_public P k \<notin> set (gs_members g)"
        using map_of_fst_None [OF e(5)] assms(5) by simp
      then show ?thesis using d None by (simp add: Caller_public_def)
    next
      case (Some sealed)
      then have "(IdentityKeyPair_public P k, sealed) \<in> set ws" by (rule map_of_SomeD)
      then have "IdentityKeyPair_open_sealed P k sealed = Inr key" using e(6) k by auto
      moreover have "IdentityKeyPair_public P k \<in> set (gs_members g)"
        using map_of_fst_None [OF e(5), of "IdentityKeyPair_public P k"] Some assms(5) by auto
      ultimately show ?thesis
        using d Some e(1,3) by (simp add: Caller_public_def Caller_open_sealed_def open_payload_def)
    qed
  qed
  then show ?thesis using e(7) by blast
qed

section \<open>The chain before the first rotation\<close>

text \<open>Chain keys computed from a public key alone, and the sessions that are still on that chain.\<close>

fun public_chain :: "prims \<Rightarrow> PublicIdentityKey \<Rightarrow> nat \<Rightarrow> bytes run" where
  "public_chain P pub 0 = expand P pub ''chain'' 32"
| "public_chain P pub (Suc n) = run_bind (public_chain P pub n) (\<lambda>k. expand P k ''chain-ratchet'' 32)"

inductive unrotated :: "prims \<Rightarrow> PublicIdentityKey \<Rightarrow> GroupSession \<Rightarrow> bool" for P pub where
  created: "GroupSession_new P pub = Return g \<Longrightarrow> unrotated P pub g"
| added: "unrotated P pub g \<Longrightarrow> unrotated P pub (GroupSession_add_member m g)"
| encrypted: "unrotated P pub g \<Longrightarrow> GroupSession_encrypt_as P rnd m g = (r, g') \<Longrightarrow> unrotated P pub g'"

lemma encrypt_as_chain:
  assumes "GroupSession_encrypt_as P rnd m g = (r, g')"
  shows "gs_chain_key g' = gs_chain_key g \<or>
    expand P (gs_chain_key g) ''chain-ratchet'' 32 = Return (gs_chain_key g')"
  using assms by (auto simp: GroupSession_encrypt_as_def Let_def split: if_splits run.splits option.splits sum.splits)

lemma unrotated_chain: "unrotated P pub g \<Longrightarrow> \<exists>n. public_chain P pub n = Return (gs_chain_key g)"
proof (induction rule: unrotated.induct)
  case (created g)
  then have "public_chain P pub 0 = Return (gs_chain_key g)"
    by (auto simp: GroupSession_new_def PublicIdentityKey_to_bytes_def run_bind_def split: run.splits)
  then show ?case by blast
next
  case (added g m)
  then show ?case by (simp add: GroupSession_add_member_def)
next
  case (encrypted g rnd m r g')
  then obtain n where n: "public_chain P pub n = Return (gs_chain_key g)" by blast
  then have "public_chain P pub (Suc n) = expand P (gs_chain_key g) ''chain-ratchet'' 32" by simp
  then show ?case using n encrypt_as_chain [OF encrypted.hyps(2)] by metis
qed

lemma try_decrypt_frame:
  assumes "length n = 12" "length p < 2 ^ 32" "length (group_frame n p ws) < 2 ^ w"
    and "expand P k ''msg'' 32 = Return key"
  shows "GroupSession_try_decrypt_with_sender_key P w k (group_frame n p ws) = Return (open_payload P key n p)"
proof -
  let ?ct = "group_frame n p ws"
  define lb where "lb = le_bytes 4 (length p)"
  define tail where "tail = word_of_nat (length ws) # concat (map wrapper_bytes ws)"
  have lb: "length lb = 4" "le_nat lb = length p" using assms(2) by (simp_all add: lb_def)
  have ct: "?ct = n @ lb @ p @ tail" by (simp add: group_frame_def lb_def tail_def)
  have s: "slice_range ?ct 0 12 = Return n" "slice_range ?ct 12 16 = Return lb"
    "slice_range ?ct 16 (16 + length p) = Return p"
    using slice_middle [of ?ct "[]" n "lb @ p @ tail"] slice_middle [of ?ct n lb "p @ tail"]
      slice_middle [of ?ct "n @ lb" p tail] assms(1) lb
    by (simp_all add: ct)
  have "1 \<le> length tail" by (simp add: tail_def)
  then have "17 + length p \<le> length ?ct" using assms(1) lb by (simp add: ct)
  then show ?thesis
    using assms(3,4) s lb(2) by (simp add: GroupSession_try_decrypt_with_sender_key_def)
qed

section \<open>Properties\<close>

text \<open>
  C10: A message encrypted for a roster of up to 255 honest members is decrypted to the plaintext
  by every key pair on the roster and refused with \<open>PermissionDenied\<close> for every honest key pair
  that is not on it, on any target whose address width holds the frame.
\<close>

theorem group_message_reaches_exactly_the_roster:
  assumes "crypto_ok P" "honest P ks" "\<forall>i. seal_rand_ok (rnd i)" "length ks \<le> 255"
    and "gs_members g = map (IdentityKeyPair_public P) ks"
    and "length m + 16 < 2 ^ 32" "33 + length m + 127 * length ks < 2 ^ w"
  shows "\<exists>ct g'. GroupSession_encrypt_as P rnd m g = (Return (Inr ct), g') \<and>
    (\<forall>k. ikp_ok P k \<longrightarrow> GroupSession_decrypt_as P w (KeyPairCaller k) ct =
       Return (if IdentityKeyPair_public P k \<in> set (gs_members g) then Inr m
               else Inl (PermissionDenied, ''caller not a member'')))"
  using assms by (rule roster_delivery)

theorem group_message_reaches_exactly_the_roster_witness:
  "\<exists>ct g'. GroupSession_encrypt_as demo_prims (\<lambda>i. \<lparr>sr_eph = [7], sr_nonce = replicate 12 2\<rparr>) [42]
      \<lparr>gs_members = [IdentityKeyPair_public demo_prims (IdentityKeyPair_generate demo_prims [1])],
       gs_chain_key = replicate 32 9\<rparr> = (Return (Inr ct), g') \<and>
    GroupSession_decrypt_as demo_prims 64 (KeyPairCaller (IdentityKeyPair_generate demo_prims [1])) ct =
      Return (Inr [42])"
proof -
  let ?k = "IdentityKeyPair_generate demo_prims [1]"
  let ?g = "\<lparr>gs_members = map (IdentityKeyPair_public demo_prims) [?k], gs_chain_key = replicate 32 9\<rparr>"
  have "honest demo_prims [?k]" by (simp add: honest_def)
  from group_message_reaches_exactly_the_roster [OF demo_crypto_ok this,
      of "\<lambda>i. \<lparr>sr_eph = [7], sr_nonce = replicate 12 2\<rparr>" ?g "[42]" 64]
  obtain ct g' where ct: "GroupSession_encrypt_as demo_prims
      (\<lambda>i. \<lparr>sr_eph = [7], sr_nonce = replicate 12 2\<rparr>) [42] ?g = (Return (Inr ct), g')"
    "\<forall>k. ikp_ok demo_prims k \<longrightarrow> GroupSession_decrypt_as demo_prims 64 (KeyPairCaller k) ct =
       Return (if IdentityKeyPair_public demo_prims k \<in> set (gs_members ?g) then Inr [42]
               else Inl (PermissionDenied, ''caller not a member''))"
    by (auto simp: seal_rand_ok_def)
  have "GroupSession_decrypt_as demo_prims 64 (KeyPairCaller ?k) ct = Return (Inr [42])"
    using ct(2) [rule_format, of ?k] by simp
  then show ?thesis using ct(1) by auto
qed

text \<open>
  C11: Removing a member and rotating is one operation: afterwards the chain key is the fresh
  random value, the next message is refused for the removed key pair, and every remaining member
  still decrypts it.
\<close>

theorem removed_member_is_locked_out:
  assumes "crypto_ok P" "honest P ks" "\<forall>i. seal_rand_ok (rnd i)" "length ks \<le> 255"
    and "gs_members g = map (IdentityKeyPair_public P) ks"
    and "length m + 16 < 2 ^ 32" "33 + length m + 127 * length ks < 2 ^ w" "ikp_ok P out"
    and g1_def: "g1 = GroupSession_remove_member fresh (IdentityKeyPair_public P out) g"
  shows "gs_chain_key g1 = fresh \<and>
    (\<exists>ct g'. GroupSession_encrypt_as P rnd m g1 = (Return (Inr ct), g') \<and>
       GroupSession_decrypt_as P w (KeyPairCaller out) ct = Return (Inl (PermissionDenied, ''caller not a member'')) \<and>
       (\<forall>k \<in> set ks. IdentityKeyPair_public P k \<noteq> IdentityKeyPair_public P out \<longrightarrow>
          GroupSession_decrypt_as P w (KeyPairCaller k) ct = Return (Inr m)))"
proof -
  let ?pk = "IdentityKeyPair_public P"
  define ks1 where "ks1 = filter (\<lambda>k. ?pk k \<noteq> ?pk out) ks"
  have members: "gs_members g1 = map ?pk ks1"
    using assms(5) by (simp add: g1_def GroupSession_remove_member_def GroupSession_rotate_sender_key_def
        ks1_def filter_map comp_def)
  have le: "length ks1 \<le> length ks" by (simp add: ks1_def)
  have h1: "honest P ks1" using assms(2) by (auto simp: honest_def ks1_def)
  have h2: "length ks1 \<le> 255" using le assms(4) by linarith
  have fit: "33 + length m + 127 * length ks1 < 2 ^ w" using le assms(7) by linarith
  have out: "?pk out \<notin> set (gs_members g1)" by (auto simp: members ks1_def)
  have stay: "?pk k \<in> set (gs_members g1)" if "k \<in> set ks" "?pk k \<noteq> ?pk out" for k
    using that by (auto simp: members ks1_def)
  obtain ct g' where ct: "GroupSession_encrypt_as P rnd m g1 = (Return (Inr ct), g')"
    "\<forall>k. ikp_ok P k \<longrightarrow> GroupSession_decrypt_as P w (KeyPairCaller k) ct =
       Return (if ?pk k \<in> set (gs_members g1) then Inr m else Inl (PermissionDenied, ''caller not a member''))"
    using roster_delivery [OF assms(1) h1 assms(3) h2 members assms(6) fit] by blast
  have "gs_chain_key g1 = fresh"
    by (simp add: g1_def GroupSession_remove_member_def GroupSession_rotate_sender_key_def)
  then show ?thesis using ct out stay assms(2,8) by (auto simp: honest_def)
qed

theorem removed_member_is_locked_out_witness:
  "\<exists>ct. GroupSession_decrypt_as demo_prims 64 (KeyPairCaller (IdentityKeyPair_generate demo_prims [1])) ct =
     Return (Inl (PermissionDenied, ''caller not a member'')) \<and>
   GroupSession_decrypt_as demo_prims 64 (KeyPairCaller (IdentityKeyPair_generate demo_prims [2])) ct =
     Return (Inr [42])"
proof -
  let ?a = "IdentityKeyPair_generate demo_prims [1]" and ?b = "IdentityKeyPair_generate demo_prims [2]"
  let ?pk = "IdentityKeyPair_public demo_prims"
  let ?g = "\<lparr>gs_members = map ?pk [?a, ?b], gs_chain_key = replicate 32 9\<rparr>"
  have h: "honest demo_prims [?a, ?b]" by (simp add: honest_def)
  have r: "\<forall>i :: nat. seal_rand_ok \<lparr>sr_eph = [7], sr_nonce = replicate 12 2\<rparr>" by (simp add: seal_rand_ok_def)
  have ne: "?pk ?b \<noteq> ?pk ?a"
    by (simp add: IdentityKeyPair_public_def IdentityKeyPair_generate_def demo_prims_def pad_to_def)
  show ?thesis
    using removed_member_is_locked_out [OF demo_crypto_ok h r, of ?g "[42]" 64 ?a
        "GroupSession_remove_member (replicate 32 5) (?pk ?a) ?g" "replicate 32 5"] ne
    by auto
qed

text \<open>
  C38: Until the first rotation the chain key is a function of the sender's public key: for a
  session that has only been created, extended and used to encrypt, every further message can be
  decrypted by anyone from the sender's public identity key alone, without any private key.
\<close>

theorem unrotated_group_is_publicly_readable:
  assumes "crypto_ok P" "unrotated P pub g" "honest P ks" "\<forall>i. seal_rand_ok (rnd i)"
    and "length ks \<le> 255" "gs_members g = map (IdentityKeyPair_public P) ks"
    and "length m + 16 < 2 ^ 32" "33 + length m + 127 * length ks < 2 ^ w"
  shows "\<exists>ct g' n k. GroupSession_encrypt_as P rnd m g = (Return (Inr ct), g') \<and>
    public_chain P pub n = Return k \<and>
    GroupSession_try_decrypt_with_sender_key P w k ct = Return (Inr m)"
proof -
  obtain key nonce nk p ws where e: "expand P (gs_chain_key g) ''msg'' 32 = Return key"
    "length key = 32" "length nonce = 12"
    "aes_dec P key nonce p = Some m" "length p = length m + 16"
    "map fst ws = map (IdentityKeyPair_public P) ks"
    "\<forall>w \<in> set ws. length (fst w) = 33 \<and> length (snd w) = 92 \<and>
       (\<forall>k. ikp_ok P k \<longrightarrow> IdentityKeyPair_public P k = fst w \<longrightarrow>
          IdentityKeyPair_open_sealed P k (snd w) = Inr key)"
    "GroupSession_encrypt_as P rnd m g = (Return (Inr (group_frame nonce p ws)), g\<lparr>gs_chain_key := nk\<rparr>)"
    by (rule encrypt_as_honest [OF assms(1,3-6), of m])
  obtain n where n: "public_chain P pub n = Return (gs_chain_key g)"
    using unrotated_chain [OF assms(2)] by blast
  have "length ws = length ks" using arg_cong [OF e(6), of length] by simp
  moreover have "\<forall>w \<in> set ws. length (fst w) = 33 \<and> length (snd w) = 92" using e(7) by blast
  ultimately have fit: "length (group_frame nonce p ws) < 2 ^ w"
    using encrypted_frame(1) [of ws nonce p m w] e(3,5) assms(8) by simp
  have "length p < 2 ^ 32" using e(5) assms(7) by simp
  from try_decrypt_frame [OF e(3) this fit e(1)]
  have "GroupSession_try_decrypt_with_sender_key P w (gs_chain_key g) (group_frame nonce p ws) = Return (Inr m)"
    using e(2,4) by (simp add: open_payload_def)
  then show ?thesis using e(8) n by blast
qed

theorem unrotated_group_is_publicly_readable_witness:
  "\<exists>g ct n k. GroupSession_new demo_prims [5] = Return g \<and> public_chain demo_prims [5] n = Return k \<and>
     GroupSession_try_decrypt_with_sender_key demo_prims 64 k ct = Return (Inr [42])"
proof -
  obtain g where g: "GroupSession_new demo_prims [5] = Return g" "gs_members g = []"
    by (simp add: GroupSession_new_def expand_def demo_prims_def PublicIdentityKey_to_bytes_def)
  have r: "\<forall>i :: nat. seal_rand_ok \<lparr>sr_eph = [7], sr_nonce = replicate 12 2\<rparr>" by (simp add: seal_rand_ok_def)
  have h: "honest demo_prims []" by (simp add: honest_def)
  from unrotated_group_is_publicly_readable [OF demo_crypto_ok unrotated.created [OF g(1)] h r, of "[42]" 64]
  show ?thesis using g by auto
qed

text \<open>
  C39: With 64-bit offsets \<open>decrypt_as\<close> never panics, whatever the bytes (a Rust slice is shorter
  than \<open>2^63\<close>). With 32-bit offsets the
  17-byte input whose length field is \<open>0xFFFFFFFF\<close> passes the length check by wrapping and the
  slice panics.
\<close>

theorem decrypt_as_panics_only_on_narrow_targets:
  "(\<forall>ct. length ct < 2 ^ 63 \<longrightarrow> GroupSession_decrypt_as P 64 caller ct \<noteq> Panic) \<and>
   GroupSession_decrypt_as P 32 caller (replicate 12 0 @ [255, 255, 255, 255, 0]) = Panic"
proof
  show "\<forall>ct. length ct < 2 ^ 63 \<longrightarrow> GroupSession_decrypt_as P 64 caller ct \<noteq> Panic"
    by (intro allI impI decrypt_no_panic) simp
  let ?ct = "replicate 12 0 @ [255, 255, 255, 255, 0] :: bytes"
  have s: "slice_range ?ct 0 12 = Return (replicate 12 0)" "slice_range ?ct 12 16 = Return [255, 255, 255, 255]"
    by (simp_all add: slice_range_def)
  have "le_nat [255, 255, 255, 255] = 2 ^ 32 - 1" by simp
  then show "GroupSession_decrypt_as P 32 caller ?ct = Panic"
    by (simp add: GroupSession_decrypt_as_def s us_add_def slice_range_def [of ?ct 16])
qed

theorem decrypt_as_panics_only_on_narrow_targets_witness:
  "GroupSession_decrypt_as demo_prims 64 (NonMemberCaller [5]) (replicate 12 0 @ [255, 255, 255, 255, 0]) \<noteq> Panic \<and>
   GroupSession_decrypt_as demo_prims 32 (NonMemberCaller [5]) (replicate 12 0 @ [255, 255, 255, 255, 0]) = Panic"
  using decrypt_as_panics_only_on_narrow_targets [of demo_prims "NonMemberCaller [5]"] by simp

text \<open>
  A caller that only claims a public key decrypts nothing, for any bytes and any width: with
  no private key every path ends in an error or a panic.
\<close>

theorem non_member_never_decrypts:
  "GroupSession_decrypt_as P w (NonMemberCaller pk) ct \<noteq> Return (Inr m)"
  by (auto simp: GroupSession_decrypt_as_def Caller_open_sealed_def run_bind_def Let_def
      split: if_splits run.splits sum.splits option.splits)

end
