(* ===== verification/Device_Link.thy ===== *)
theory Device_Link
  imports Prelude
begin

text \<open>
  Device linking: primary-signed device identities and the device set, safety numbers
  (\<open>core/crypto/src/lib.rs\<close>) and the QR payload (\<open>core/crypto/src/device_qr.rs\<close>). libsignal's
  alternate-identity signatures and fingerprints and the QR encoder are the parameter record
  \<open>link_lib\<close>; identity keys are their serialized bytes.
\<close>

section \<open>The libraries\<close>

text \<open>
  \<open>fingerprint\<close> is \<open>Fingerprint::new\<close> at the given version and iteration count followed by
  \<open>display_string\<close>; both report errors the code does not tell apart.
\<close>

record link_lib =
  identity_of :: "bytes \<Rightarrow> bytes"
  sign_alternate :: "bytes \<Rightarrow> bytes \<Rightarrow> bytes \<Rightarrow> bytes option"
  verify_alternate :: "bytes \<Rightarrow> bytes \<Rightarrow> bytes \<Rightarrow> bool option"
  decode_identity :: "bytes \<Rightarrow> bytes option"
  fingerprint :: "u32 \<Rightarrow> u32 \<Rightarrow> bytes \<Rightarrow> bytes \<Rightarrow> bytes \<Rightarrow> bytes \<Rightarrow> string option"
  qr_encodable :: "bytes \<Rightarrow> string + unit"

text \<open>An honest link signature verifies; a fingerprint does not depend on which side asks.\<close>

definition link_ok :: "link_lib \<Rightarrow> bool" where
  "link_ok K \<longleftrightarrow>
     (\<forall>p d r. \<exists>s. sign_alternate K p d r = Some s \<and> verify_alternate K (identity_of K p) d s = Some True) \<and>
     (\<forall>v n i a j b. fingerprint K v n i a j b = fingerprint K v n j b i a) \<and>
     (\<forall>bs. length bs \<le> 66 \<longrightarrow> qr_encodable K bs = Inr ())"

text \<open>A key pair is named by the secret it was generated from.\<close>

definition generate_identity_key_pair :: "bytes \<Rightarrow> bytes" where
  "generate_identity_key_pair secret = secret"

section \<open>Linked devices\<close>

datatype DeviceLinkError = SigningFailed | InvalidLinkSignature

definition DeviceLinkError_display :: "DeviceLinkError \<Rightarrow> string" where
  "DeviceLinkError_display e =
     (case e of
        SigningFailed \<Rightarrow> ''device-identity signing failed''
      | InvalidLinkSignature \<Rightarrow> ''invalid or missing device-identity signature'')"

definition sign_device_identity :: "link_lib \<Rightarrow> bytes \<Rightarrow> bytes \<Rightarrow> bytes \<Rightarrow> DeviceLinkError + bytes" where
  "sign_device_identity K rnd primary device_identity_key =
     ok_or SigningFailed (sign_alternate K primary device_identity_key rnd)"

definition verify_device_identity :: "link_lib \<Rightarrow> bytes \<Rightarrow> bytes \<Rightarrow> bytes \<Rightarrow> bool" where
  "verify_device_identity K primary_identity_key device_identity_key signature =
     (case verify_alternate K primary_identity_key device_identity_key signature of
        None \<Rightarrow> False | Some b \<Rightarrow> b)"

record DeviceSet =
  ds_primary_identity_key :: bytes
  ds_linked_devices :: "bytes list"

definition DeviceSet_new :: "bytes \<Rightarrow> DeviceSet" where
  "DeviceSet_new k = \<lparr>ds_primary_identity_key = k, ds_linked_devices = []\<rparr>"

definition DeviceSet_primary_identity_key :: "DeviceSet \<Rightarrow> bytes" where
  "DeviceSet_primary_identity_key s = ds_primary_identity_key s"

definition DeviceSet_linked_devices :: "DeviceSet \<Rightarrow> bytes list" where
  "DeviceSet_linked_devices s = ds_linked_devices s"

definition DeviceSet_add_device ::
  "link_lib \<Rightarrow> bytes \<Rightarrow> bytes \<Rightarrow> DeviceSet \<Rightarrow> (DeviceLinkError + unit) \<times> DeviceSet" where
  "DeviceSet_add_device K device_identity_key signature s =
     (if \<not> verify_device_identity K (ds_primary_identity_key s) device_identity_key signature
      then (Inl InvalidLinkSignature, s)
      else (Inr (), s\<lparr>ds_linked_devices := ds_linked_devices s @ [device_identity_key]\<rparr>))"

section \<open>Safety numbers\<close>

definition SAFETY_NUMBER_VERSION :: u32 where "SAFETY_NUMBER_VERSION = 1"
definition SAFETY_NUMBER_ITERATIONS :: u32 where "SAFETY_NUMBER_ITERATIONS = 5200"

datatype SafetyNumberError = InvalidIdentityKey

definition SafetyNumberError_display :: "SafetyNumberError \<Rightarrow> string" where
  "SafetyNumberError_display e = (case e of InvalidIdentityKey \<Rightarrow> ''malformed or unrecognized identity key'')"

definition derive_safety_number ::
  "link_lib \<Rightarrow> bytes \<Rightarrow> bytes \<Rightarrow> bytes \<Rightarrow> bytes \<Rightarrow> SafetyNumberError + string" where
  "derive_safety_number K local_id local_identity_key remote_id remote_identity_key =
     and_then (ok_or InvalidIdentityKey (decode_identity K local_identity_key)) (\<lambda>local_key.
     and_then (ok_or InvalidIdentityKey (decode_identity K remote_identity_key)) (\<lambda>remote_key.
       ok_or InvalidIdentityKey
         (fingerprint K SAFETY_NUMBER_VERSION SAFETY_NUMBER_ITERATIONS local_id local_key remote_id remote_key)))"

section \<open>QR payloads\<close>

datatype QrError = EncodeFailed string | InvalidPayload string | KeyError string

definition QrError_display :: "QrError \<Rightarrow> string" where
  "QrError_display e =
     (case e of
        EncodeFailed msg \<Rightarrow> ''QR encode failed: '' @ msg
      | InvalidPayload msg \<Rightarrow> ''invalid QR payload: '' @ msg
      | KeyError msg \<Rightarrow> ''key error: '' @ msg)"

definition encode_device_qr :: "link_lib \<Rightarrow> bytes \<Rightarrow> QrError + string" where
  "encode_device_qr K identity_public_key_bytes =
     (let hex_payload = hex_encode identity_public_key_bytes
      in and_then (map_err EncodeFailed (qr_encodable K (str_bytes hex_payload))) (\<lambda>_. Inr hex_payload))"

text \<open>\<open>char::is_ascii_hexdigit\<close> and the digit value \<open>u8::from_str_radix(_, 16)\<close> gives it.\<close>

definition hex_value :: "char \<Rightarrow> nat option" where
  "hex_value c =
     (let n = of_char c :: nat in
      if 48 \<le> n \<and> n \<le> 57 then Some (n - 48)
      else if 97 \<le> n \<and> n \<le> 102 then Some (n - 87)
      else if 65 \<le> n \<and> n \<le> 70 then Some (n - 55)
      else None)"

definition is_ascii_hexdigit :: "char \<Rightarrow> bool" where
  "is_ascii_hexdigit c \<longleftrightarrow> hex_value c \<noteq> None"

text \<open>The \<open>step_by(2)\<close> loop; the two-character slices are hex digits by the check before it.\<close>

fun decode_pairs :: "string \<Rightarrow> QrError + bytes" where
  "decode_pairs [] = Inr []"
| "decode_pairs [c] = Inl (InvalidPayload ''payload has odd length, not valid hex encoding'')"
| "decode_pairs (c # d # s) =
     (case (hex_value c, hex_value d) of
        (Some h, Some l) \<Rightarrow> and_then (decode_pairs s) (\<lambda>bs. Inr (word_of_nat (16 * h + l) # bs))
      | _ \<Rightarrow> Inl (InvalidPayload ''invalid digit found in string''))"

definition decode_device_qr :: "string \<Rightarrow> QrError + bytes" where
  "decode_device_qr qr_payload =
     (if \<not> list_all is_ascii_hexdigit qr_payload then Inl (InvalidPayload ''payload contains non-hex characters'')
      else if odd (length qr_payload)
      then Inl (InvalidPayload ''payload has odd length, not valid hex encoding'')
      else and_then (decode_pairs qr_payload) (\<lambda>bs.
        if length bs \<noteq> 33
        then Inl (InvalidPayload (''decoded '' @ show_nat (length bs)
               @ '' bytes, expected 33 (serialized identity key length)''))
        else Inr bs))"

definition safety_number_for_display :: "link_lib \<Rightarrow> bytes \<Rightarrow> bytes \<Rightarrow> QrError + string" where
  "safety_number_for_display K primary_key new_device_key =
     map_err (\<lambda>e. KeyError (SafetyNumberError_display e))
       (derive_safety_number K primary_key primary_key new_device_key new_device_key)"

section \<open>Lemmas\<close>

definition ascii_lower :: "char \<Rightarrow> char" where
  "ascii_lower c = (if 65 \<le> (of_char c :: nat) \<and> (of_char c :: nat) \<le> 70 then char_of ((of_char c :: nat) + 32) else c)"

lemma hex_value_digit: "d < 16 \<Longrightarrow> hex_value (hex_digit d) = Some d"
  by (auto simp: hex_value_def hex_digit_def Let_def)

lemma hex_value_sound: "hex_value c = Some h \<Longrightarrow> h < 16 \<and> hex_digit h = ascii_lower c"
  by (auto simp: hex_value_def Let_def hex_digit_def ascii_lower_def split: if_splits)

lemma decode_pairs_encoded: "decode_pairs (hex_encode bs) = Inr bs"
proof (induction bs)
  case (Cons b bs)
  have "16 * (unat b div 16) + unat b mod 16 = unat b" by simp
  then show ?case
    using Cons hex_value_digit [OF nibbles(1), of b] hex_value_digit [OF nibbles(2), of b]
    by (simp add: hex_encode_def hex_byte_def)
qed (simp add: hex_encode_def)

lemma hex_byte_of_digits:
  assumes "h < 16" "l < 16"
  shows "hex_byte (word_of_nat (16 * h + l)) = [hex_digit h, hex_digit l]"
proof -
  have "unat (word_of_nat n :: u8) = n" if "n < 256" for n using that by (simp add: unat_of_nat)
  moreover have "16 * h + l < 256" using assms by simp
  ultimately have "unat (word_of_nat (16 * h + l) :: u8) = 16 * h + l" by blast
  then show ?thesis using assms(2) unfolding hex_byte_def by simp
qed

lemma decode_pairs_sound: "decode_pairs s = Inr bs \<Longrightarrow> hex_encode bs = map ascii_lower s"
proof (induction s arbitrary: bs rule: decode_pairs.induct)
  case (3 c d s)
  then obtain h l bs' where "hex_value c = Some h" "hex_value d = Some l" "decode_pairs s = Inr bs'"
    "bs = word_of_nat (16 * h + l) # bs'"
    by (auto simp: and_then_Inr split: option.splits)
  with 3(1) hex_value_sound [of c h] hex_value_sound [of d l] show ?case
    by (simp add: hex_encode_def hex_byte_of_digits del: of_nat_add of_nat_mult)
qed (simp_all add: hex_encode_def)

lemma hex_encode_digits: "list_all is_ascii_hexdigit (hex_encode bs)"
proof -
  have "is_ascii_hexdigit (hex_digit d)" if "d < 16" for d using hex_value_digit [OF that] by (simp add: is_ascii_hexdigit_def)
  then have "list_all is_ascii_hexdigit (hex_byte b)" for b using nibbles [of b] by (simp add: hex_byte_def)
  then show ?thesis by (induction bs) (simp_all add: hex_encode_def)
qed

lemma decode_encoded: "length k = 33 \<Longrightarrow> decode_device_qr (hex_encode k) = Inr k"
  by (simp add: decode_device_qr_def hex_encode_digits length_hex_encode decode_pairs_encoded)

lemma encode_ok: "link_ok K \<Longrightarrow> length k = 33 \<Longrightarrow> encode_device_qr K k = Inr (hex_encode k)"
  by (simp add: encode_device_qr_def link_ok_def str_bytes_def length_hex_encode map_err_def)

section \<open>A concrete instance\<close>

definition demo_link :: link_lib where
  "demo_link = \<lparr>identity_of = (\<lambda>p. p), sign_alternate = (\<lambda>p d r. Some (p @ d)),
     verify_alternate = (\<lambda>p d s. Some (s = p @ d)), decode_identity = Some,
     fingerprint = (\<lambda>v n i a j b. Some ''12345''), qr_encodable = (\<lambda>_. Inr ())\<rparr>"

lemma demo_link_ok: "link_ok demo_link"
  by (simp add: link_ok_def demo_link_def)

section \<open>Properties\<close>

text \<open>
  C27: The QR payload of a 33-byte identity key decodes to that key; and whatever decodes is a
  66-character string whose lower-case form is the payload of the decoded key, so the payload
  determines the key up to letter case and nothing else is accepted.
\<close>

theorem qr_payload_round_trips:
  assumes "link_ok K" "length k = 33"
  shows "(\<exists>s. encode_device_qr K k = Inr s \<and> decode_device_qr s = Inr k) \<and>
    (\<forall>s k'. decode_device_qr s = Inr k' \<longrightarrow>
       length s = 66 \<and> length k' = 33 \<and> encode_device_qr K k' = Inr (map ascii_lower s))"
proof (intro conjI allI impI)
  show "\<exists>s. encode_device_qr K k = Inr s \<and> decode_device_qr s = Inr k"
    using encode_ok [OF assms] decode_encoded [OF assms(2)] by blast
  fix s k'
  assume "decode_device_qr s = Inr k'"
  then have d: "decode_pairs s = Inr k'" "length k' = 33"
    by (auto simp: decode_device_qr_def and_then_Inr split: if_splits)
  have h: "hex_encode k' = map ascii_lower s" by (rule decode_pairs_sound [OF d(1)])
  have "length (hex_encode k') = 66" using d(2) by (simp add: length_hex_encode)
  then show "length s = 66" by (simp add: h)
  show "length k' = 33" by (rule d(2))
  show "encode_device_qr K k' = Inr (map ascii_lower s)" using encode_ok [OF assms(1) d(2)] h by simp
qed

theorem qr_payload_round_trips_witness:
  "\<exists>s. encode_device_qr demo_link (5 # replicate 32 171) = Inr s \<and> decode_device_qr s = Inr (5 # replicate 32 171)"
  using qr_payload_round_trips [OF demo_link_ok, of "5 # replicate 32 171"] by simp

text \<open>
  C26: A device set holds exactly the devices its primary vouched for: after any sequence of admissions
  the linked devices are, in order, those whose signature verifies under the primary's key, a
  refused admission changes nothing, and the primary key never changes.
\<close>

theorem only_vouched_devices_are_linked:
  "fold (\<lambda>(d, sg) s. snd (DeviceSet_add_device K d sg s)) calls (DeviceSet_new p) =
     \<lparr>ds_primary_identity_key = p,
      ds_linked_devices = map fst (filter (\<lambda>(d, sg). verify_alternate K p d sg = Some True) calls)\<rparr>"
proof -
  have "fold (\<lambda>(d, sg) s. snd (DeviceSet_add_device K d sg s)) calls \<lparr>ds_primary_identity_key = p, ds_linked_devices = l\<rparr> =
     \<lparr>ds_primary_identity_key = p,
      ds_linked_devices = l @ map fst (filter (\<lambda>(d, sg). verify_alternate K p d sg = Some True) calls)\<rparr>" for l
    by (induction calls arbitrary: l)
      (auto simp: DeviceSet_add_device_def verify_device_identity_def split: option.splits)
  then show ?thesis by (simp add: DeviceSet_new_def)
qed

text \<open>
  The linking flow works end to end: the payload a new device shows decodes, on the primary, to
  the new device's key; both sides derive the same safety number; and the primary's signature
  over the decoded key is admitted by every device set of that primary.
\<close>

theorem scanned_device_is_linked:
  assumes "link_ok K" "length device_key = 33" "ds_primary_identity_key s = identity_of K primary"
  shows "\<exists>payload sg. encode_device_qr K device_key = Inr payload \<and> decode_device_qr payload = Inr device_key \<and>
    sign_device_identity K rnd primary device_key = Inr sg \<and>
    DeviceSet_add_device K device_key sg s = (Inr (), s\<lparr>ds_linked_devices := ds_linked_devices s @ [device_key]\<rparr>) \<and>
    safety_number_for_display K (identity_of K primary) device_key = safety_number_for_display K device_key (identity_of K primary)"
proof -
  obtain sg where "sign_alternate K primary device_key rnd = Some sg"
    "verify_alternate K (identity_of K primary) device_key sg = Some True"
    using assms(1) unfolding link_ok_def by blast
  then have "sign_device_identity K rnd primary device_key = Inr sg"
    "DeviceSet_add_device K device_key sg s = (Inr (), s\<lparr>ds_linked_devices := ds_linked_devices s @ [device_key]\<rparr>)"
    using assms(3) by (simp_all add: sign_device_identity_def ok_or_def DeviceSet_add_device_def verify_device_identity_def)
  moreover have "fingerprint K v n i a j b = fingerprint K v n j b i a" for v n i a j b
    using assms(1) unfolding link_ok_def by blast
  then have "safety_number_for_display K (identity_of K primary) device_key = safety_number_for_display K device_key (identity_of K primary)"
    by (simp add: safety_number_for_display_def derive_safety_number_def ok_or_def split: option.splits)
  ultimately show ?thesis using encode_ok [OF assms(1,2)] decode_encoded [OF assms(2)] by blast
qed

theorem scanned_device_is_linked_witness:
  "\<exists>sg. sign_device_identity demo_link [] [1] (5 # replicate 32 7) = Inr sg \<and>
     fst (DeviceSet_add_device demo_link (5 # replicate 32 7) sg (DeviceSet_new [1])) = Inr ()"
  using scanned_device_is_linked [OF demo_link_ok, of "5 # replicate 32 7" "DeviceSet_new [1]" "[1]" "[]"]
  by (auto simp: DeviceSet_new_def demo_link_def)

end
