(* ===== verification/Wasm_Bindings.thy ===== *)
theory Wasm_Bindings
  imports Ratchet_Session Group Device_Link
begin

text \<open>
  The facades that cross a language boundary: the browser API (\<open>core/bindings/wasm/src/lib.rs\<close>)
  and the Swift and Kotlin API (\<open>core/bindings/uniffi/src/lib.rs\<close>). Handles are newtypes around the
  core's values and are modelled by them; a handle taken by mutable reference, or mutated through
  its cell, is threaded and returned. The futures the facade polls never suspend, so the single
  poll of its \<open>block_on\<close> yields the value of the call. Randomness and time are arguments.
\<close>

section \<open>Errors\<close>

record WasmError =
  we_kind :: string
  we_message :: string

definition WasmError_new :: "string \<Rightarrow> string \<Rightarrow> WasmError" where
  "WasmError_new k msg = \<lparr>we_kind = k, we_message = msg\<rparr>"

definition WasmError_kind :: "WasmError \<Rightarrow> string" where
  "WasmError_kind e = we_kind e"

definition WasmError_message :: "WasmError \<Rightarrow> string" where
  "WasmError_message e = we_message e"

definition WasmError_from_session ::
  "('spk, 'otk, 'kpk, 'st) ratchet_lib \<Rightarrow> SessionError \<Rightarrow> WasmError" where
  "WasmError_from_session R err =
     (let k = (if (case err of SessPreKey _ \<Rightarrow> True | _ \<Rightarrow> False) \<or> is_prekey_signature_invalid err
               then ''PreKey'' else ''Session'')
      in WasmError_new k (SessionError_display R err))"

definition WasmError_from_io :: "io_error \<Rightarrow> WasmError" where
  "WasmError_from_io err =
     (let k = (if fst err = PermissionDenied then ''NotMember'' else ''Group'')
      in WasmError_new k (snd err))"

text \<open>\<open>map_err\<close> on the result of a call that may panic.\<close>

definition run_map_err :: "('e \<Rightarrow> 'f) \<Rightarrow> ('e + 'a) run \<Rightarrow> ('f + 'a) run" where
  "run_map_err f m = run_bind m (\<lambda>r. Return (map_err f r))"

lemma run_map_err_simps [simp]:
  "run_map_err f Panic = Panic" "run_map_err f (Return r) = Return (map_err f r)"
  by (simp_all add: run_map_err_def)

text \<open>
  \<open>block_on\<close>: one poll of a future (\<open>None\<close> for pending). The futures of the facade run in-memory
  session operations and are ready at that poll, so the definitions below give their value.
\<close>

definition block_on :: "'a option \<Rightarrow> 'a run" where
  "block_on poll = (case poll of Some v \<Rightarrow> Return v | None \<Rightarrow> Panic)"

section \<open>Identities\<close>

type_synonym IdentityHandle = IdentityKeyPair

definition IdentityHandle_public_bytes :: "prims \<Rightarrow> IdentityHandle \<Rightarrow> bytes" where
  "IdentityHandle_public_bytes P h = PublicIdentityKey_to_bytes (IdentityKeyPair_public P h)"

text \<open>\<open>pair_serialize\<close> is libsignal's serialization of a key pair.\<close>

definition IdentityHandle_private_bytes :: "(bytes \<times> bytes \<Rightarrow> bytes) \<Rightarrow> IdentityHandle \<Rightarrow> bytes" where
  "IdentityHandle_private_bytes pair_serialize h = pair_serialize (ikp_private h, ikp_public h)"

definition wasm_generate_identity :: "prims \<Rightarrow> bytes \<Rightarrow> IdentityHandle" where
  "wasm_generate_identity P secret = IdentityKeyPair_generate P secret"

definition wasm_identity_from_bytes :: "prims \<Rightarrow> bytes \<Rightarrow> WasmError + IdentityHandle" where
  "wasm_identity_from_bytes P bs = map_err (WasmError_new ''Identity'') (IdentityKeyPair_from_bytes P bs)"

text \<open>\<open>as_libsignal\<close>: the session layer names a key pair by its private half.\<close>

definition as_libsignal :: "IdentityHandle \<Rightarrow> bytes" where
  "as_libsignal h = ikp_private h"

section \<open>Sessions\<close>

type_synonym ('spk, 'otk, 'kpk, 'st) SessionHandle = "('spk, 'otk, 'kpk, 'st) DoubleRatchetSession"

definition create_receiver_session ::
  "session_lib \<Rightarrow> ('spk, 'otk) signal_lib \<Rightarrow> ('spk, 'otk, 'kpk, 'st) ratchet_lib \<Rightarrow> bob_rand \<Rightarrow> IdentityHandle \<Rightarrow>
   (WasmError + ('spk, 'otk, 'kpk, 'st) SessionHandle) run" where
  "create_receiver_session L S R w h =
     run_map_err (WasmError_from_session R) (DoubleRatchetSession_new_bob L S R w (as_libsignal h))"

definition publish_bundle_bytes ::
  "session_lib \<Rightarrow> ('spk, 'otk) signal_lib \<Rightarrow> ('spk, 'otk, 'kpk) record_lib \<Rightarrow> ('spk, 'otk, 'kpk, 'st) ratchet_lib \<Rightarrow>
   ('spk, 'otk, 'kpk, 'st) SessionHandle \<Rightarrow> (WasmError + bytes) run" where
  "publish_bundle_bytes L S A R session =
     try_bind (run_map_err (WasmError_from_session R) (DoubleRatchetSession_publish_bundle L S A session)) (\<lambda>bundle.
       Return (map_err (\<lambda>e. WasmError_new ''PreKey'' (signal_display R e)) (bundle_to_bytes bundle)))"

definition wasm_encrypt_message ::
  "('spk, 'otk, 'kpk, 'st) ratchet_lib \<Rightarrow> u64 \<Rightarrow> bytes \<Rightarrow> bytes \<Rightarrow> ('spk, 'otk, 'kpk, 'st) SessionHandle \<Rightarrow>
   (WasmError + bytes) \<times> ('spk, 'otk, 'kpk, 'st) SessionHandle" where
  "wasm_encrypt_message R now rnd plaintext session =
     apfst (map_err (WasmError_from_session R)) (DoubleRatchetSession_encrypt R now rnd plaintext session)"

definition wasm_decrypt_message ::
  "session_lib \<Rightarrow> ('spk, 'otk, 'kpk, 'st) ratchet_lib \<Rightarrow> bytes \<Rightarrow> bytes \<Rightarrow> ('spk, 'otk, 'kpk, 'st) SessionHandle \<Rightarrow>
   ((WasmError + bytes) \<times> ('spk, 'otk, 'kpk, 'st) SessionHandle) run" where
  "wasm_decrypt_message L R rnd envelope session =
     run_bind (DoubleRatchetSession_decrypt L R rnd envelope session) (\<lambda>r.
       Return (apfst (map_err (WasmError_from_session R)) r))"

definition generate_prekey_bundle ::
  "session_lib \<Rightarrow> ('spk, 'otk) signal_lib \<Rightarrow> ('spk, 'otk, 'kpk) record_lib \<Rightarrow> ('spk, 'otk, 'kpk, 'st) ratchet_lib \<Rightarrow>
   bob_rand \<Rightarrow> IdentityHandle \<Rightarrow> (WasmError + bytes) run" where
  "generate_prekey_bundle L S A R w h =
     try_bind (run_map_err (WasmError_from_session R) (DoubleRatchetSession_new_bob L S R w (as_libsignal h))) (\<lambda>bob.
     try_bind (run_map_err (WasmError_from_session R) (DoubleRatchetSession_publish_bundle L S A bob)) (\<lambda>bundle.
       Return (map_err (\<lambda>e. WasmError_new ''PreKey'' (signal_display R e)) (bundle_to_bytes bundle))))"

definition malformed_bundle :: "'e \<Rightarrow> WasmError" where
  "malformed_bundle _ = WasmError_new ''MalformedBundle'' ''malformed or truncated prekey bundle bytes''"

definition establish_session_from_bundle ::
  "session_lib \<Rightarrow> ('spk, 'otk) signal_lib \<Rightarrow> ('spk, 'otk, 'kpk, 'st) ratchet_lib \<Rightarrow> u64 \<Rightarrow> bytes \<Rightarrow> IdentityHandle \<Rightarrow>
   bytes \<Rightarrow> (WasmError + ('spk, 'otk, 'kpk, 'st) SessionHandle) run" where
  "establish_session_from_bundle L S R now rnd h bundle_bytes =
     try_bind (run_map_err malformed_bundle (bundle_from_bytes L bundle_bytes)) (\<lambda>bundle.
       run_map_err (WasmError_from_session R) (DoubleRatchetSession_new_alice L S R now rnd (as_libsignal h) bundle))"

text \<open>
  \<open>read_identity_key\<close> is libsignal's fallible accessor of a bundle's identity key, with its error rendered;
  on a bundle that has all its parts it yields the key.
\<close>

definition bundle_identity_key_bytes ::
  "session_lib \<Rightarrow> (SigBundle \<Rightarrow> string + bytes) \<Rightarrow> bytes \<Rightarrow> (WasmError + bytes) run" where
  "bundle_identity_key_bytes L read_identity_key bundle_bytes =
     try_bind (run_map_err malformed_bundle (bundle_from_bytes L bundle_bytes)) (\<lambda>bundle.
       Return (map_err (\<lambda>e. WasmError_new ''MalformedBundle'' e) (read_identity_key bundle)))"

definition wasm_establish_with_malformed_prekey ::
  "session_lib \<Rightarrow> ('spk, 'otk) signal_lib \<Rightarrow> ('spk, 'otk, 'kpk) record_lib \<Rightarrow> ('spk, 'otk, 'kpk, 'st) ratchet_lib \<Rightarrow>
   bob_rand \<Rightarrow> u64 \<Rightarrow> bytes \<Rightarrow> bytes \<Rightarrow> bytes \<Rightarrow> (WasmError + unit) run" where
  "wasm_establish_with_malformed_prekey L S A R w now rnd bob_identity alice_identity =
     run_map_err (WasmError_from_session R)
       (establish_with_malformed_prekey L S A R w now rnd bob_identity alice_identity)"

section \<open>Groups\<close>

text \<open>
  A group handle is the session; \<open>group_add_member\<close> and \<open>group_remove_member\<close> clone it and leave
  the handle they were given as it was, \<open>group_encrypt\<close> ratchets the chain key in the handle's cell.
\<close>

type_synonym GroupHandle = GroupSession

definition group_create :: "prims \<Rightarrow> IdentityHandle \<Rightarrow> GroupHandle run" where
  "group_create P sender = GroupSession_new P (IdentityKeyPair_public P sender)"

definition group_add_member :: "bytes \<Rightarrow> GroupHandle \<Rightarrow> GroupHandle" where
  "group_add_member member_pub_bytes g =
     GroupSession_add_member (PublicIdentityKey_from_bytes member_pub_bytes) g"

definition group_remove_member :: "bytes \<Rightarrow> bytes \<Rightarrow> GroupHandle \<Rightarrow> GroupHandle" where
  "group_remove_member fresh member_pub_bytes g =
     GroupSession_remove_member fresh (PublicIdentityKey_from_bytes member_pub_bytes) g"

definition group_encrypt ::
  "prims \<Rightarrow> (nat \<Rightarrow> seal_rand) \<Rightarrow> IdentityHandle \<Rightarrow> bytes \<Rightarrow> GroupHandle \<Rightarrow> (WasmError + bytes) run \<times> GroupHandle" where
  "group_encrypt P rnd sender plaintext g =
     apfst (run_map_err WasmError_from_io) (GroupSession_encrypt_as P rnd plaintext g)"

definition group_decrypt ::
  "prims \<Rightarrow> nat \<Rightarrow> IdentityHandle \<Rightarrow> bytes \<Rightarrow> (WasmError + bytes) run" where
  "group_decrypt P w member ciphertext =
     run_map_err WasmError_from_io (GroupSession_decrypt_as P w (KeyPairCaller member) ciphertext)"

section \<open>Safety numbers and QR payloads\<close>

definition wasm_derive_safety_number :: "link_lib \<Rightarrow> bytes \<Rightarrow> bytes \<Rightarrow> WasmError + string" where
  "wasm_derive_safety_number K local_key remote_key =
     map_err (\<lambda>e. WasmError_new ''SafetyNumber'' (QrError_display e)) (safety_number_for_display K local_key remote_key)"

definition wasm_encode_device_qr :: "link_lib \<Rightarrow> bytes \<Rightarrow> WasmError + string" where
  "wasm_encode_device_qr K identity_public_key_bytes =
     map_err (\<lambda>e. WasmError_new ''QrEncode'' (QrError_display e)) (encode_device_qr K identity_public_key_bytes)"

definition wasm_decode_device_qr :: "string \<Rightarrow> WasmError + bytes" where
  "wasm_decode_device_qr qr_payload =
     map_err (\<lambda>e. WasmError_new ''QrDecode'' (QrError_display e)) (decode_device_qr qr_payload)"

section \<open>The Swift and Kotlin facade\<close>

definition ffi_generate_identity :: "prims \<Rightarrow> bytes \<Rightarrow> IdentityKeyPair" where
  "ffi_generate_identity P secret = IdentityKeyPair_generate P secret"

definition ffi_public_bytes :: "prims \<Rightarrow> IdentityKeyPair \<Rightarrow> bytes" where
  "ffi_public_bytes P h = PublicIdentityKey_to_bytes (IdentityKeyPair_public P h)"

datatype FfiError = InvalidKey | EncryptionFailed

definition FfiError_from :: "SealError \<Rightarrow> FfiError" where
  "FfiError_from e = (case e of SealMalformed \<Rightarrow> InvalidKey | SealDecryptionFailed \<Rightarrow> EncryptionFailed)"

definition FfiError_display :: "FfiError \<Rightarrow> string" where
  "FfiError_display e = (case e of InvalidKey \<Rightarrow> ''invalid key material'' | EncryptionFailed \<Rightarrow> ''encryption failed'')"

definition ffi_encrypt_message :: "prims \<Rightarrow> seal_rand \<Rightarrow> bytes \<Rightarrow> bytes \<Rightarrow> FfiError + bytes" where
  "ffi_encrypt_message P rnd key_bytes plaintext =
     map_err FfiError_from (PublicIdentityKey_seal P rnd (PublicIdentityKey_from_bytes key_bytes) plaintext)"

section \<open>Lemmas\<close>

text \<open>
  Keys and signatures the receiver draws are of a size the byte format holds, and its library
  parses the keys it made.
\<close>

definition keys_serializable ::
  "session_lib \<Rightarrow> ('spk, 'otk) signal_lib \<Rightarrow> ('spk, 'otk, 'kpk, 'st) ratchet_lib \<Rightarrow> bob_rand \<Rightarrow> bytes \<Rightarrow> bool" where
  "keys_serializable L S R w identity \<longleftrightarrow>
     identity_parses L (public_identity S identity) \<and> length (public_identity S identity) < 2 ^ 32 \<and>
     (\<forall>k \<in> {br_signed_secret w, br_one_time_secrets w 0}.
        public_parses L (key_public S k) \<and> length (key_public S k) < 2 ^ 32) \<and>
     kyber_parses L (kem_public R (br_kyber_secret w)) \<and> length (kem_public R (br_kyber_secret w)) < 2 ^ 32 \<and>
     (\<forall>s. sign S identity (key_public S (br_signed_secret w)) (br_signed_rnd w) = Some s \<longrightarrow> length s < 2 ^ 32) \<and>
     (\<forall>s. calculate_signature R identity (kem_public R (br_kyber_secret w)) (br_kyber_rnd w) = Inr s \<longrightarrow>
        length s < 2 ^ 32)"

lemma published_bundle_ok:
  assumes "library_ok L S A R" "keys_serializable L S R w identity"
    and "DoubleRatchetSession_new_bob L S R w identity = Return (Inr bob)"
    and "DoubleRatchetSession_publish_bundle L S A bob = Return (Inr b)"
  shows "sig_bundle_ok L b" "sb_identity_key b = public_identity S identity"
proof -
  obtain spk kpk otk st where p: "prepared S R w identity spk kpk otk st" by (rule prepared_exists [OF assms(1)])
  have bob: "drs_identity bob = identity" "drs_signed_prekey bob = Some spk" "drs_kyber_prekey bob = Some kpk"
    "drs_one_time_prekey bob = Some otk"
    using new_bob_ok [OF assms(1) p] assms(3) by auto
  obtain sg where spk: "sign S identity (key_public S (br_signed_secret w)) (br_signed_rnd w) = Some sg"
    "spk = spk_new S 1 (br_now w) (br_signed_secret w) sg"
    using p by (auto simp: prepared_def generate_signed_pre_key_def split: option.splits)
  obtain ks where kpk: "calculate_signature R identity (kem_public R (br_kyber_secret w)) (br_kyber_rnd w) = Inr ks"
    "kpk = kpk_new R 1 (br_now w) (br_kyber_secret w) ks"
    using p by (auto simp: prepared_def generate_kyber_prekey_def and_then_Inr)
  have otk: "otk = otk_new S 1 (br_one_time_secrets w 0)" using p by (simp add: prepared_def)
  have b: "b = \<lparr>sb_registration_id = 1, sb_device_id = 1, sb_pre_key_id = Some 1,
      sb_pre_key_public = Some (key_public S (br_one_time_secrets w 0)), sb_signed_pre_key_id = 1,
      sb_signed_pre_key_public = key_public S (br_signed_secret w), sb_signed_pre_key_signature = sg,
      sb_kyber_pre_key_id = 1, sb_kyber_pre_key_public = kem_public R (br_kyber_secret w),
      sb_kyber_pre_key_signature = ks, sb_identity_key = public_identity S identity\<rparr>"
    using assms(4) by (simp add: DoubleRatchetSession_publish_bundle_def build_prekey_bundle_def bob spk(2) kpk(2) otk
        library_okD [OF assms(1)] lift_def ok_or_def map_err_def facade_defs)
  have "device_valid L 1" using assms(1) by (simp add: library_ok_def)
  then show "sig_bundle_ok L b"
    using assms(2) spk(1) kpk(1) by (simp add: b sig_bundle_ok_def keys_serializable_def library_okD [OF assms(1)])
  show "sb_identity_key b = public_identity S identity" by (simp add: b)
qed

lemma new_alice_total:
  assumes "library_ok L S A R"
  shows "(\<exists>s. DoubleRatchetSession_new_alice L S R now rnd i b = Return (Inr s)) \<or>
    (\<exists>e. DoubleRatchetSession_new_alice L S R now rnd i b = Return (Inl (Establishment e)))"
proof -
  obtain st where "store_new R i 1 = Inr st" using library_makes(2) [OF assms] by blast
  then show ?thesis
    using assms by (auto simp: DoubleRatchetSession_new_alice_def lift_def map_err_def facade_defs Let_def
        split: prod.splits sum.splits)
qed

lemma decrypt_total:
  assumes "library_ok L S A R"
  shows "DoubleRatchetSession_decrypt L R rnd e s \<noteq> Panic"
proof (cases "length e < 33")
  case False
  then have "slice_range e 0 32 = Return (take 32 e)" "index_at e 32 = Return (e ! 32)"
    "slice_range e 33 (length e) = Return (drop 33 e)"
    by (simp_all add: slice_range_def index_at_def)
  then show ?thesis
    using assms False by (auto simp: DoubleRatchetSession_decrypt_def ENVELOPE_PREFIX_LEN_def Let_def
        split: option.splits sum.splits prod.splits)
qed (simp add: DoubleRatchetSession_decrypt_def ENVELOPE_PREFIX_LEN_def)

lemma decrypt_error_kind:
  assumes "DoubleRatchetSession_decrypt L R rnd e s = Return (Inl err, s')"
  shows "\<not> (case err of SessPreKey _ \<Rightarrow> True | _ \<Rightarrow> False) \<and> \<not> is_prekey_signature_invalid err"
proof (cases "length e < 33")
  case False
  then have "slice_range e 0 32 = Return (take 32 e)" "index_at e 32 = Return (e ! 32)"
    "slice_range e 33 (length e) = Return (drop 33 e)"
    by (simp_all add: slice_range_def index_at_def)
  moreover have "err' = MalformedEnvelope \<or> err' = IdentityHashMismatch \<or> (\<exists>x. err' = SessStore x)"
    if "check_sender R mt h raw a st = Inl err'" for mt h raw a st err'
    using that by (auto simp: check_sender_def split: MessageType.splits sum.splits option.splits if_splits)
  ultimately show ?thesis
    using assms False by (force simp: DoubleRatchetSession_decrypt_def ENVELOPE_PREFIX_LEN_def Let_def
        address_for_hash_def device_def map_err_def is_prekey_signature_invalid_def
        split: option.splits sum.splits prod.splits if_splits)
qed (use assms in \<open>auto simp: DoubleRatchetSession_decrypt_def ENVELOPE_PREFIX_LEN_def is_prekey_signature_invalid_def\<close>)

text \<open>The facade's session is a channel because the core's is.\<close>

interpretation wasm_channel: channel "ratchet_ok L S A R synced" "session_linked R synced"
    "\<lambda>p m s. wasm_encrypt_message R (fst p) (snd p) m s" "\<lambda>q c s. wasm_decrypt_message L R q c s"
  for L S A R synced
proof unfold_locales
  fix a b :: "('a, 'b, 'c, 'd) SessionHandle" and r :: "u64 \<times> bytes" and m q :: bytes
  assume "ratchet_ok L S A R synced" "session_linked R synced a b"
  from session_channel.transfer [OF this, of r m q]
  show "\<exists>c a' b'. wasm_encrypt_message R (fst r) (snd r) m a = (Inr c, a') \<and>
      wasm_decrypt_message L R q c b = Return (Inr m, b') \<and> session_linked R synced a' b'"
    by (auto simp: wasm_encrypt_message_def wasm_decrypt_message_def map_err_def)
qed

lemma establish_linked_bytes:
  assumes ok: "ratchet_ok L S A R synced" and ser: "keys_serializable L S R w (as_libsignal bob_id)"
  shows "\<exists>bob bs alice.
    create_receiver_session L S R w bob_id = Return (Inr bob) \<and>
    publish_bundle_bytes L S A R bob = Return (Inr bs) \<and>
    generate_prekey_bundle L S A R w bob_id = Return (Inr bs) \<and>
    bundle_identity_key_bytes L (\<lambda>b. Inr (sb_identity_key b)) bs = Return (Inr (public_identity S (as_libsignal bob_id))) \<and>
    establish_session_from_bundle L S R now rnd alice_id bs = Return (Inr alice) \<and>
    session_linked R synced alice bob"
proof -
  obtain bob b alice where e: "DoubleRatchetSession_new_bob L S R w (as_libsignal bob_id) = Return (Inr bob)"
    "DoubleRatchetSession_publish_bundle L S A bob = Return (Inr b)"
    "DoubleRatchetSession_new_alice L S R now rnd (as_libsignal alice_id) b = Return (Inr alice)"
    "session_linked R synced alice bob"
    using establish_linked [OF ok] by blast
  have lib: "library_ok L S A R" using ok by (simp add: ratchet_ok_def)
  note good = published_bundle_ok [OF lib ser e(1,2)]
  obtain bs where "bundle_to_bytes b = Inr bs" "bundle_from_bytes L bs = Return (Inr b)"
    using bundle_round_trip [OF good(1)] by blast
  then show ?thesis using e good(2)
    by (auto simp: create_receiver_session_def publish_bundle_bytes_def generate_prekey_bundle_def
        bundle_identity_key_bytes_def establish_session_from_bundle_def map_err_def)
qed

text \<open>The payload of a group frame and the key and nonce it was encrypted under.\<close>

lemma encrypt_as_payload:
  assumes "crypto_ok P" "GroupSession_encrypt_as P rnd m g = (Return (Inr c), g')"
  obtains key nonce p where "expand P (gs_chain_key g) ''msg'' 32 = Return key"
    "expand P (gs_chain_key g) ''nonce'' 12 = Return nonce" "aes_enc P key nonce m = Some p"
    "take 12 c = nonce" "take (length p) (drop 16 c) = p"
proof -
  obtain nonce where n: "expand P (gs_chain_key g) ''nonce'' 12 = Return nonce" "length nonce = 12"
    by (rule expand_ok [OF assms(1), of 12 "gs_chain_key g" "''nonce''"]) simp
  obtain key p ws where "expand P (gs_chain_key g) ''msg'' 32 = Return key" "aes_enc P key nonce m = Some p"
    "c = group_frame nonce p ws"
    using assms(2) n by (auto simp: GroupSession_encrypt_as_def Let_def split: if_splits run.splits option.splits sum.splits)
  then show thesis using that n by (simp add: group_frame_def)
qed

lemma added_chain_key: "gs_chain_key (fold group_add_member ms g) = gs_chain_key g"
  by (induction ms arbitrary: g) (simp_all add: group_add_member_def GroupSession_add_member_def)

lemma establish_kind:
  assumes "library_ok L S A R"
  shows "\<exists>r. establish_session_from_bundle L S R now rnd h bs = Return r \<and>
     (\<forall>e. r = Inl e \<longrightarrow>
        we_kind e =
          (case bundle_from_bytes L bs of
             Return (Inr b) \<Rightarrow>
               if DoubleRatchetSession_new_alice L S R now rnd (as_libsignal h) b =
                  Return (Inl (Establishment SignatureValidationFailed)) then ''PreKey'' else ''Session''
           | _ \<Rightarrow> ''MalformedBundle''))"
proof -
  obtain r where r: "bundle_from_bytes L bs = Return r"
    using bundle_from_bytes_total by (cases "bundle_from_bytes L bs") blast+
  show ?thesis
  proof (cases r)
    case (Inl e)
    with r show ?thesis
      by (simp add: establish_session_from_bundle_def map_err_def malformed_bundle_def WasmError_new_def)
  next
    case (Inr b)
    with r new_alice_total [OF assms, of now rnd "as_libsignal h" b] show ?thesis
      by (auto simp: establish_session_from_bundle_def map_err_def WasmError_from_session_def WasmError_new_def
          is_prekey_signature_invalid_def split: SignalProtocolError.splits)
  qed
qed

lemma decrypt_kind:
  assumes "library_ok L S A R"
  shows "\<exists>r s'. wasm_decrypt_message L R rnd bs s = Return (r, s') \<and> (\<forall>e. r = Inl e \<longrightarrow> we_kind e = ''Session'')"
proof -
  obtain r s' where r: "DoubleRatchetSession_decrypt L R rnd bs s = Return (r, s')"
    using decrypt_total [OF assms] by (cases "DoubleRatchetSession_decrypt L R rnd bs s") auto
  then show ?thesis
    using decrypt_error_kind [of L R rnd bs s _ s']
    by (auto simp: wasm_decrypt_message_def map_err_def WasmError_from_session_def WasmError_new_def split: sum.splits)
qed

section \<open>Properties\<close>

text \<open>
  The browser API carries a conversation over bytes alone: a receiver's published bundle bytes
  establish a session on the sender's side, the identity key read from those bytes is the
  receiver's, and every message the sender then encrypts decrypts to the same plaintext, in order.
  A bundle generated without keeping the session has the same bytes.
\<close>

theorem wasm_session_over_bytes:
  assumes "ratchet_ok L S A R synced" "keys_serializable L S R w (as_libsignal bob_id)"
  shows "\<exists>bob bs alice.
    create_receiver_session L S R w bob_id = Return (Inr bob) \<and>
    publish_bundle_bytes L S A R bob = Return (Inr bs) \<and>
    generate_prekey_bundle L S A R w bob_id = Return (Inr bs) \<and>
    bundle_identity_key_bytes L (\<lambda>b. Inr (sb_identity_key b)) bs = Return (Inr (public_identity S (as_libsignal bob_id))) \<and>
    establish_session_from_bundle L S R now rnd alice_id bs = Return (Inr alice) \<and>
    exchange (\<lambda>p m s. wasm_encrypt_message R (fst p) (snd p) m s) (\<lambda>q c s. wasm_decrypt_message L R q c s) ms alice bob =
      Return (Inr (map (fst \<circ> snd) ms))"
  using establish_linked_bytes [OF assms, of now rnd alice_id] wasm_channel.exchange_delivers [OF assms(1)] by meson

theorem wasm_session_over_bytes_witness:
  "\<exists>bob bs alice.
    publish_bundle_bytes demo_session demo_keys demo_records demo_ratchet bob = Return (Inr bs) \<and>
    establish_session_from_bundle demo_session demo_keys demo_ratchet 0 [] \<lparr>ikp_private = [5], ikp_public = [5]\<rparr> bs =
      Return (Inr alice) \<and>
    exchange (\<lambda>p m s. wasm_encrypt_message demo_ratchet (fst p) (snd p) m s)
      (\<lambda>q c s. wasm_decrypt_message demo_session demo_ratchet q c s) [((0, []), [104, 105], [])] alice bob =
      Return (Inr [[104, 105]])"
proof -
  let ?w = "\<lparr>br_now = 0, br_signed_secret = [1], br_signed_rnd = [], br_kyber_secret = [2], br_kyber_rnd = [],
        br_one_time_secrets = (\<lambda>_. [3])\<rparr>"
  have "keys_serializable demo_session demo_keys demo_ratchet ?w (as_libsignal \<lparr>ikp_private = [4], ikp_public = [4]\<rparr>)"
    by (simp add: keys_serializable_def demo_session_def demo_keys_def demo_ratchet_def public_identity_def as_libsignal_def)
  from wasm_session_over_bytes [OF demo_ratchet_ok this, of 0 "[]" "\<lparr>ikp_private = [5], ikp_public = [5]\<rparr>"
      "[((0, []), [104, 105], [])]"]
  show ?thesis by auto
qed

text \<open>
  C30: Establishing from arbitrary bytes never panics, and the error's kind tells what failed: a bundle
  that does not parse is \<open>MalformedBundle\<close>, a refused prekey signature is \<open>PreKey\<close>, any other
  failure of the protocol is \<open>Session\<close>. Decrypting arbitrary bytes never panics either, and its
  errors are of kind \<open>Session\<close>.
\<close>

theorem wasm_errors_are_classified:
  assumes "library_ok L S A R"
  shows "(\<exists>r. establish_session_from_bundle L S R now rnd h bs = Return r \<and>
     (\<forall>e. r = Inl e \<longrightarrow>
        we_kind e =
          (case bundle_from_bytes L bs of
             Return (Inr b) \<Rightarrow>
               if DoubleRatchetSession_new_alice L S R now rnd (as_libsignal h) b =
                  Return (Inl (Establishment SignatureValidationFailed)) then ''PreKey'' else ''Session''
           | _ \<Rightarrow> ''MalformedBundle''))) \<and>
    (\<exists>r s'. wasm_decrypt_message L R rnd bs s = Return (r, s') \<and> (\<forall>e. r = Inl e \<longrightarrow> we_kind e = ''Session''))"
  using establish_kind [OF assms] decrypt_kind [OF assms] by blast

theorem wasm_errors_are_classified_witness:
  "\<exists>r. establish_session_from_bundle demo_session demo_keys demo_ratchet 0 [] \<lparr>ikp_private = [5], ikp_public = [5]\<rparr> [1, 2, 3] =
     Return (Inl r) \<and> we_kind r = ''MalformedBundle''"
proof -
  have b: "bundle_from_bytes demo_session [1, 2, 3] = Return (Inl (InvalidArgument ''truncated: missing 4-byte field''))"
    by (simp add: bundle_from_bytes_def read_u32_def)
  obtain r where r: "establish_session_from_bundle demo_session demo_keys demo_ratchet 0 []
      \<lparr>ikp_private = [5], ikp_public = [5]\<rparr> [1, 2, 3] = Return r" "\<forall>e. r = Inl e \<longrightarrow> we_kind e = ''MalformedBundle''"
    using wasm_errors_are_classified [OF demo_library_ok, of 0 "[]" "\<lparr>ikp_private = [5], ikp_public = [5]\<rparr>" "[1, 2, 3]",
        THEN conjunct1]
    unfolding b by auto
  moreover have "\<exists>e. r = Inl e" using r(1) b by (auto simp: establish_session_from_bundle_def map_err_def)
  ultimately show ?thesis by auto
qed

text \<open>
  C37: Handles made from the same sender repeat key and nonce: two groups one identity creates, or
  two handles that fork from one by \<open>group_add_member\<close>, encrypt their first messages under the
  same AES-GCM key with the same nonce, whatever their members, so the pair of ciphertexts is not
  protected by the ratchet.
\<close>

theorem forked_groups_reuse_key_and_nonce:
  assumes "crypto_ok P" "group_create P sender = Return g"
    and "group_encrypt P rnd1 sender m1 (fold group_add_member ms1 g) = (Return (Inr c1), g1)"
    and "group_encrypt P rnd2 sender m2 (fold group_add_member ms2 g) = (Return (Inr c2), g2)"
  shows "\<exists>key nonce p1 p2. take 12 c1 = nonce \<and> take 12 c2 = nonce \<and>
    aes_enc P key nonce m1 = Some p1 \<and> take (length p1) (drop 16 c1) = p1 \<and>
    aes_enc P key nonce m2 = Some p2 \<and> take (length p2) (drop 16 c2) = p2"
proof -
  have core: "\<exists>r. GroupSession_encrypt_as P rnd m h = (Return (Inr c), r)"
    if "group_encrypt P rnd sender m h = (Return (Inr c), h')" for rnd m h c h'
    using that by (cases "GroupSession_encrypt_as P rnd m h"; cases "fst (GroupSession_encrypt_as P rnd m h)")
      (auto simp: group_encrypt_def map_err_def split: sum.splits)
  obtain r1 r2 where r: "GroupSession_encrypt_as P rnd1 m1 (fold group_add_member ms1 g) = (Return (Inr c1), r1)"
    "GroupSession_encrypt_as P rnd2 m2 (fold group_add_member ms2 g) = (Return (Inr c2), r2)"
    using core assms(3,4) by meson
  obtain k1 n1 p1 where 1: "expand P (gs_chain_key g) ''msg'' 32 = Return k1"
    "expand P (gs_chain_key g) ''nonce'' 12 = Return n1" "aes_enc P k1 n1 m1 = Some p1"
    "take 12 c1 = n1" "take (length p1) (drop 16 c1) = p1"
    by (rule encrypt_as_payload [OF assms(1) r(1)]) (simp add: added_chain_key)
  obtain k2 n2 p2 where 2: "expand P (gs_chain_key g) ''msg'' 32 = Return k2"
    "expand P (gs_chain_key g) ''nonce'' 12 = Return n2" "aes_enc P k2 n2 m2 = Some p2"
    "take 12 c2 = n2" "take (length p2) (drop 16 c2) = p2"
    by (rule encrypt_as_payload [OF assms(1) r(2)]) (simp add: added_chain_key)
  show ?thesis using 1 2 by auto
qed

theorem forked_groups_reuse_key_and_nonce_witness:
  "\<exists>c1 c2 key nonce p1 p2. take 12 c1 = nonce \<and> take 12 c2 = nonce \<and>
    aes_enc demo_prims key nonce [1] = Some p1 \<and> take (length p1) (drop 16 c1) = p1 \<and>
    aes_enc demo_prims key nonce [2] = Some p2 \<and> take (length p2) (drop 16 c2) = p2"
proof -
  let ?k = "\<lambda>i. IdentityKeyPair_generate demo_prims [i]"
  let ?r = "\<lambda>i :: nat. \<lparr>sr_eph = [7], sr_nonce = replicate 12 2\<rparr>"
  obtain ck where ck: "expand demo_prims (IdentityKeyPair_public demo_prims (?k 9)) ''chain'' 32 = Return ck"
    by (rule expand_ok [OF demo_crypto_ok, of 32]) simp
  define g where "g = \<lparr>gs_members = [], gs_chain_key = ck\<rparr>"
  have g: "group_create demo_prims (?k 9) = Return g"
    using ck by (simp add: group_create_def GroupSession_new_def PublicIdentityKey_to_bytes_def g_def)
  have enc: "\<exists>c g'. group_encrypt demo_prims ?r (?k 9) [m]
      (fold group_add_member [IdentityKeyPair_public demo_prims (?k i)] g) = (Return (Inr c), g')" for m i
  proof -
    have h: "honest demo_prims [?k i]" "\<forall>i. seal_rand_ok (?r i)" by (simp_all add: honest_def seal_rand_ok_def)
    show ?thesis
      by (rule encrypt_as_honest [OF demo_crypto_ok h, of "fold group_add_member [IdentityKeyPair_public demo_prims (?k i)] g" "[m]"])
        (auto simp: g_def group_add_member_def GroupSession_add_member_def PublicIdentityKey_from_bytes_def
          group_encrypt_def map_err_def)
  qed
  obtain c1 g1 c2 g2 where "group_encrypt demo_prims ?r (?k 9) [1]
      (fold group_add_member [IdentityKeyPair_public demo_prims (?k 3)] g) = (Return (Inr c1), g1)"
    "group_encrypt demo_prims ?r (?k 9) [2]
      (fold group_add_member [IdentityKeyPair_public demo_prims (?k 4)] g) = (Return (Inr c2), g2)"
    using enc by meson
  from forked_groups_reuse_key_and_nonce [OF demo_crypto_ok g this] show ?thesis by blast
qed

section \<open>The browser threat model\<close>

datatype BrowserThreatModel = ReducedKeyStorage

definition BrowserThreatModel_docs :: "BrowserThreatModel \<Rightarrow> string" where
  "BrowserThreatModel_docs t =
     (case t of
        ReducedKeyStorage \<Rightarrow>
           ''Browser clients have no secure enclave. Identity and session key material is sto'' @
           ''red via IndexedDB / WebCrypto non-extractable keys, which protects against casua'' @
           ''l extraction but not against a same-origin script-execution compromise (e.g. a m'' @
           ''alicious dependency or XSS). This is a reduced key-storage security model compar'' @
           ''ed to native clients, which can rely on OS-level secure storage (Keychain/Keysto'' @
           ''re). Users on browser clients should be informed of this reduced guarantee, part'' @
           ''icularly for long-lived identity keys.'')"

definition document_browser_threat_model :: BrowserThreatModel where
  "document_browser_threat_model = ReducedKeyStorage"

text \<open>The debug text of the opaque handles shows no key material.\<close>

definition SessionHandle_debug :: "('spk, 'otk, 'kpk, 'st) SessionHandle \<Rightarrow> string" where
  "SessionHandle_debug h = ''SessionHandle { .. }''"

definition GroupHandle_debug :: "GroupSession \<Rightarrow> string" where
  "GroupHandle_debug h = ''GroupHandle { .. }''"

end
