(* ===== verification/Backup.thy ===== *)
theory Backup
  imports Framing Crypto_Prims
begin

text \<open>
  The encrypted backup format of \<open>core/storage/src/backup.rs\<close>: record framing, key derivation,
  export and import. Argon2id, SHA-256 and AES-256-GCM with associated data are the parameter
  record \<open>backup_lib\<close>; the salt and nonce the CSPRNG draws are arguments (\<open>None\<close> when it fails).
  Offsets are \<open>usize\<close> values of \<open>w\<close> bits.
\<close>

section \<open>The library\<close>

text \<open>
  \<open>argon2id\<close> is the hash output of the password hasher for memory, passes, lanes, output length, a passphrase
  and a salt, \<open>None\<close> when any of its steps reports an error.
\<close>

record backup_lib =
  argon2id :: "u32 \<Rightarrow> u32 \<Rightarrow> u32 \<Rightarrow> nat \<Rightarrow> bytes \<Rightarrow> bytes \<Rightarrow> bytes option"
  bk_sha256 :: "bytes \<Rightarrow> bytes"
  gcm_enc :: "bytes \<Rightarrow> bytes \<Rightarrow> bytes \<Rightarrow> bytes \<Rightarrow> bytes option"
  gcm_dec :: "bytes \<Rightarrow> bytes \<Rightarrow> bytes \<Rightarrow> bytes \<Rightarrow> bytes option"

definition backup_ok :: "backup_lib \<Rightarrow> bool" where
  "backup_ok B \<longleftrightarrow>
     (\<forall>p s. length s = 16 \<longrightarrow> (\<exists>h. argon2id B 19456 2 1 32 p s = Some h \<and> 32 \<le> length h)) \<and>
     (\<forall>k n a m. length k = 32 \<longrightarrow> length n = 12 \<longrightarrow>
        (\<exists>c. gcm_enc B k n a m = Some c \<and> length c = length m + 16 \<and> gcm_dec B k n a c = Some m)) \<and>
     (\<forall>k n a c m. gcm_dec B k n a c = Some m \<longrightarrow> gcm_enc B k n a m = Some c)"

section \<open>Operations\<close>

datatype BackupError = Tampered | DecryptionFailed | Empty

definition ARGON2_MEM_KIB :: u32 where "ARGON2_MEM_KIB = 19 * 1024"
definition ARGON2_TIME_COST :: u32 where "ARGON2_TIME_COST = 2"
definition ARGON2_PARALLELISM :: u32 where "ARGON2_PARALLELISM = 1"
definition SALT_LEN :: nat where "SALT_LEN = 16"
definition BK_NONCE_LEN :: nat where "BK_NONCE_LEN = 12"
definition BK_TAG_LEN :: nat where "BK_TAG_LEN = 16"
definition MAGIC :: bytes where "MAGIC = str_bytes ''ECB1''"
definition VERSION :: u8 where "VERSION = 1"

definition derive_key :: "backup_lib \<Rightarrow> bytes \<Rightarrow> bytes \<Rightarrow> BackupError + bytes" where
  "derive_key B passphrase salt =
     (case argon2id B ARGON2_MEM_KIB ARGON2_TIME_COST ARGON2_PARALLELISM 32 passphrase salt of
        None \<Rightarrow> Inl Empty
      | Some bs \<Rightarrow> if length bs < 32 then Inl Empty else Inr (take 32 bs))"

lemmas argon2_params = ARGON2_MEM_KIB_def ARGON2_TIME_COST_def ARGON2_PARALLELISM_def

definition build_aad :: "backup_lib \<Rightarrow> bytes \<Rightarrow> bytes \<Rightarrow> bytes" where
  "build_aad B salt nonce = bk_sha256 B (MAGIC @ [VERSION] @ salt @ nonce)"

definition serialize_records :: "bytes list \<Rightarrow> bytes" where
  "serialize_records records =
     be_bytes 4 (length records) @ concat (map (\<lambda>r. be_bytes 4 (length r) @ r) records)"

text \<open>The reading loop: how many records are left, the offset, and the records so far.\<close>

fun read_records :: "nat \<Rightarrow> bytes \<Rightarrow> nat \<Rightarrow> nat \<Rightarrow> bytes list \<Rightarrow> (BackupError + nat \<times> bytes list) run" where
  "read_records w buf 0 off out = Return (Inr (off, out))"
| "read_records w buf (Suc n) off out =
     (if us_add w off 4 > length buf then Return (Inl Tampered)
      else run_bind (slice_range buf off (us_add w off 4)) (\<lambda>len_bytes.
        let len = be_nat len_bytes; off = us_add w off 4 in
        if us_add w off len > length buf then Return (Inl Tampered)
        else run_bind (slice_range buf off (us_add w off len)) (\<lambda>r.
          read_records w buf n (us_add w off len) (out @ [r]))))"

text \<open>
  \<open>Vec::with_capacity(n)\<close> for the records panics when their \<open>n\<close> headers of three words exceed
  \<open>isize::MAX\<close> bytes. Running out of memory below that bound is not modelled.
\<close>

definition capacity_ok :: "nat \<Rightarrow> nat \<Rightarrow> bool" where
  "capacity_ok w n \<longleftrightarrow> n * (3 * (w div 8)) < 2 ^ (w - 1)"

definition deserialize_records :: "nat \<Rightarrow> bytes \<Rightarrow> (BackupError + bytes list) run" where
  "deserialize_records w buf =
     (if length buf < 4 then Return (Inl Tampered)
      else run_bind (slice_range buf 0 4) (\<lambda>n_bytes.
        let n = be_nat n_bytes in
        if n = 0 then Return (Inl Tampered)
        else if \<not> capacity_ok w n then Panic
        else try_bind (read_records w buf n 4 []) (\<lambda>(off, out).
          if off \<noteq> length buf then Return (Inl Tampered) else Return (Inr out))))"

definition export ::
  "backup_lib \<Rightarrow> bytes option \<Rightarrow> bytes option \<Rightarrow> bytes \<Rightarrow> bytes list \<Rightarrow> BackupError + bytes" where
  "export B rng_salt rng_nonce passphrase records =
     (if records = [] then Inl Empty
      else and_then (ok_or Empty rng_salt) (\<lambda>salt.
        and_then (ok_or Empty rng_nonce) (\<lambda>nonce_bytes.
        and_then (derive_key B passphrase salt) (\<lambda>key.
        let plaintext = serialize_records records;
            aad = build_aad B salt nonce_bytes
        in and_then (ok_or Empty (gcm_enc B key nonce_bytes aad plaintext)) (\<lambda>ciphertext_with_tag.
          Inr (MAGIC @ [VERSION] @ salt @ nonce_bytes @ ciphertext_with_tag))))))"

definition import_backup :: "backup_lib \<Rightarrow> nat \<Rightarrow> bytes \<Rightarrow> bytes \<Rightarrow> (BackupError + bytes list) run" where
  "import_backup B w passphrase blob =
     (if length blob < length MAGIC + 1 + SALT_LEN + BK_NONCE_LEN + BK_TAG_LEN + 4 then Return (Inl Tampered)
      else run_bind (slice_range blob 0 (length MAGIC)) (\<lambda>magic.
        if magic \<noteq> MAGIC then Return (Inl Tampered)
        else run_bind (index_at blob (length MAGIC)) (\<lambda>version.
        if version \<noteq> VERSION then Return (Inl Tampered)
        else let off = length MAGIC + 1 in
        run_bind (slice_range blob off (off + SALT_LEN)) (\<lambda>salt.
        let off = off + SALT_LEN in
        run_bind (slice_range blob off (off + BK_NONCE_LEN)) (\<lambda>nonce_bytes.
        let off = off + BK_NONCE_LEN in
        run_bind (slice_range blob off (length blob)) (\<lambda>ciphertext_and_tag.
        if length ciphertext_and_tag < BK_TAG_LEN then Return (Inl Tampered)
        else let aad = build_aad B salt nonce_bytes in
        try_bind (Return (derive_key B passphrase salt)) (\<lambda>key.
        try_bind (Return (ok_or DecryptionFailed (gcm_dec B key nonce_bytes aad ciphertext_and_tag))) (\<lambda>plaintext.
          deserialize_records w plaintext))))))))"

section \<open>Record framing\<close>

abbreviation record_bytes :: "bytes \<Rightarrow> bytes" where
  "record_bytes r \<equiv> be_bytes 4 (length r) @ r"

lemma read_records_written:
  assumes "buf = pre @ concat (map record_bytes rs) @ post" "length buf < 2 ^ w" "\<forall>r \<in> set rs. length r < 2 ^ 32"
  shows "read_records w buf (length rs) (length pre) out =
    Return (Inr (length pre + length (concat (map record_bytes rs)), out @ rs))"
  using assms
proof (induction rs arbitrary: pre out)
  case (Cons r rs)
  have buf: "buf = pre @ be_bytes 4 (length r) @ r @ concat (map record_bytes rs) @ post" using Cons.prems(1) by simp
  have len: "length pre + 4 + length r + length (concat (map record_bytes rs)) + length post = length buf"
    by (simp add: buf)
  have s: "slice_range buf (length pre) (length pre + 4) = Return (be_bytes 4 (length r))"
    "slice_range buf (length pre + 4) (length pre + 4 + length r) = Return r"
    using len by (simp_all add: slice_range_def buf)
  have n: "be_nat (be_bytes 4 (length r)) = length r" using Cons.prems(3) by simp
  have "read_records w buf (length (r # rs)) (length pre) out =
      read_records w buf (length rs) (length pre + 4 + length r) (out @ [r])"
    using len Cons.prems(2) s n by (simp add: Let_def)
  also have "\<dots> = Return (Inr (length (pre @ record_bytes r) + length (concat (map record_bytes rs)), (out @ [r]) @ rs))"
    using Cons.IH [of "pre @ record_bytes r" "out @ [r]"] Cons.prems(2,3) by (simp add: buf add.assoc)
  finally show ?case by simp
qed simp

lemma us_add_wrap: "a < 2 ^ w \<Longrightarrow> b < 2 ^ w \<Longrightarrow> us_add w a b = a + b \<or> us_add w a b < a"
  by (cases "a + b < 2 ^ w") (auto simp: us_add_def not_less mod_if)

lemma four_bytes: "length bs = 4 \<Longrightarrow> be_nat bs < 2 ^ 32"
  using be_nat_bound [of bs] by simp

lemma read_records_sound:
  assumes "read_records w buf n off out = Return (Inr (off', out'))" "off \<le> length buf" "length buf < 2 ^ w" "32 \<le> w"
  shows "\<exists>rs. out' = out @ rs \<and> length rs = n \<and> (\<forall>r \<in> set rs. length r < 2 ^ 32) \<and> off' \<le> length buf \<and>
    drop off buf = concat (map record_bytes rs) @ drop off' buf"
  using assms
proof (induction n arbitrary: off out)
  case (Suc n)
  have w: "(2 :: nat) ^ 32 \<le> 2 ^ w" using Suc.prems(4) by (intro power_increasing) auto
  have lt: "4 < (2 :: nat) ^ w" by (rule less_le_trans [OF _ w]) simp
  obtain lb where lb: "us_add w off 4 \<le> length buf" "slice_range buf off (us_add w off 4) = Return lb"
    using Suc.prems(1) by (auto simp: run_bind_def split: if_splits run.splits)
  then have o4: "us_add w off 4 = off + 4"
    using us_add_wrap [of off w 4] Suc.prems(2,3) lt by (auto simp: slice_range_def split: if_splits)
  define len where "len = be_nat lb"
  have lb': "lb = take 4 (drop off buf)" "length lb = 4"
    using lb by (auto simp: o4 slice_range_def split: if_splits)
  have len: "len < 2 ^ 32" using four_bytes [OF lb'(2)] by (simp add: len_def)
  obtain r where r: "us_add w (off + 4) len \<le> length buf"
    "slice_range buf (off + 4) (us_add w (off + 4) len) = Return r"
    "read_records w buf n (us_add w (off + 4) len) (out @ [r]) = Return (Inr (off', out'))"
    using Suc.prems(1) lb
    by (auto simp: run_bind_def Let_def o4 len_def split: if_splits run.splits)
  have o5: "us_add w (off + 4) len = off + 4 + len"
    using us_add_wrap [of "off + 4" w len] Suc.prems(3) lb(1) len w r(2)
    by (auto simp: o4 slice_range_def split: if_splits)
  have r': "r = take len (drop (off + 4) buf)" "length r = len"
    using r(1,2) by (auto simp: o5 slice_range_def split: if_splits)
  obtain rs where rs: "out' = (out @ [r]) @ rs" "length rs = n" "\<forall>r \<in> set rs. length r < 2 ^ 32" "off' \<le> length buf"
    "drop (off + 4 + len) buf = concat (map record_bytes rs) @ drop off' buf"
    using Suc.IH [OF r(3)] r(1) Suc.prems(3,4) unfolding o5 by auto
  have "be_bytes 4 (length r) = lb" using be_bytes_be_nat [OF lb'(2)] by (simp add: r'(2) len_def)
  moreover have "drop off buf = lb @ r @ drop (off + 4 + len) buf"
    unfolding lb'(1) r'(1) by (metis add.commute append_take_drop_id drop_drop)
  ultimately show ?case using rs len r'(2) by (intro exI [of _ "r # rs"]) auto
qed simp

text \<open>The records of a backup, as a slice of vectors of the target and their serialization can be.\<close>

definition records_fit :: "nat \<Rightarrow> bytes list \<Rightarrow> bool" where
  "records_fit w rs \<longleftrightarrow> rs \<noteq> [] \<and> length rs < 2 ^ 32 \<and> (\<forall>r \<in> set rs. length r < 2 ^ 32) \<and>
     length (serialize_records rs) < 2 ^ w \<and> capacity_ok w (length rs)"

lemma deserialize_written:
  assumes "records_fit w rs"
  shows "deserialize_records w (serialize_records rs) = Return (Inr rs)"
proof -
  let ?buf = "serialize_records rs"
  have buf: "?buf = be_bytes 4 (length rs) @ concat (map record_bytes rs) @ []" by (simp add: serialize_records_def)
  have "read_records w ?buf (length rs) 4 [] = Return (Inr (length ?buf, rs))"
    using read_records_written [OF buf, of w "[]"] assms by (simp add: records_fit_def serialize_records_def capacity_ok_def)
  moreover have "slice_range ?buf 0 4 = Return (be_bytes 4 (length rs))" "4 \<le> length ?buf"
    by (simp_all add: slice_range_def serialize_records_def)
  moreover have "be_nat (be_bytes 4 (length rs)) = length rs" using assms by (simp add: records_fit_def)
  ultimately show ?thesis using assms by (simp add: deserialize_records_def records_fit_def)
qed

lemma deserialize_sound:
  assumes "deserialize_records w buf = Return (Inr rs)" "length buf < 2 ^ w" "32 \<le> w"
  shows "buf = serialize_records rs \<and> records_fit w rs"
proof -
  define n where "n = be_nat (take 4 buf)"
  have r: "4 \<le> length buf" "n \<noteq> 0" "read_records w buf n 4 [] = Return (Inr (length buf, rs))" "capacity_ok w n"
    using assms(1)
    by (auto simp: deserialize_records_def n_def slice_range_def try_bind_Inr Let_def split: if_splits prod.splits)
  obtain rs' where rs': "rs = [] @ rs'" "length rs' = n" "\<forall>r \<in> set rs'. length r < 2 ^ 32"
    "drop 4 buf = concat (map record_bytes rs') @ drop (length buf) buf"
    using read_records_sound [OF r(3) r(1) assms(2,3)] by blast
  have t: "length (take 4 buf) = 4" using r(1) by simp
  have "take 4 buf = be_bytes 4 (length rs)"
    using be_bytes_be_nat [OF t] rs'(1,2) by (simp add: n_def)
  then have "buf = serialize_records rs"
    using append_take_drop_id [of 4 buf] rs'(1,4) by (simp add: serialize_records_def)
  moreover have "length rs < 2 ^ 32" using four_bytes [OF t] rs'(1,2) by (simp add: n_def)
  ultimately show ?thesis using rs' r(2,4) assms(2) by (auto simp: records_fit_def)
qed

lemma read_records_no_panic:
  assumes "off \<le> length buf" "length buf + 2 ^ 33 < 2 ^ w"
  shows "read_records w buf n off out \<noteq> Panic"
  using assms
proof (induction n arbitrary: off out)
  case (Suc n)
  show ?case
  proof (cases "off + 4 \<le> length buf")
    case True
    define len where "len = be_nat (take 4 (drop off buf))"
    have "length (take 4 (drop off buf)) = 4" using True by simp
    then have "len < 2 ^ 32" unfolding len_def by (rule four_bytes)
    then have "off + 4 + len < 2 ^ w" using True Suc.prems(2) by simp
    then show ?thesis
      using True Suc.prems(2) Suc.IH [of "off + 4 + len"]
      by (auto simp: slice_range_def Let_def len_def [symmetric])
  qed (use Suc.prems in simp)
qed simp

lemma deserialize_no_panic:
  assumes "length buf + 2 ^ 33 < 2 ^ 64"
  shows "deserialize_records 64 buf \<noteq> Panic"
proof (cases "4 \<le> length buf")
  case True
  then have "be_nat (take 4 buf) < 2 ^ 32" by (intro four_bytes) simp
  then have "capacity_ok 64 (be_nat (take 4 buf))" by (simp add: capacity_ok_def)
  then show ?thesis using True read_records_no_panic [of 4 buf 64] assms
    by (auto simp: deserialize_records_def slice_range_def Let_def try_bind_Panic split: prod.splits)
qed (simp add: deserialize_records_def)

text \<open>With 32-bit words a count read from the decrypted body is enough to panic.\<close>

lemma record_count_panics_on_32_bit: "deserialize_records 32 [255, 255, 255, 255] = Panic"
  by (simp add: deserialize_records_def slice_range_def capacity_ok_def be_nat_def)

section \<open>Export and import\<close>

lemmas backup_defs = SALT_LEN_def BK_NONCE_LEN_def BK_TAG_LEN_def

lemma length_MAGIC [simp]: "length MAGIC = 4"
  by (simp add: MAGIC_def str_bytes_def)

text \<open>Import on a blob that is long enough, by its parts.\<close>

lemma import_long:
  assumes "53 \<le> length blob"
  shows "import_backup B w p blob =
    (if take 4 blob \<noteq> MAGIC \<or> blob ! 4 \<noteq> VERSION then Return (Inl Tampered)
     else let salt = take 16 (drop 5 blob); nonce = take 12 (drop 21 blob) in
       try_bind (Return (derive_key B p salt)) (\<lambda>key.
       try_bind (Return (ok_or DecryptionFailed (gcm_dec B key nonce (build_aad B salt nonce) (drop 33 blob))))
         (deserialize_records w)))"
proof -
  have s: "slice_range blob 0 4 = Return (take 4 blob)" "index_at blob 4 = Return (blob ! 4)"
    "slice_range blob 5 21 = Return (take 16 (drop 5 blob))" "slice_range blob 21 33 = Return (take 12 (drop 21 blob))"
    "slice_range blob 33 (length blob) = Return (drop 33 blob)"
    using assms by (simp_all add: slice_range_def index_at_def)
  have long: "\<not> length blob < 4 + 1 + 16 + 12 + 16 + 4" "\<not> length (drop 33 blob) < 16"
    "(4 + 1 :: nat) = 5" "(5 + 16 :: nat) = 21" "(21 + 12 :: nat) = 33"
    using assms by simp_all
  show ?thesis
    unfolding import_backup_def backup_defs Let_def length_MAGIC long(3-5) s run_bind_simps
    using long by auto
qed

lemma import_short: "length blob < 53 \<Longrightarrow> import_backup B w p blob = Return (Inl Tampered)"
  by (simp add: import_backup_def backup_defs)

lemma derive_key_ok:
  assumes "backup_ok B" "length salt = 16"
  shows "\<exists>key. derive_key B p salt = Inr key \<and> length key = 32"
proof -
  obtain h where "argon2id B 19456 2 1 32 p salt = Some h" "32 \<le> length h"
    using assms unfolding backup_ok_def by blast
  then show ?thesis by (simp add: derive_key_def argon2_params)
qed

lemma derive_key_length: "derive_key B p s = Inr k \<Longrightarrow> length k = 32"
  by (auto simp: derive_key_def split: option.splits if_splits)

lemma gcm_dec_length:
  assumes "backup_ok B" "length k = 32" "length n = 12" "gcm_dec B k n a c = Some m"
  shows "length c = length m + 16"
proof -
  obtain c' where "gcm_enc B k n a m = Some c'" "length c' = length m + 16"
    using assms(1-3) unfolding backup_ok_def by blast
  moreover have "gcm_enc B k n a m = Some c" using assms(1,4) unfolding backup_ok_def by blast
  ultimately show ?thesis by simp
qed

lemma serialize_nonempty: "4 \<le> length (serialize_records rs)"
  by (simp add: serialize_records_def)

lemma export_blob:
  assumes "backup_ok B" "rs \<noteq> []" "length salt = 16" "length nonce = 12"
  obtains key c where "export B (Some salt) (Some nonce) p rs = Inr (MAGIC @ [VERSION] @ salt @ nonce @ c)"
    "derive_key B p salt = Inr key" "length c = length (serialize_records rs) + 16"
    "gcm_dec B key nonce (build_aad B salt nonce) c = Some (serialize_records rs)"
proof -
  obtain key where k: "derive_key B p salt = Inr key" "length key = 32"
    using derive_key_ok [OF assms(1,3)] by blast
  obtain c where c: "gcm_enc B key nonce (build_aad B salt nonce) (serialize_records rs) = Some c"
    "length c = length (serialize_records rs) + 16"
    "gcm_dec B key nonce (build_aad B salt nonce) c = Some (serialize_records rs)"
    using assms(1) k(2) assms(4) unfolding backup_ok_def by blast
  show thesis
    by (rule that [of c key]) (simp_all add: export_def assms(2) k c ok_or_def Let_def)
qed

lemma split_header:
  assumes "33 \<le> length blob"
  shows "blob = take 4 blob @ [blob ! 4] @ take 16 (drop 5 blob) @ take 12 (drop 21 blob) @ drop 33 blob"
proof -
  have "drop 4 blob = blob ! 4 # drop 5 blob" using assms Cons_nth_drop_Suc [of 4 blob] by simp
  moreover have "drop 5 blob = take 16 (drop 5 blob) @ drop 21 blob" using append_take_drop_id [of 16 "drop 5 blob"] by simp
  moreover have "drop 21 blob = take 12 (drop 21 blob) @ drop 33 blob" using append_take_drop_id [of 12 "drop 21 blob"] by simp
  ultimately show ?thesis by (metis append_Cons append_Nil append_take_drop_id)
qed

lemma blob_parts:
  fixes salt nonce c :: bytes
  assumes "length salt = 16" "length nonce = 12"
  defines "blob \<equiv> MAGIC @ [VERSION] @ salt @ nonce @ c"
  shows "take 4 blob = MAGIC" "blob ! 4 = VERSION" "take 16 (drop 5 blob) = salt" "take 12 (drop 21 blob) = nonce"
    "drop 33 blob = c" "length blob = 33 + length c"
  using assms(1,2) by (simp_all add: blob_def nth_append)

section \<open>Properties\<close>

definition demo_backup :: backup_lib where
  "demo_backup = \<lparr>argon2id = (\<lambda>m t n l p s. Some (pad_to 32 (s @ p))), bk_sha256 = (\<lambda>x. pad_to 32 x),
     gcm_enc = (\<lambda>k n a m. demo_enc k n m), gcm_dec = (\<lambda>k n a c. demo_dec k n c)\<rparr>"

lemma demo_backup_ok: "backup_ok demo_backup"
proof -
  have "demo_enc k n m = Some c" if "demo_dec k n c = Some m" for k n c m
    using that by (auto simp: demo_dec_def demo_enc_def split: if_splits) (metis append_take_drop_id)
  then show ?thesis by (auto simp: backup_ok_def demo_backup_def demo_enc_def demo_dec_def)
qed

lemma import_of_export:
  assumes "backup_ok B" "records_fit w rs" "length salt = 16" "length nonce = 12"
  shows "\<exists>blob. export B (Some salt) (Some nonce) p rs = Inr blob \<and> import_backup B w p blob = Return (Inr rs)"
proof -
  have ne: "rs \<noteq> []" using assms(2) by (simp add: records_fit_def)
  obtain key c where e: "export B (Some salt) (Some nonce) p rs = Inr (MAGIC @ [VERSION] @ salt @ nonce @ c)"
    "derive_key B p salt = Inr key" "length c = length (serialize_records rs) + 16"
    "gcm_dec B key nonce (build_aad B salt nonce) c = Some (serialize_records rs)"
    by (rule export_blob [OF assms(1) ne assms(3,4)])
  note parts = blob_parts [OF assms(3,4), of c]
  have "53 \<le> length (MAGIC @ [VERSION] @ salt @ nonce @ c)"
    unfolding parts(6) e(3) using serialize_nonempty [of rs] by simp
  from import_long [OF this, of B w p] have "import_backup B w p (MAGIC @ [VERSION] @ salt @ nonce @ c) = Return (Inr rs)"
    unfolding parts by (simp add: e(2,4) ok_or_def deserialize_written [OF assms(2)])
  with e(1) show ?thesis by blast
qed

text \<open>
  C20: A backup is restored exactly: what \<open>export\<close> writes under a passphrase, \<open>import\<close> reads back under
  the same passphrase to the same records in the same order, for every salt and nonce.
\<close>

theorem backup_round_trip:
  assumes "backup_ok B" "records_fit w rs" "length salt = 16" "length nonce = 12"
  shows "\<exists>blob. export B (Some salt) (Some nonce) p rs = Inr blob \<and> import_backup B w p blob = Return (Inr rs)"
  by (rule import_of_export [OF assms])

text \<open>
  C19: Nothing is imported partially or from foreign bytes: whenever \<open>import\<close> returns records, the blob
  is, byte for byte, what \<open>export\<close> writes for exactly these records under this passphrase with the
  salt and nonce in its header.
\<close>

theorem import_accepts_only_exports:
  assumes "backup_ok B" "import_backup B w p blob = Return (Inr rs)" "length blob < 2 ^ w" "32 \<le> w"
  shows "export B (Some (take 16 (drop 5 blob))) (Some (take 12 (drop 21 blob))) p rs = Inr blob"
proof -
  let ?salt = "take 16 (drop 5 blob)" and ?nonce = "take 12 (drop 21 blob)"
  have long: "53 \<le> length blob" using assms(2) import_short [of blob] by (metis not_le run.inject sum.distinct(1))
  obtain key m where km: "take 4 blob = MAGIC" "blob ! 4 = VERSION" "derive_key B p ?salt = Inr key"
    "gcm_dec B key ?nonce (build_aad B ?salt ?nonce) (drop 33 blob) = Some m" "deserialize_records w m = Return (Inr rs)"
    using assms(2) unfolding import_long [OF long]
    by (auto simp: Let_def try_bind_Inr ok_or_def split: if_splits option.splits)
  have enc: "gcm_enc B key ?nonce (build_aad B ?salt ?nonce) m = Some (drop 33 blob)"
    using assms(1) km(4) unfolding backup_ok_def by blast
  have n: "length ?nonce = 12" using long by simp
  have "length (drop 33 blob) = length m + 16"
    by (rule gcm_dec_length [OF assms(1) derive_key_length [OF km(3)] n km(4)])
  then have "length m < 2 ^ w" using assms(3) by simp
  then have m: "m = serialize_records rs" "rs \<noteq> []"
    using deserialize_sound [OF km(5)] assms(4) by (auto simp: records_fit_def)
  have "blob = take 4 blob @ [blob ! 4] @ ?salt @ ?nonce @ drop 33 blob"
    using long by (intro split_header) simp
  then show ?thesis using km enc m by (simp add: export_def ok_or_def Let_def)
qed

theorem backup_round_trip_witness:
  "\<exists>blob. export demo_backup (Some (replicate 16 3)) (Some (replicate 12 4)) [112] [[1, 2], [], [3]] = Inr blob \<and>
     import_backup demo_backup 64 [112] blob = Return (Inr [[1, 2], [], [3]])"
  by (rule backup_round_trip [OF demo_backup_ok]) (simp_all add: records_fit_def serialize_records_def capacity_ok_def)

theorem import_accepts_only_exports_witness:
  "\<exists>blob. import_backup demo_backup 64 [112] blob = Return (Inr [[7]]) \<and>
     export demo_backup (Some (take 16 (drop 5 blob))) (Some (take 12 (drop 21 blob))) [112] [[7]] = Inr blob"
proof -
  have fit: "records_fit 64 [[7]]" by (simp add: records_fit_def serialize_records_def capacity_ok_def)
  define c where "c = serialize_records [[7]] @ pad_to 16 (pad_to 32 (replicate 16 3 @ [112]))"
  define blob where "blob = MAGIC @ [VERSION] @ replicate 16 3 @ replicate 12 4 @ c"
  have lc: "length c = 25" by (simp add: c_def serialize_records_def)
  note parts = blob_parts [of "replicate 16 3" "replicate 12 4" c, folded blob_def, simplified]
  have dec: "demo_dec (pad_to 32 (replicate 16 3 @ [112])) n c = Some (serialize_records [[7]])" for n
    by (simp add: demo_dec_def c_def)
  have "import_backup demo_backup 64 [112] blob = Return (Inr [[7]])"
    using import_long [of blob demo_backup 64 "[112]"] parts lc dec deserialize_written [OF fit]
    by (simp add: derive_key_def demo_backup_def ok_or_def)
  moreover from import_accepts_only_exports [OF demo_backup_ok this] lc parts
  have "export demo_backup (Some (take 16 (drop 5 blob))) (Some (take 12 (drop 21 blob))) [112] [[7]] = Inr blob" by simp
  ultimately show ?thesis by blast
qed

lemma import_rejection:
  assumes "backup_ok B" "length blob < 2 ^ 63"
  shows "import_backup B 64 p blob \<noteq> Panic \<and>
    (53 \<le> length blob \<and> take 4 blob = MAGIC \<and> blob ! 4 = VERSION \<and>
      (\<forall>key. derive_key B p (take 16 (drop 5 blob)) = Inr key \<longrightarrow>
        gcm_dec B key (take 12 (drop 21 blob)) (build_aad B (take 16 (drop 5 blob)) (take 12 (drop 21 blob))) (drop 33 blob) = None)
     \<longrightarrow> import_backup B 64 p blob = Return (Inl DecryptionFailed))"
proof (cases "53 \<le> length blob")
  case True
  let ?salt = "take 16 (drop 5 blob)" and ?nonce = "take 12 (drop 21 blob)"
  have l: "length ?salt = 16" "length ?nonce = 12" using True by simp_all
  then obtain key where k: "derive_key B p ?salt = Inr key" "length key = 32" using derive_key_ok [OF assms(1)] by blast
  have "deserialize_records 64 m \<noteq> Panic" if d: "gcm_dec B key ?nonce (build_aad B ?salt ?nonce) (drop 33 blob) = Some m" for m
  proof -
    have "length (drop 33 blob) = length m + 16"
      by (rule gcm_dec_length [OF assms(1) k(2) l(2) d])
    then show ?thesis using assms(2) by (intro deserialize_no_panic) simp
  qed
  then show ?thesis
    unfolding import_long [OF True] by (auto simp: k(1) ok_or_def Let_def split: option.splits)
qed (simp add: import_short)

text \<open>
  Import never panics with 64-bit offsets, and every blob whose magic and version are intact but
  which the cipher rejects, be it for a wrong passphrase or for a changed salt, nonce or body, is
  answered with \<open>DecryptionFailed\<close>: a changed header field is not told apart as \<open>Tampered\<close>.
\<close>

theorem import_rejection_is_uniform:
  assumes "backup_ok B" "length blob < 2 ^ 63"
  shows "import_backup B 64 p blob \<noteq> Panic \<and>
    (53 \<le> length blob \<and> take 4 blob = MAGIC \<and> blob ! 4 = VERSION \<and>
      (\<forall>key. derive_key B p (take 16 (drop 5 blob)) = Inr key \<longrightarrow>
        gcm_dec B key (take 12 (drop 21 blob)) (build_aad B (take 16 (drop 5 blob)) (take 12 (drop 21 blob))) (drop 33 blob) = None)
     \<longrightarrow> import_backup B 64 p blob = Return (Inl DecryptionFailed))"
  by (rule import_rejection [OF assms])

theorem import_rejection_is_uniform_witness:
  "\<exists>blob. export demo_backup (Some (replicate 16 3)) (Some (replicate 12 4)) [112] [[7]] = Inr blob \<and>
     import_backup demo_backup 64 [112] (take 5 blob @ [9] @ drop 6 blob) = Return (Inl DecryptionFailed)"
proof -
  define c where "c = serialize_records [[7]] @ pad_to 16 (pad_to 32 (replicate 16 3 @ [112]))"
  define blob where "blob = MAGIC @ [VERSION] @ replicate 16 3 @ replicate 12 4 @ c"
  define bad where "bad = MAGIC @ [VERSION] @ (9 # replicate 15 3) @ replicate 12 4 @ c"
  have lc: "length c = 25" by (simp add: c_def serialize_records_def)
  note parts = blob_parts [of "9 # replicate 15 3" "replicate 12 4" c, folded bad_def, simplified]
  have h3: "hd (drop 9 c) = 3" by (simp add: c_def serialize_records_def pad_to_def numeral_eq_Suc)
  have h9: "hd (pad_to 16 (pad_to 32 ((9 :: u8) # replicate 15 3 @ [112]))) = 9" by (simp add: pad_to_def numeral_eq_Suc)
  have "drop 9 c \<noteq> pad_to 16 (pad_to 32 (9 # replicate 15 3 @ [112]))"
  proof
    assume "drop 9 c = pad_to 16 (pad_to 32 (9 # replicate 15 3 @ [112]))"
    with h3 h9 show False by simp
  qed
  then have "demo_dec (pad_to 32 (9 # replicate 15 3 @ [112])) n c = None" for n
    by (simp add: demo_dec_def lc)
  then have "import_backup demo_backup 64 [112] bad = Return (Inl DecryptionFailed)"
    using import_rejection_is_uniform [OF demo_backup_ok, of bad "[112]"] parts lc
    by (simp add: derive_key_def demo_backup_def)
  moreover have "export demo_backup (Some (replicate 16 3)) (Some (replicate 12 4)) [112] [[7]] = Inr blob"
    by (simp add: export_def ok_or_def derive_key_def demo_backup_def demo_enc_def c_def blob_def Let_def)
  moreover have "take 5 blob @ [9] @ drop 6 blob = bad"
    by (simp add: blob_def bad_def numeral_eq_Suc MAGIC_def str_bytes_def)
  ultimately show ?thesis by metis
qed

end
