(* ===== verification/Desktop.thy ===== *)
theory Desktop
  imports Wasm_Bindings Backup
begin

text \<open>
  The Rust side of the desktop shell (\<open>clients/desktop-tauri/src-tauri/src\<close>): restoring a backup
  (\<open>backup.rs\<close>), the safety-number state machine (\<open>verify.rs\<close>), the IPC commands and their error
  (\<open>commands.rs\<close>, \<open>error.rs\<close>) and the rendering of a conversation (\<open>ui.rs\<close>). UTF-8 decoding with
  replacement and the calendar format are parameters.
\<close>

section \<open>Restoring a backup\<close>

datatype RestoreError = IncompleteBackup | WrongPassphrase | RestoreTampered

definition MIN_SIZE :: nat where "MIN_SIZE = 4 + 1 + 16 + 12 + 16 + 4"

definition restore_backup :: "backup_lib \<Rightarrow> nat \<Rightarrow> bytes \<Rightarrow> bytes \<Rightarrow> (RestoreError + bytes list) run" where
  "restore_backup B w passphrase blob =
     (if length blob < MIN_SIZE then Return (Inl IncompleteBackup)
      else run_bind (import_backup B w passphrase blob) (\<lambda>r.
        Return (case r of
            Inr records \<Rightarrow> Inr records
          | Inl e \<Rightarrow>
              (case e of
                 Tampered \<Rightarrow> Inl IncompleteBackup
               | Empty \<Rightarrow> Inl IncompleteBackup
               | DecryptionFailed \<Rightarrow> Inl WrongPassphrase))))"

section \<open>Safety-number verification\<close>

datatype VerificationState =
    Unverified
  | Verified
  | KeyChangedWarning string string

text \<open>The thread-local \<open>EXPECTED\<close> is threaded: \<open>new\<close> overwrites it, \<open>verify_safety_number\<close> reads it.\<close>

type_synonym EXPECTED = "string option"

definition VerificationState_new :: "string \<Rightarrow> EXPECTED \<Rightarrow> VerificationState \<times> EXPECTED" where
  "VerificationState_new expected _ = (Unverified, Some expected)"

definition verify_safety_number :: "EXPECTED \<Rightarrow> VerificationState \<Rightarrow> string \<Rightarrow> VerificationState" where
  "verify_safety_number cell state input =
     (case (state, cell) of
        (Unverified, Some expected) \<Rightarrow> if input = expected then Verified else Unverified
      | (Verified, Some expected) \<Rightarrow> if input = expected then Verified else KeyChangedWarning expected input
      | (KeyChangedWarning _ _, _) \<Rightarrow> state
      | (_, None) \<Rightarrow> state)"

datatype VerificationFlowDoc = LayUserFriendly

definition describe_verification_flow_for_user :: VerificationFlowDoc where
  "describe_verification_flow_for_user = LayUserFriendly"

definition VerificationFlowDoc_body :: "VerificationFlowDoc \<Rightarrow> string" where
  "VerificationFlowDoc_body d =
     (case d of
        LayUserFriendly \<Rightarrow> ''Compare the safety number shown on your device with the one displayed here. '' @
          ''If they match, you can trust the connection.'')"

section \<open>Commands\<close>

datatype ShellError = Session string

definition ShellError_from :: "('spk, 'otk, 'kpk, 'st) ratchet_lib \<Rightarrow> SessionError \<Rightarrow> ShellError" where
  "ShellError_from R err = Session (SessionError_display R err)"

text \<open>What the UI receives of an error: an object with the constructor's name and its text.\<close>

definition ShellError_json :: "ShellError \<Rightarrow> (string \<times> string) list" where
  "ShellError_json e = (case e of Session message \<Rightarrow> [(''kind'', ''Session''), (''message'', message)])"

definition shell_generate_identity :: "prims \<Rightarrow> bytes \<Rightarrow> ShellError + bytes" where
  "shell_generate_identity P secret =
     (let identity = IdentityKeyPair_generate P secret
      in Inr (PublicIdentityKey_to_bytes (IdentityKeyPair_public P identity)))"

definition establish_malformed_session ::
  "session_lib \<Rightarrow> ('spk, 'otk) signal_lib \<Rightarrow> ('spk, 'otk, 'kpk) record_lib \<Rightarrow> ('spk, 'otk, 'kpk, 'st) ratchet_lib \<Rightarrow>
   bob_rand \<Rightarrow> u64 \<Rightarrow> bytes \<Rightarrow> bytes \<Rightarrow> bytes \<Rightarrow> (ShellError + unit) run" where
  "establish_malformed_session L S A R w now rnd bob_identity alice_identity =
     run_map_err (ShellError_from R)
       (establish_with_malformed_prekey L S A R w now rnd bob_identity alice_identity)"

section \<open>Conversations\<close>

datatype Direction = Sent | Received

record Message =
  direction :: Direction
  msg_body :: bytes
  unix_ts :: int

definition Message_sent :: "bytes \<Rightarrow> int \<Rightarrow> Message" where
  "Message_sent body_bytes ts = \<lparr>direction = Sent, msg_body = body_bytes, unix_ts = ts\<rparr>"

definition Message_received :: "bytes \<Rightarrow> int \<Rightarrow> Message" where
  "Message_received body_bytes ts = \<lparr>direction = Received, msg_body = body_bytes, unix_ts = ts\<rparr>"

text \<open>
  The library calls of rendering: \<open>String::from_utf8_lossy\<close>, chrono's conversion and format of a
  timestamp (\<open>None\<close> when it is out of range), and the decimal text of an integer.
\<close>

record ui_lib =
  from_utf8_lossy :: "bytes \<Rightarrow> string"
  format_timestamp :: "int \<Rightarrow> string option"
  show_i64 :: "int \<Rightarrow> string"

definition body_text :: "ui_lib \<Rightarrow> Message \<Rightarrow> string" where
  "body_text U m = from_utf8_lossy U (msg_body m)"

definition human_timestamp :: "ui_lib \<Rightarrow> Message \<Rightarrow> string" where
  "human_timestamp U m =
     (case format_timestamp U (unix_ts m) of
        Some s \<Rightarrow> s
      | None \<Rightarrow> ''invalid timestamp ('' @ show_i64 U (unix_ts m) @ '')'')"

record ConversationState =
  messages :: "Message list"

definition render_line :: "ui_lib \<Rightarrow> Message \<Rightarrow> string" where
  "render_line U m =
     (let sender = (case direction m of Sent \<Rightarrow> ''You'' | Received \<Rightarrow> ''Them'')
      in ''['' @ human_timestamp U m @ ''] '' @ sender @ '': '' @ body_text U m)"

fun join_lines :: "string list \<Rightarrow> string" where
  "join_lines [] = ''''"
| "join_lines [l] = l"
| "join_lines (l # ls) = l @ [CHR 0x0A] @ join_lines ls"

definition render_conversation :: "ui_lib \<Rightarrow> ConversationState \<Rightarrow> string" where
  "render_conversation U state =
     (if messages state = [] then ''no messages yet''
      else join_lines (map (render_line U) (messages state)))"

section \<open>Lemmas\<close>

lemma verify_simps [simp]:
  "verify_safety_number (Some e) Unverified i = (if i = e then Verified else Unverified)"
  "verify_safety_number (Some e) Verified i = (if i = e then Verified else KeyChangedWarning e i)"
  "verify_safety_number c (KeyChangedWarning p q) i = KeyChangedWarning p q"
  by (simp_all add: verify_safety_number_def split: option.splits)

lemma verify_absorbed: "fold (\<lambda>i s. verify_safety_number c s i) is (KeyChangedWarning p q) = KeyChangedWarning p q"
  by (induction "is") simp_all

lemma verify_from_verified:
  "fold (\<lambda>i s. verify_safety_number (Some e) s i) is Verified =
     (case find (\<lambda>i. i \<noteq> e) is of None \<Rightarrow> Verified | Some i \<Rightarrow> KeyChangedWarning e i)"
  by (induction "is") (simp_all add: verify_absorbed)

lemma restore_mapping:
  assumes "backup_ok B" "length blob < 2 ^ 63"
  shows "\<exists>r. restore_backup B 64 p blob = Return r \<and> r \<noteq> Inl RestoreTampered"
proof -
  have "import_backup B 64 p blob \<noteq> Panic" using import_rejection [OF assms] by blast
  then obtain r where "import_backup B 64 p blob = Return r" by (cases "import_backup B 64 p blob") auto
  then show ?thesis by (auto simp: restore_backup_def split: sum.splits BackupError.splits)
qed

section \<open>Properties\<close>

text \<open>
  C36: Restoring gives back an exported backup under its passphrase, never panics with 64-bit offsets
  and returns records only if the import does. Its errors are coarse: the variant \<open>Tampered\<close> is
  never returned, and a blob whose salt, nonce or body was altered after export, so that the
  cipher rejects it, is reported as \<open>WrongPassphrase\<close> even under the right passphrase.
\<close>

theorem restore_backup_outcomes:
  assumes "backup_ok B" "length blob < 2 ^ 63"
  shows "(\<exists>r. restore_backup B 64 p blob = Return r \<and> r \<noteq> Inl RestoreTampered \<and>
       (\<forall>rs. r = Inr rs \<longleftrightarrow> import_backup B 64 p blob = Return (Inr rs))) \<and>
    (53 \<le> length blob \<and> take 4 blob = MAGIC \<and> blob ! 4 = VERSION \<and>
      (\<forall>key. derive_key B p (take 16 (drop 5 blob)) = Inr key \<longrightarrow>
        gcm_dec B key (take 12 (drop 21 blob)) (build_aad B (take 16 (drop 5 blob)) (take 12 (drop 21 blob))) (drop 33 blob) = None)
     \<longrightarrow> restore_backup B 64 p blob = Return (Inl WrongPassphrase)) \<and>
    (records_fit 64 rs \<and> length salt = 16 \<and> length nonce = 12 \<longrightarrow>
      (\<exists>blob. export B (Some salt) (Some nonce) p rs = Inr blob \<and> restore_backup B 64 p blob = Return (Inr rs)))"
proof (intro conjI impI)
  obtain r where r: "restore_backup B 64 p blob = Return r" "r \<noteq> Inl RestoreTampered"
    using restore_mapping [OF assms] by blast
  moreover have "r = Inr rs \<longleftrightarrow> import_backup B 64 p blob = Return (Inr rs)" for rs
    using r(1) import_rejection [OF assms, of p] import_short [of blob B 64 p]
    by (cases "import_backup B 64 p blob") (auto simp: restore_backup_def MIN_SIZE_def split: sum.splits BackupError.splits if_splits)
  ultimately show "\<exists>r. restore_backup B 64 p blob = Return r \<and> r \<noteq> Inl RestoreTampered \<and>
       (\<forall>rs. r = Inr rs \<longleftrightarrow> import_backup B 64 p blob = Return (Inr rs))" by blast
next
  assume "53 \<le> length blob \<and> take 4 blob = MAGIC \<and> blob ! 4 = VERSION \<and>
      (\<forall>key. derive_key B p (take 16 (drop 5 blob)) = Inr key \<longrightarrow>
        gcm_dec B key (take 12 (drop 21 blob)) (build_aad B (take 16 (drop 5 blob)) (take 12 (drop 21 blob))) (drop 33 blob) = None)"
  then show "restore_backup B 64 p blob = Return (Inl WrongPassphrase)"
    using import_rejection [OF assms, of p] by (auto simp: restore_backup_def MIN_SIZE_def)
next
  assume fit: "records_fit 64 rs \<and> length salt = 16 \<and> length nonce = 12"
  then obtain b where b: "export B (Some salt) (Some nonce) p rs = Inr b" "import_backup B 64 p b = Return (Inr rs)"
    using import_of_export [OF assms(1)] by blast
  have "53 \<le> length b" using b(2) import_short [of b B 64 p] by (cases "length b < 53") auto
  then show "\<exists>blob. export B (Some salt) (Some nonce) p rs = Inr blob \<and> restore_backup B 64 p blob = Return (Inr rs)"
    using b by (auto simp: restore_backup_def MIN_SIZE_def)
qed

theorem restore_backup_outcomes_witness:
  "restore_backup demo_backup 64 [112] [1, 2, 3] = Return (Inl IncompleteBackup) \<and>
   (\<exists>blob. export demo_backup (Some (replicate 16 3)) (Some (replicate 12 4)) [112] [[7], []] = Inr blob \<and>
     restore_backup demo_backup 64 [112] blob = Return (Inr [[7], []]))"
proof -
  have fit: "records_fit 64 [[7], []]" by (simp add: records_fit_def serialize_records_def capacity_ok_def)
  show ?thesis
    using restore_backup_outcomes [OF demo_backup_ok, of "[1, 2, 3]" "[112]" "[[7], []]" "replicate 16 3" "replicate 12 4"] fit
    by (simp add: restore_backup_def MIN_SIZE_def)
qed

text \<open>
  The verification state is a function of the numbers entered since the state was created: it is
  \<open>Unverified\<close> until the expected number is entered, \<open>Verified\<close> as long as only the expected number
  follows, and the first other number after that raises a warning naming it that no later entry
  clears.
\<close>

theorem verification_tracks_entries:
  "fold (\<lambda>i s. verify_safety_number (snd (VerificationState_new e cell)) s i) entries (fst (VerificationState_new e cell)) =
     (case dropWhile (\<lambda>i. i \<noteq> e) entries of
        [] \<Rightarrow> Unverified
      | _ # later \<Rightarrow> (case find (\<lambda>i. i \<noteq> e) later of None \<Rightarrow> Verified | Some i \<Rightarrow> KeyChangedWarning e i))"
  unfolding VerificationState_new_def fst_conv snd_conv
  by (induction entries) (simp_all add: verify_from_verified)

text \<open>
  The number a state is checked against is the one of the latest state created, not its own: after
  a state for a second contact is created, the first contact's state is verified by the second
  contact's number and, when the numbers differ, no longer by its own.
\<close>

theorem expected_number_is_shared:
  "let (s1, c1) = VerificationState_new a c; (s2, c2) = VerificationState_new b c1 in
     verify_safety_number c2 s1 b = Verified \<and>
     verify_safety_number c2 s1 a = (if a = b then Verified else Unverified)"
  by (auto simp: VerificationState_new_def Let_def)

text \<open>
  The rendered history is not unambiguous: a received message whose body continues with a line
  break and the text of another entry renders exactly like the shorter message followed by that
  entry, so a correspondent can make the history show a message the user never sent.
\<close>

theorem rendered_history_can_be_forged:
  assumes "from_utf8_lossy U forged = from_utf8_lossy U b @ [CHR 0x0A] @ render_line U (Message_sent b' ts')"
  shows "render_conversation U \<lparr>messages = pre @ [Message_received forged ts] @ post\<rparr> =
    render_conversation U \<lparr>messages = pre @ [Message_received b ts, Message_sent b' ts'] @ post\<rparr>"
proof -
  have line: "render_line U (Message_received forged ts) =
      render_line U (Message_received b ts) @ [CHR 0x0A] @ render_line U (Message_sent b' ts')"
    using assms by (simp add: render_line_def body_text_def human_timestamp_def Message_received_def cong: option.case_cong)
  have "join_lines ((l @ [CHR 0x0A] @ l') # ls) = join_lines (l # l' # ls)" for l l' ls
    by (cases ls) simp_all
  then have "join_lines (ks @ (l @ [CHR 0x0A] @ l') # ls) = join_lines (ks @ l # l' # ls)" for ks l l' ls
  proof (induction ks)
    case (Cons k ks)
    then show ?case by (cases ks) simp_all
  qed simp
  then show ?thesis using line by (simp add: render_conversation_def)
qed

text \<open>ASCII decodes to itself; timestamps are shown as a fixed text.\<close>

definition demo_ui :: ui_lib where
  "demo_ui = \<lparr>from_utf8_lossy = map (\<lambda>b. char_of (unat b)), format_timestamp = (\<lambda>_. Some ''noon''), show_i64 = (\<lambda>_. '''')\<rparr>"

theorem rendered_history_can_be_forged_witness:
  "render_conversation demo_ui \<lparr>messages =
      [Message_received (str_bytes (''hi'' @ [CHR 0x0A] @ ''[noon] You: yes'')) 0]\<rparr> =
   render_conversation demo_ui \<lparr>messages = [Message_received (str_bytes ''hi'') 0, Message_sent (str_bytes ''yes'') 1]\<rparr>"
proof -
  have "from_utf8_lossy demo_ui (str_bytes (''hi'' @ [CHR 0x0A] @ ''[noon] You: yes'')) =
    from_utf8_lossy demo_ui (str_bytes ''hi'') @ [CHR 0x0A] @ render_line demo_ui (Message_sent (str_bytes ''yes'') 1)"
    by code_simp
  from rendered_history_can_be_forged [OF this, of "[]" 0 "[]"] show ?thesis by simp
qed

section \<open>The entry point\<close>

text \<open>
  \<open>run\<close> registers the commands by name and enters the UI framework's loop, whose error it expects
  not to occur.
\<close>

definition invoke_handler :: "string list" where
  "invoke_handler = [''generate_identity'', ''establish_malformed_session'']"

definition desktop_run :: "(string list \<Rightarrow> 'e + unit) \<Rightarrow> unit run" where
  "desktop_run tauri_run = (case tauri_run invoke_handler of Inl _ \<Rightarrow> Panic | Inr _ \<Rightarrow> Return ())"

definition desktop_main :: "(string list \<Rightarrow> 'e + unit) \<Rightarrow> unit run" where
  "desktop_main tauri_run = desktop_run tauri_run"

end
