(* ===== verification/Transport.thy ===== *)
theory Transport
  imports Prelude
begin

text \<open>
  The transport crate around the message formats: length padding (\<open>core/transport/src/padding.rs\<close>),
  the connection registry and direct delivery (\<open>online.rs\<close>), and the Tor gate of swarm
  construction (\<open>privacy.rs\<close>, \<open>lib.rs\<close>). Sockets and the libp2p swarm builder are parameters.
\<close>

section \<open>Padding\<close>

definition BUCKETS :: "nat list" where "BUCKETS = [4096, 16384, 65536]"

definition PaddedSizes_bucket_of :: "nat \<Rightarrow> nat" where
  "PaddedSizes_bucket_of len =
     (case find (\<lambda>b. len \<le> b) BUCKETS of Some b \<Rightarrow> b | None \<Rightarrow> len)"

definition pad_message :: "bytes \<Rightarrow> bytes" where
  "pad_message msg =
     (let target = PaddedSizes_bucket_of (length msg)
      in if length msg < target then msg @ replicate (target - length msg) 0 else msg)"

section \<open>Direct delivery\<close>

text \<open>
  The process-global registry is threaded as state; its mutex is held for each single access.
\<close>

datatype DeliveryError =
    PeerUnreachable bytes nat
  | TimedOut bytes nat
  | SessionClosed bytes

text \<open>\<open>debug_bytes\<close> and \<open>debug_duration\<close> are the standard library's debug formats.\<close>

definition DeliveryError_display :: "(bytes \<Rightarrow> string) \<Rightarrow> (nat \<Rightarrow> string) \<Rightarrow> DeliveryError \<Rightarrow> string" where
  "DeliveryError_display debug_bytes debug_duration e =
     (case e of
        PeerUnreachable peer_id within \<Rightarrow>
          ''peer '' @ debug_bytes peer_id @ '' unreachable within '' @ debug_duration within
      | TimedOut peer_id within \<Rightarrow>
          ''delivery to '' @ debug_bytes peer_id @ '' timed out after '' @ debug_duration within
      | SessionClosed peer_id \<Rightarrow> ''recipient session for '' @ debug_bytes peer_id @ '' closed'')"

datatype PeerStatus = Connected | Unreachable

record Registry =
  reg_connected :: "(bytes, unit) hmap"

definition Registry_default :: Registry where
  "Registry_default = \<lparr>reg_connected = []\<rparr>"

definition mark_peer_connected :: "bytes \<Rightarrow> Registry \<Rightarrow> Registry" where
  "mark_peer_connected peer_id r = r\<lparr>reg_connected := hm_insert peer_id () (reg_connected r)\<rparr>"

definition mark_peer_disconnected :: "bytes \<Rightarrow> Registry \<Rightarrow> Registry" where
  "mark_peer_disconnected peer_id r = r\<lparr>reg_connected := hm_remove peer_id (reg_connected r)\<rparr>"

definition peer_status :: "bytes \<Rightarrow> Registry \<Rightarrow> PeerStatus" where
  "peer_status peer_id r = (if map_of (reg_connected r) peer_id \<noteq> None then Connected else Unreachable)"

text \<open>
  \<open>tokio::time::timeout\<close> polls the future before the clock: a future that is ready at the first
  poll (\<open>Some\<close>) is returned whatever the limit; one that never is ends in the error.
\<close>

definition timeout :: "nat \<Rightarrow> 'a option \<Rightarrow> unit + 'a" where
  "timeout limit fut = (case fut of Some x \<Rightarrow> Inr x | None \<Rightarrow> Inl ())"

definition deliver :: "bytes \<Rightarrow> bytes \<Rightarrow> nat \<Rightarrow> Registry \<Rightarrow> DeliveryError + bytes" where
  "deliver peer_id envelope timeout_dur r =
     (if map_of (reg_connected r) peer_id = None then Inl (PeerUnreachable peer_id timeout_dur)
      else (case timeout timeout_dur (Some envelope) of
              Inr bs \<Rightarrow> Inr bs
            | Inl _ \<Rightarrow> Inl (TimedOut peer_id timeout_dur)))"

section \<open>The Tor gate\<close>

definition DEFAULT_TOR_SOCKS_ADDR :: string where "DEFAULT_TOR_SOCKS_ADDR = ''127.0.0.1:9050''"

definition PROXY_CONNECT_TIMEOUT :: nat where "PROXY_CONNECT_TIMEOUT = 2"

record TransportPrivacyConfig =
  tor_enabled :: bool
  tor_socks_addr :: string

definition TransportPrivacyConfig_default :: TransportPrivacyConfig where
  "TransportPrivacyConfig_default = \<lparr>tor_enabled = False, tor_socks_addr = DEFAULT_TOR_SOCKS_ADDR\<rparr>"

datatype TorUnavailable = InvalidProxyAddress string | ProxyUnreachable string

definition TorUnavailable_display :: "TorUnavailable \<Rightarrow> string" where
  "TorUnavailable_display e =
     (case e of
        InvalidProxyAddress addr \<Rightarrow> ''invalid Tor SOCKS proxy address: '' @ addr
      | ProxyUnreachable addr \<Rightarrow> ''Tor SOCKS proxy unreachable at '' @ addr)"

text \<open>The components of a multiaddress the SOCKS transport tells apart.\<close>

datatype Protocol =
    Ip4 string | Ip6 string | Dns string | Dns4 string | Dns6 string | Tcp u16 | OtherProtocol string

definition multiaddr_to_tcp_target :: "Protocol list \<Rightarrow> string option" where
  "multiaddr_to_tcp_target addr =
     (case addr of
        proto1 # proto2 # _ \<Rightarrow>
          (case (proto1, proto2) of
             (Ip4 ip, Tcp port) \<Rightarrow> Some (ip @ '':'' @ show_nat (unat port))
           | (Ip6 ip, Tcp port) \<Rightarrow> Some (''['' @ ip @ '']:'' @ show_nat (unat port))
           | (Dns host, Tcp port) \<Rightarrow> Some (host @ '':'' @ show_nat (unat port))
           | (Dns4 host, Tcp port) \<Rightarrow> Some (host @ '':'' @ show_nat (unat port))
           | (Dns6 host, Tcp port) \<Rightarrow> Some (host @ '':'' @ show_nat (unat port))
           | _ \<Rightarrow> None)
      | _ \<Rightarrow> None)"

text \<open>
  The SOCKS transport: dialling resolves the target and connects to it through the stored proxy
  address, listening is refused. A dial yields a future; the model gives the future's outcome,
  with \<open>connect\<close> the call \<open>Socks5Stream::connect(proxy, target)\<close>.
\<close>

record Socks5TcpTransport =
  proxy_addr :: string

definition Socks5TcpTransport_new :: "string \<Rightarrow> Socks5TcpTransport" where
  "Socks5TcpTransport_new addr = \<lparr>proxy_addr = addr\<rparr>"

datatype TransportError = MultiaddrNotSupported "Protocol list"

datatype 'e ConnectionRefused = ConnectionRefused 'e

definition Socks5TcpTransport_listen_on :: "Socks5TcpTransport \<Rightarrow> Protocol list \<Rightarrow> TransportError + unit" where
  "Socks5TcpTransport_listen_on t addr = Inl (MultiaddrNotSupported addr)"

definition Socks5TcpTransport_remove_listener :: "Socks5TcpTransport \<Rightarrow> nat \<Rightarrow> bool" where
  "Socks5TcpTransport_remove_listener t listener = False"

text \<open>The transport has no listeners, so polling it never yields an event.\<close>

definition Socks5TcpTransport_poll :: "Socks5TcpTransport \<Rightarrow> TransportError option" where
  "Socks5TcpTransport_poll t = None"

definition Socks5TcpTransport_dial ::
  "(string \<Rightarrow> string \<Rightarrow> 'e + 'stream) \<Rightarrow> Socks5TcpTransport \<Rightarrow> Protocol list \<Rightarrow>
   TransportError + ('e ConnectionRefused + 'stream)" where
  "Socks5TcpTransport_dial connect t addr =
     and_then (ok_or (MultiaddrNotSupported addr) (multiaddr_to_tcp_target addr)) (\<lambda>target.
       Inr (map_err ConnectionRefused (connect (proxy_addr t) target)))"

text \<open>
  What the gate calls: parsing a socket address, a TCP connection attempt within a timeout in
  seconds, and libp2p's builder with the clearnet transports or with the given
  SOCKS transport.
\<close>

record ('addr, 'key, 'swarm, 'e) swarm_lib =
  parse_socket_addr :: "string \<Rightarrow> 'addr option"
  connect_timeout :: "'addr \<Rightarrow> nat \<Rightarrow> bool"
  clearnet_swarm :: "'key \<Rightarrow> 'e + 'swarm"
  socks_swarm :: "Socks5TcpTransport \<Rightarrow> 'key \<Rightarrow> 'e + 'swarm"

definition verify_tor_available ::
  "('addr, 'key, 'swarm, 'e) swarm_lib \<Rightarrow> TransportPrivacyConfig \<Rightarrow> TorUnavailable + unit" where
  "verify_tor_available W config =
     (if \<not> tor_enabled config then Inr ()
      else (case parse_socket_addr W (tor_socks_addr config) of
              None \<Rightarrow> Inl (InvalidProxyAddress (tor_socks_addr config))
            | Some addr \<Rightarrow>
                if connect_timeout W addr PROXY_CONNECT_TIMEOUT then Inr ()
                else Inl (ProxyUnreachable (tor_socks_addr config))))"

datatype 'e SwarmError = TorError TorUnavailable | BuildError 'e

definition build_swarm :: "('addr, 'key, 'swarm, 'e) swarm_lib \<Rightarrow> 'key \<Rightarrow> 'e SwarmError + 'swarm" where
  "build_swarm W keypair = map_err BuildError (clearnet_swarm W keypair)"

definition build_swarm_with_privacy ::
  "('addr, 'key, 'swarm, 'e) swarm_lib \<Rightarrow> 'key \<Rightarrow> TransportPrivacyConfig \<Rightarrow> 'e SwarmError + 'swarm" where
  "build_swarm_with_privacy W keypair privacy =
     (if \<not> tor_enabled privacy then build_swarm W keypair
      else and_then (map_err TorError (verify_tor_available W privacy)) (\<lambda>_.
        map_err BuildError (socks_swarm W (Socks5TcpTransport_new (tor_socks_addr privacy)) keypair)))"

section \<open>The metadata analysis\<close>

text \<open>
  \<open>document_observable_metadata\<close> (\<open>metadata.rs\<close>) builds its text by appending four paragraphs; the
  bullet and the non-breaking hyphen are their UTF-8 bytes.
\<close>

definition bullet :: string where "bullet = [CHR 0xE2, CHR 0x80, CHR 0xA2]"
definition nb_hyphen :: string where "nb_hyphen = [CHR 0xE2, CHR 0x80, CHR 0x91]"

definition document_observable_metadata :: string where
  "document_observable_metadata =
     ''DHT Layer:'' @ [CHR 0x0A] @ [CHR 0x09] @ bullet
       @ '' Peer IDs are exposed as part of the Kademlia routing table and can be observed ''
       @ ''by any node that participates in lookups.'' @ [CHR 0x0A] @ [CHR 0x09] @ bullet
       @ '' Lookup timing is measurable via round'' @ nb_hyphen
       @ ''trip latency to target nodes; an observer can infer network topology or node res''
       @ ''ponsiveness.'' @ [CHR 0x0A] @ ''Relay Store:'' @ [CHR 0x0A] @ [CHR 0x09] @ bullet
       @ '' The relay store holds temporary routing information for relayed connections and''
       @ '' has a configurable Time'' @ nb_hyphen @ ''To'' @ nb_hyphen
       @ ''Live (TTL). Observers can see when entries expire, which may leak usage patterns'' @ ''.''
       @ [CHR 0x0A] @ ''Transport Packet Sizes:'' @ [CHR 0x0A] @ [CHR 0x09] @ bullet
       @ '' Messages are transmitted over libp2p streams with a maximum frame size defined ''
       @ ''by the underlying protocol (e.g., QUIC or TCP). Padding is applied to reduce obs''
       @ ''ervable variance.'' @ [CHR 0x0A] @ ''Key Rotation Cadence:'' @ [CHR 0x0A] @ [CHR 0x09]
       @ bullet @ '' Noise handshakes and QUIC connections rotate keys periodically; the cadence can''
       @ '' be inferred from handshake frequency, which may reveal connection churn.'' @ [CHR 0x0A]"

section \<open>Properties\<close>

lemma bucket_of_cases:
  "PaddedSizes_bucket_of n =
     (if n \<le> 4096 then 4096 else if n \<le> 16384 then 16384 else if n \<le> 65536 then 65536 else n)"
  by (simp add: PaddedSizes_bucket_of_def BUCKETS_def)

lemma length_pad_message: "length (pad_message m) = PaddedSizes_bucket_of (length m)"
  by (auto simp: pad_message_def bucket_of_cases Let_def)

text \<open>
  C35: Padding hides lengths within a tier and loses no content: the padded message starts with the
  message, its length is the smallest bucket that holds it (or the message's own length beyond
  the largest bucket), so messages of one tier have equal padded length, and a longer message
  never pads to a shorter one.
\<close>

theorem padding_hides_length:
  "take (length m) (pad_message m) = m \<and>
   (if length m \<le> 65536
    then length (pad_message m) \<in> set BUCKETS \<and> length m \<le> length (pad_message m) \<and>
      (\<forall>b \<in> set BUCKETS. length m \<le> b \<longrightarrow> length (pad_message m) \<le> b)
    else pad_message m = m) \<and>
   (length m \<le> length m' \<longrightarrow> length (pad_message m) \<le> length (pad_message m')) \<and>
   (length m' \<le> length (pad_message m) \<and> length m \<le> length m' \<longrightarrow> length (pad_message m) = length (pad_message m'))"
proof -
  have "take (length m) (pad_message m) = m" by (simp add: pad_message_def Let_def)
  moreover have "length m > 65536 \<longrightarrow> pad_message m = m" by (simp add: pad_message_def bucket_of_cases)
  ultimately show ?thesis unfolding length_pad_message bucket_of_cases by (auto simp: BUCKETS_def)
qed

theorem padding_hides_length_witness:
  "length (pad_message [1, 2, 3]) = length (pad_message (replicate 4096 7))"
  using padding_hides_length [of "[1, 2, 3]" "replicate 4096 7"] by (simp add: length_pad_message bucket_of_cases)

fun marks :: "(bool \<times> bytes) list \<Rightarrow> Registry" where
  "marks [] = Registry_default"
| "marks ((up, p) # es) = (if up then mark_peer_connected p (marks es) else mark_peer_disconnected p (marks es))"

lemma marks_view: "hm_wf (reg_connected (marks es)) \<and>
  (map_of (reg_connected (marks es)) p \<noteq> None) = (find (\<lambda>e. snd e = p) es = Some (True, p))"
proof (induction es)
  case (Cons e es)
  then show ?case
    by (cases e) (auto simp: mark_peer_connected_def mark_peer_disconnected_def hm.get_insert hm.get_remove
        hm.invar_insert hm.invar_remove)
qed (simp add: Registry_default_def hm.invar_empty)

text \<open>
  Delivery is deny-by-default: after any history of connects and disconnects, latest first, a
  message is delivered, unaltered, exactly when the peer's latest event is a connect; otherwise
  the answer is \<open>PeerUnreachable\<close>, and the status query agrees.
\<close>

theorem delivery_follows_last_event:
  "deliver p e t (marks es) =
     (if find (\<lambda>x. snd x = p) es = Some (True, p) then Inr e else Inl (PeerUnreachable p t)) \<and>
   peer_status p (marks es) = (if find (\<lambda>x. snd x = p) es = Some (True, p) then Connected else Unreachable)"
  using marks_view [of es p] by (auto simp: deliver_def timeout_def peer_status_def)

text \<open>
  C28: Tor never falls back to clearnet: with Tor enabled a swarm is returned only if the proxy
  address parses and accepts a connection, it is then the one built on the SOCKS transport of that
  address, and the outcome does not depend on the clearnet builder at all. Every dial of that
  transport is a connection to the configured proxy or a refusal, and it never listens. With the
  default configuration the clearnet swarm is built and no proxy is contacted.
\<close>

theorem tor_never_falls_back:
  assumes "tor_enabled cfg"
  shows "(build_swarm_with_privacy W k cfg = Inr s \<longrightarrow>
       (\<exists>a. parse_socket_addr W (tor_socks_addr cfg) = Some a \<and> connect_timeout W a 2) \<and>
       (\<exists>t. socks_swarm W t k = Inr s \<and>
         (\<forall>connect connect' addr. connect (tor_socks_addr cfg) = connect' (tor_socks_addr cfg) \<longrightarrow>
            Socks5TcpTransport_dial connect t addr = Socks5TcpTransport_dial connect' t addr) \<and>
         (\<forall>addr. Socks5TcpTransport_listen_on t addr = Inl (MultiaddrNotSupported addr)))) \<and>
     build_swarm_with_privacy (W\<lparr>clearnet_swarm := any\<rparr>) k cfg = build_swarm_with_privacy W k cfg \<and>
     build_swarm_with_privacy (W\<lparr>connect_timeout := conn, socks_swarm := any'\<rparr>) k TransportPrivacyConfig_default =
       map_err BuildError (clearnet_swarm W k)"
proof (intro conjI impI)
  let ?t = "Socks5TcpTransport_new (tor_socks_addr cfg)"
  assume built: "build_swarm_with_privacy W k cfg = Inr s"
  then show "\<exists>a. parse_socket_addr W (tor_socks_addr cfg) = Some a \<and> connect_timeout W a 2"
    using assms by (auto simp: build_swarm_with_privacy_def verify_tor_available_def and_then_Inr
        map_err_def PROXY_CONNECT_TIMEOUT_def split: sum.splits option.splits if_splits)
  have "socks_swarm W ?t k = Inr s" using assms built
    by (auto simp: build_swarm_with_privacy_def and_then_Inr map_err_def split: sum.splits)
  then show "\<exists>t. socks_swarm W t k = Inr s \<and>
         (\<forall>connect connect' addr. connect (tor_socks_addr cfg) = connect' (tor_socks_addr cfg) \<longrightarrow>
            Socks5TcpTransport_dial connect t addr = Socks5TcpTransport_dial connect' t addr) \<and>
         (\<forall>addr. Socks5TcpTransport_listen_on t addr = Inl (MultiaddrNotSupported addr))"
    by (intro exI [of _ ?t])
      (simp add: Socks5TcpTransport_dial_def Socks5TcpTransport_new_def Socks5TcpTransport_listen_on_def)
next
  show "build_swarm_with_privacy (W\<lparr>clearnet_swarm := any\<rparr>) k cfg = build_swarm_with_privacy W k cfg"
    using assms by (simp add: build_swarm_with_privacy_def verify_tor_available_def cong: option.case_cong)
  show "build_swarm_with_privacy (W\<lparr>connect_timeout := conn, socks_swarm := any'\<rparr>) k TransportPrivacyConfig_default =
     map_err BuildError (clearnet_swarm W k)"
    by (simp add: build_swarm_with_privacy_def build_swarm_def TransportPrivacyConfig_default_def)
qed

text \<open>A libp2p in which swarms are just named and only port 9050 answers.\<close>

definition demo_swarms :: "(string, unit, string, string) swarm_lib" where
  "demo_swarms =
     \<lparr>parse_socket_addr = Some, connect_timeout = (\<lambda>a limit. a = ''127.0.0.1:9050''),
      clearnet_swarm = (\<lambda>_. Inr ''clearnet''), socks_swarm = (\<lambda>t _. Inr (''via '' @ proxy_addr t))\<rparr>"

theorem tor_never_falls_back_witness:
  "build_swarm_with_privacy demo_swarms () \<lparr>tor_enabled = True, tor_socks_addr = DEFAULT_TOR_SOCKS_ADDR\<rparr> =
     Inr ''via 127.0.0.1:9050'' \<and>
   (\<exists>t. socks_swarm demo_swarms t () = Inr ''via 127.0.0.1:9050'')"
proof -
  have built: "build_swarm_with_privacy demo_swarms () \<lparr>tor_enabled = True, tor_socks_addr = DEFAULT_TOR_SOCKS_ADDR\<rparr> =
     Inr ''via 127.0.0.1:9050''" by code_simp
  with tor_never_falls_back [of "\<lparr>tor_enabled = True, tor_socks_addr = DEFAULT_TOR_SOCKS_ADDR\<rparr>" demo_swarms "()" "''via 127.0.0.1:9050''"
      "\<lambda>_. Inl ''refused''" "\<lambda>_ _. Inl ''refused''" "\<lambda>_ _. False"]
  show ?thesis by auto
qed

end
