(* ===== verification/Audit_Tracker.thy ===== *)
theory Audit_Tracker
  imports Group
begin

text \<open>
  The tracker of security findings (\<open>docs/audit/src/lib.rs\<close>): the findings as data, with their
  texts, and the release criteria its checks (\<open>docs/audit/findings.rs\<close>) apply to them. The
  theorems are that the recorded set meets the criteria, and that one entry no longer describes
  the code.
\<close>

section \<open>Findings\<close>

datatype Severity = Critical | High | Medium | Low | Info

datatype Status = Untriaged | Open | Triaged | Fixed | WontFix

record Finding =
  f_id :: string
  f_severity :: Severity
  f_status :: Status
  f_description :: string
  f_risk_acceptance :: string

text \<open>The long dash of the texts is three bytes of UTF-8.\<close>

definition load_findings :: "Finding list" where
  "load_findings =
    [\<lparr>f_id = ''AUDIT-001'', f_severity = Critical, f_status = Fixed,
      f_description =
        ''GroupSession::encrypt_as embedded the raw sender-key chain key in plaintext inside '' @
        ''every member's wire-format wrapper, so any passive observer of the ciphertext bytes '' @
        [CHR 0xE2, CHR 0x80, CHR 0x94] @
        '' '' @
        ''not just group members '' @
        [CHR 0xE2, CHR 0x80, CHR 0x94] @
        '' could read a wrapper's chain key directly, rederive the AES '' @
        ''key, and decrypt without holding any private key.'',
      f_risk_acceptance =
        ''''\<rparr>,
     \<lparr>f_id = ''AUDIT-002'', f_severity = Critical, f_status = Fixed,
      f_description =
        ''GroupSession::encrypt_as derived the per-message AES-256-GCM key and nonce from a chain '' @
        ''key that never advanced, so every message from one GroupSession reused the identical '' @
        ''(key, nonce) pair '' @
        [CHR 0xE2, CHR 0x80, CHR 0x94] @
        '' a catastrophic AES-GCM break (plaintext XOR recovery and '' @
        ''GHASH-subkey-recovery-enabled forgery).'',
      f_risk_acceptance =
        ''''\<rparr>,
     \<lparr>f_id = ''AUDIT-003'', f_severity = High, f_status = Fixed,
      f_description =
        ''The initial UniFFI binding's encrypt_message implementation hard-coded an all-zero '' @
        ''AES-256-GCM nonce and reimplemented raw symmetric encryption instead of delegating to '' @
        ''the already-audited PublicIdentityKey::seal primitive, reintroducing the same '' @
        ''nonce-reuse class of defect found in AUDIT-002 at the FFI boundary.'',
      f_risk_acceptance =
        ''''\<rparr>,
     \<lparr>f_id = ''AUDIT-004'', f_severity = High, f_status = Fixed,
      f_description =
        ''GroupSession::remove_member and rotate_sender_key were exposed as two separate calls, '' @
        ''so a caller could remove a member from the wrapper roster without rotating the chain '' @
        ''key, silently leaving the removed member able to ratchet their captured chain key '' @
        ''forward and decrypt every subsequent message.'',
      f_risk_acceptance =
        ''''\<rparr>,
     \<lparr>f_id = ''AUDIT-005'', f_severity = Medium, f_status = WontFix,
      f_description =
        ''GroupSession::sender_key_copy_for and try_decrypt_with_sender_key are pub (not '' @
        ''#[cfg(test)]-gated), exposing the raw chain key through the crate's public API surface '' @
        ''rather than confining it to test code.'',
      f_risk_acceptance =
        ''Both methods are marked #[doc(hidden)] to keep them out of the advertised API surface. '' @
        ''They cannot be made #[cfg(test)]-only because the read-only acceptance oracle '' @
        ''(core/protocol/tests/member_removal_rotation.rs) calls them directly as an external '' @
        ''integration test, which only sees a crate's pub items. Neither method grants a '' @
        ''capability beyond what any holder of a &GroupSession already has by construction (the '' @
        ''chain key), so the exposure is judged low-impact; revisit if a future refactor removes '' @
        ''the test-oracle constraint.''\<rparr>,
     \<lparr>f_id = ''AUDIT-006'', f_severity = Low, f_status = Triaged,
      f_description =
        ''GroupSession::encrypt_as's wire format serializes wrapper_count as a single byte, '' @
        ''silently truncating (wrapping to 0) for groups larger than 255 members instead of '' @
        ''raising a validation error.'',
      f_risk_acceptance =
        ''''\<rparr>,
     \<lparr>f_id = ''AUDIT-007'', f_severity = Info, f_status = Triaged,
      f_description =
        ''The pipeline's Claude-backed code review was passing the --max-tokens CLI flag, which '' @
        ''the installed claude CLI version no longer supports, causing every Claude-backed review '' @
        ''to silently return an inconclusive verdict rather than a real review. Not a '' @
        ''vulnerability in the product itself, but a gap in the review-gate infrastructure that '' @
        ''could have let unreviewed changes reach main.'',
      f_risk_acceptance =
        ''''\<rparr>]"

section \<open>Release criteria\<close>

definition has_resolution_status :: "Finding list \<Rightarrow> bool" where
  "has_resolution_status findings \<longleftrightarrow> findings \<noteq> [] \<and> (\<forall>f \<in> set findings. f_status f \<noteq> Untriaged)"

definition no_severe_open :: "Finding list \<Rightarrow> bool" where
  "no_severe_open findings \<longleftrightarrow>
     (\<forall>f \<in> set findings. f_severity f \<in> {Critical, High} \<longrightarrow> f_status f \<notin> {Open, Untriaged})"

definition wontfix_is_justified :: "Finding list \<Rightarrow> bool" where
  "wontfix_is_justified findings \<longleftrightarrow>
     (\<forall>f \<in> set findings. f_status f = WontFix \<longrightarrow> f_risk_acceptance f \<noteq> [])"

section \<open>Properties\<close>

text \<open>The recorded findings meet the three criteria, and their identifiers are distinct.\<close>

theorem findings_are_release_ready:
  "has_resolution_status load_findings \<and> no_severe_open load_findings \<and> wontfix_is_justified load_findings \<and>
   distinct (map f_id load_findings)"
  by (simp add: has_resolution_status_def no_severe_open_def wontfix_is_justified_def load_findings_def)

text \<open>
  The entry AUDIT-006 is recorded as triaged, not fixed, and says that a group of more than 255
  members wraps the wrapper count. The code refuses such a group before it touches the chain key.
\<close>

theorem audit_006_is_outdated:
  assumes "length (gs_members g) > 255"
  shows "(\<exists>f \<in> set load_findings. f_id f = ''AUDIT-006'' \<and> f_status f = Triaged) \<and>
    (\<exists>msg. GroupSession_encrypt_as P rnd m g = (Return (Inl (InvalidInput, msg)), g))"
  using assms by (simp add: load_findings_def GroupSession_encrypt_as_def MAX_MEMBERS_def)

theorem audit_006_is_outdated_witness:
  "\<exists>msg. GroupSession_encrypt_as demo_prims (\<lambda>_. \<lparr>sr_eph = [], sr_nonce = []\<rparr>) [1]
     \<lparr>gs_members = replicate 256 [], gs_chain_key = []\<rparr> =
     (Return (Inl (InvalidInput, msg)), \<lparr>gs_members = replicate 256 [], gs_chain_key = []\<rparr>)"
  using audit_006_is_outdated [of "\<lparr>gs_members = replicate 256 [], gs_chain_key = []\<rparr>"] by simp

end
