(* ===== verification/Relay_Tests.thy ===== *)
theory Relay_Tests
  imports Ws_Bridge
begin

text \<open>
  The unit tests kept in the relay's modules (\<open>ratelimit/mod.rs\<close>, \<open>pow/mod.rs\<close>, \<open>ws.rs\<close>), translated:
  each is a definition that returns when the test passes and panics when an assertion fails. The
  lemmas show under which conditions on SHA-256 and the drawn nonces they pass; the others pass
  unconditionally.
\<close>

section \<open>Rate limiter\<close>

definition zero_capacity_is_clamped_to_one :: "unit run" where
  "zero_capacity_is_clamped_to_one = assert (RateLimiter_capacity (RateLimiter_per_identity 0) = 1)"

definition independent_identities_do_not_share_budgets :: "unit run" where
  "independent_identities_do_not_share_budgets =
     (let l = RateLimiter_per_identity 1;
          (r, l) = RateLimiter_check (str_bytes ''alice'') (from_secs 0) l
      in run_bind (unwrap r) (\<lambda>_.
      let (r, l) = RateLimiter_check (str_bytes ''bob'') (from_secs 0) l
      in run_bind (unwrap r) (\<lambda>_.
      let (r, l) = RateLimiter_check (str_bytes ''alice'') (from_secs 1) l;
          (r', l) = RateLimiter_check (str_bytes ''bob'') (from_secs 1) l
      in asserts [isl r, isl r'])))"

fun check_each :: "bytes \<Rightarrow> nat list \<Rightarrow> RateLimiter \<Rightarrow> RateLimiter run" where
  "check_each i [] l = Return l"
| "check_each i (s # ss) l =
     (case RateLimiter_check i (from_secs s) l of
        (r, l) \<Rightarrow> run_bind (unwrap r) (\<lambda>_. check_each i ss l))"

definition partial_use_refills_to_full_capacity_after_window :: "unit run" where
  "partial_use_refills_to_full_capacity_after_window =
     (let l = RateLimiter_per_identity_in 5 (from_secs 60);
          i = str_bytes ''carol''
      in run_bind (check_each i [0..<3] l) (\<lambda>l.
         run_bind (check_each i (map (\<lambda>i. 70 + i) [0..<5]) l) (\<lambda>l.
         assert (isl (fst (RateLimiter_check i (from_secs 76) l))))))"

lemmas limiter_test_defs = zero_capacity_is_clamped_to_one_def independent_identities_do_not_share_budgets_def
  partial_use_refills_to_full_capacity_after_window_def RateLimiter_capacity_def RateLimiter_per_identity_def
  RateLimiter_per_identity_in_def RateLimiter_check_def from_secs_def as_secs_def Let_def hm_insert_def
  hm_remove_def str_bytes_def

lemma rate_limiter_tests_pass:
  "zero_capacity_is_clamped_to_one = Return ()"
  "independent_identities_do_not_share_budgets = Return ()"
  "partial_use_refills_to_full_capacity_after_window = Return ()"
  by (simp_all add: limiter_test_defs upt_rec)

section \<open>Proof of work\<close>

definition solve_then_verify_round_trips :: "(bytes \<Rightarrow> bytes) \<Rightarrow> bytes \<Rightarrow> unit run" where
  "solve_then_verify_round_trips sha256 nonce =
     run_bind (Challenge_new (str_bytes ''unit-test'') 16 nonce) (\<lambda>challenge.
     run_bind (solve sha256 challenge) (\<lambda>r.
     run_bind (unwrap r) (\<lambda>solution.
     run_bind (verify sha256 challenge solution) (\<lambda>v. assert (v = Inr ())))))"

definition verify_rejects_bogus_solution :: "(bytes \<Rightarrow> bytes) \<Rightarrow> bytes \<Rightarrow> unit run" where
  "verify_rejects_bogus_solution sha256 nonce =
     run_bind (Challenge_new (str_bytes ''unit-test'') 16 nonce) (\<lambda>challenge.
     let bogus = replicate 8 255
     in run_bind (verify sha256 challenge bogus) (\<lambda>v.
        assert (case v of Inl (Invalid _) \<Rightarrow> True | _ \<Rightarrow> False)))"

definition different_contexts_produce_different_challenges :: "bytes \<Rightarrow> bytes \<Rightarrow> unit run" where
  "different_contexts_produce_different_challenges nonce nonce' =
     run_bind (Challenge_new (str_bytes ''alpha'') 16 nonce) (\<lambda>a.
     run_bind (Challenge_new (str_bytes ''beta'') 16 nonce') (\<lambda>b.
     assert (Challenge_to_wire a \<noteq> Challenge_to_wire b)))"

definition wire_round_trip_preserves_fields :: "bytes \<Rightarrow> unit run" where
  "wire_round_trip_preserves_fields nonce =
     run_bind (Challenge_new (str_bytes ''unit-test'') 20 nonce) (\<lambda>challenge.
     let wire = Challenge_to_wire challenge
     in run_bind (assert (length wire = 2 + length (str_bytes ''unit-test'') + 16 + 4)) (\<lambda>_.
        run_bind (slice_range wire (length wire - 4) (length wire)) (\<lambda>diff_bytes.
        assert (be_nat diff_bytes = 20))))"

fun mint_unique :: "bytes list \<Rightarrow> bytes list \<Rightarrow> unit run" where
  "mint_unique seen [] = Return ()"
| "mint_unique seen (nonce # nonces) =
     run_bind (Challenge_new (str_bytes ''first-contact'') 20 nonce) (\<lambda>c.
     run_bind (assert (Challenge_nonce c \<notin> set seen)) (\<lambda>_. mint_unique (Challenge_nonce c # seen) nonces))"

definition freshly_minted_challenges_have_unique_nonces :: "bytes list \<Rightarrow> unit run" where
  "freshly_minted_challenges_have_unique_nonces nonces = mint_unique [] (take 256 nonces)"

lemma solve_test_passes:
  assumes "digest32 sha256"
    and "k \<le> 2 ^ 32" "be_nat (sha256 (str_bytes ''unit-test'' @ nonce @ le_bytes 8 k)) < 2 ^ 240"
  shows "solve_then_verify_round_trips sha256 nonce = Return ()"
proof -
  let ?c = "\<lparr>ch_context = str_bytes ''unit-test'', ch_nonce = nonce, ch_difficulty = 16\<rparr>"
  obtain j where "solve sha256 ?c = Return (Inr (le_bytes 8 j))"
    "be_nat (sha256 (str_bytes ''unit-test'' @ nonce @ le_bytes 8 j)) < 2 ^ 240"
    using solve_cases [OF assms(1), of ?c] assms(2,3) by auto
  then show ?thesis
    using assms(1) by (simp add: solve_then_verify_round_trips_def Challenge_new_def verify_number)
qed

lemma bogus_test_passes_iff:
  assumes "digest32 sha256"
  shows "verify_rejects_bogus_solution sha256 nonce = Return () \<longleftrightarrow>
    2 ^ 240 \<le> be_nat (sha256 (str_bytes ''unit-test'' @ nonce @ replicate 8 255))"
  using assms by (simp add: verify_rejects_bogus_solution_def Challenge_new_def verify_number not_less)

lemma challenge_tests_pass:
  "different_contexts_produce_different_challenges nonce nonce' = Return ()"
  "length nonce = 16 \<Longrightarrow> wire_round_trip_preserves_fields nonce = Return ()"
proof -
  have "be_bytes 2 5 = [0, 5]" "be_bytes 2 4 = [0, 4]" by code_simp+
  then show "different_contexts_produce_different_challenges nonce nonce' = Return ()"
    by (simp add: different_contexts_produce_different_challenges_def Challenge_new_def Challenge_to_wire_def str_bytes_def)
  show "length nonce = 16 \<Longrightarrow> wire_round_trip_preserves_fields nonce = Return ()"
    by (simp add: wire_round_trip_preserves_fields_def Challenge_new_def Challenge_to_wire_def str_bytes_def slice_range_def)
qed

lemma mint_unique_iff: "mint_unique seen ns = Return () \<longleftrightarrow> distinct ns \<and> set seen \<inter> set ns = {}"
  by (induction ns arbitrary: seen) (auto simp: Challenge_new_def Challenge_nonce_def assert_def)

lemma unique_nonces_test_passes_iff:
  "freshly_minted_challenges_have_unique_nonces nonces = Return () \<longleftrightarrow> distinct (take 256 nonces)"
  by (simp add: freshly_minted_challenges_have_unique_nonces_def mint_unique_iff)

section \<open>The bridge\<close>

definition b64_round_trip_test :: "unit run" where
  "b64_round_trip_test =
     (let data = [0, 1, 2, 3, 255, 254, 253 :: u8]; encoded = b64_encode data
      in run_bind (unwrap (b64_decode encoded)) (\<lambda>decoded. assert (decoded = data)))"

definition b64_empty :: "unit run" where
  "b64_empty =
     run_bind (assert (b64_encode [] = [])) (\<lambda>_.
     run_bind (unwrap (b64_decode [])) (\<lambda>decoded. assert (decoded = [])))"

definition truncate_id_short_unchanged :: "unit run" where
  "truncate_id_short_unchanged = run_bind (truncate_id ''short'') (\<lambda>s. assert (s = ''short''))"

definition truncate_id_long_truncated :: "unit run" where
  "truncate_id_long_truncated =
     run_bind (truncate_id ''very-long-recipient-id'') (\<lambda>s.
       assert (s = ''very-lon'' @ [CHR 0xE2, CHR 0x80, CHR 0xA6]))"

definition b64_rejects_invalid_chars :: "unit run" where
  "b64_rejects_invalid_chars = assert (isl (b64_decode ''AB!D''))"

definition b64_rejects_bad_padding :: "unit run" where
  "b64_rejects_bad_padding = assert (isl (b64_decode ''AB===''))"

definition b64_rejects_bad_length :: "unit run" where
  "b64_rejects_bad_length = assert (isl (b64_decode ''ABC''))"

lemma bridge_tests_pass:
  "b64_round_trip_test = Return ()" "b64_empty = Return ()"
  "truncate_id_short_unchanged = Return ()" "truncate_id_long_truncated = Return ()"
  by (simp add: b64_round_trip_test_def) code_simp+

lemma bridge_rejection_tests_pass:
  "b64_rejects_invalid_chars = Return ()" "b64_rejects_bad_padding = Return ()" "b64_rejects_bad_length = Return ()"
  by code_simp+

end
