(* ===== verification/Identity_Tests.thy ===== *)
theory Identity_Tests
  imports Sealed_Sender Device_Link
begin

text \<open>
  The unit tests of \<open>core/crypto/src/identity.rs\<close>, \<open>core/transport/src/sealed_sender.rs\<close> and
  \<open>core/crypto/src/lib.rs\<close>, translated (a test that passes returns). What a test draws from the OS
  generator is an argument. Not translated are the tests of cryptographic strength (that a blob
  does not show its plaintext, that a stranger or a flipped bit is refused): the laws of the
  primitives do not speak of it.
\<close>

section \<open>Identity keys\<close>

definition generate_produces_nonempty_public_bytes :: "prims \<Rightarrow> bytes \<Rightarrow> unit run" where
  "generate_produces_nonempty_public_bytes P secret =
     (let k = IdentityKeyPair_generate P secret
      in assert (length (PublicIdentityKey_to_bytes (IdentityKeyPair_public P k)) = 33))"

definition generate_is_randomized_across_calls :: "prims \<Rightarrow> bytes \<Rightarrow> bytes \<Rightarrow> unit run" where
  "generate_is_randomized_across_calls P secret secret' =
     (let a = IdentityKeyPair_generate P secret; b = IdentityKeyPair_generate P secret'
      in assert (PublicIdentityKey_to_bytes (IdentityKeyPair_public P a) \<noteq>
           PublicIdentityKey_to_bytes (IdentityKeyPair_public P b)))"

definition sealed_blob_round_trips_for_the_intended_recipient :: "prims \<Rightarrow> bytes \<Rightarrow> seal_rand \<Rightarrow> unit run" where
  "sealed_blob_round_trips_for_the_intended_recipient P secret r =
     (let recipient = IdentityKeyPair_generate P secret; m = str_bytes ''secret chain key material''
      in run_bind (unwrap (PublicIdentityKey_seal P r (IdentityKeyPair_public P recipient) m)) (\<lambda>sealed.
         run_bind (unwrap (IdentityKeyPair_open_sealed P recipient sealed)) (\<lambda>opened. assert (opened = m))))"

definition truncated_sealed_blob_is_malformed :: "prims \<Rightarrow> bytes \<Rightarrow> unit run" where
  "truncated_sealed_blob_is_malformed P secret =
     (let recipient = IdentityKeyPair_generate P secret; short = replicate (MIN_SEALED_LEN - 1) 0
      in assert (case IdentityKeyPair_open_sealed P recipient short of Inl SealMalformed \<Rightarrow> True | _ \<Rightarrow> False))"

definition sealing_twice_produces_unlinkable_ciphertexts ::
  "prims \<Rightarrow> bytes \<Rightarrow> seal_rand \<Rightarrow> seal_rand \<Rightarrow> unit run" where
  "sealing_twice_produces_unlinkable_ciphertexts P secret r r' =
     (let recipient = IdentityKeyPair_generate P secret; m = str_bytes ''chain key''
      in run_bind (unwrap (PublicIdentityKey_seal P r (IdentityKeyPair_public P recipient) m)) (\<lambda>a.
         run_bind (unwrap (PublicIdentityKey_seal P r' (IdentityKeyPair_public P recipient) m)) (\<lambda>b. assert (a \<noteq> b))))"

definition from_bytes_round_trips_through_seal :: "prims \<Rightarrow> bytes \<Rightarrow> seal_rand \<Rightarrow> unit run" where
  "from_bytes_round_trips_through_seal P secret r =
     (let recipient = IdentityKeyPair_generate P secret;
          key_bytes = PublicIdentityKey_to_bytes (IdentityKeyPair_public P recipient);
          reconstructed = PublicIdentityKey_from_bytes key_bytes
      in run_bind (unwrap (PublicIdentityKey_seal P r reconstructed (str_bytes ''payload''))) (\<lambda>sealed.
         run_bind (unwrap (IdentityKeyPair_open_sealed P recipient sealed)) (\<lambda>opened.
         assert (opened = str_bytes ''payload''))))"

definition from_bytes_with_garbage_fails_at_seal :: "prims \<Rightarrow> seal_rand \<Rightarrow> unit run" where
  "from_bytes_with_garbage_fails_at_seal P r =
     (let garbage = PublicIdentityKey_from_bytes (replicate 16 255)
      in assert (case PublicIdentityKey_seal P r garbage (str_bytes ''x'') of Inl SealMalformed \<Rightarrow> True | _ \<Rightarrow> False))"

text \<open>\<open>pair_serialize\<close> is libsignal's serialization of a key pair.\<close>

definition keypair_from_bytes_round_trips_the_public_key ::
  "prims \<Rightarrow> (bytes \<times> bytes \<Rightarrow> bytes) \<Rightarrow> bytes \<Rightarrow> unit run" where
  "keypair_from_bytes_round_trips_the_public_key P pair_serialize secret =
     (let kp = IdentityKeyPair_generate P secret;
          serialized = pair_serialize (ikp_private kp, ikp_public kp)
      in run_bind (unwrap (IdentityKeyPair_from_bytes P serialized)) (\<lambda>restored.
         assert (PublicIdentityKey_to_bytes (IdentityKeyPair_public P kp) =
           PublicIdentityKey_to_bytes (IdentityKeyPair_public P restored))))"

definition keypair_from_bytes_rejects_garbage :: "prims \<Rightarrow> unit run" where
  "keypair_from_bytes_rejects_garbage P = assert (isl (IdentityKeyPair_from_bytes P (replicate 10 0)))"

lemmas identity_test_defs = generate_produces_nonempty_public_bytes_def generate_is_randomized_across_calls_def
  sealed_blob_round_trips_for_the_intended_recipient_def truncated_sealed_blob_is_malformed_def
  sealing_twice_produces_unlinkable_ciphertexts_def from_bytes_round_trips_through_seal_def
  from_bytes_with_garbage_fails_at_seal_def keypair_from_bytes_round_trips_the_public_key_def
  keypair_from_bytes_rejects_garbage_def PublicIdentityKey_to_bytes_def PublicIdentityKey_from_bytes_def

text \<open>The recipient opens what anyone sealed to it.\<close>

lemma identity_box:
  assumes "crypto_ok P" "length (sr_nonce r) = 12"
  obtains c where "PublicIdentityKey_seal P r (IdentityKeyPair_public P (IdentityKeyPair_generate P secret)) m = Inr c"
    "IdentityKeyPair_open_sealed P (IdentityKeyPair_generate P secret) c = Inr m"
  using ident_box.seal_open [of P "IdentityKeyPair_generate P secret" r m] assms by (auto simp: seal_rand_ok_def)

lemma identity_tests_pass:
  assumes "crypto_ok P" "length (sr_nonce r) = 12"
  shows "generate_produces_nonempty_public_bytes P secret = Return ()"
    and "sealed_blob_round_trips_for_the_intended_recipient P secret r = Return ()"
    and "truncated_sealed_blob_is_malformed P secret = Return ()"
    and "from_bytes_round_trips_through_seal P secret r = Return ()"
proof -
  show "generate_produces_nonempty_public_bytes P secret = Return ()"
    using assms(1) by (simp add: identity_test_defs IdentityKeyPair_public_def IdentityKeyPair_generate_def)
  show "sealed_blob_round_trips_for_the_intended_recipient P secret r = Return ()"
    by (rule identity_box [OF assms, of secret "str_bytes ''secret chain key material''"]) (simp add: identity_test_defs)
  show "truncated_sealed_blob_is_malformed P secret = Return ()"
    by (simp add: identity_test_defs IdentityKeyPair_open_sealed_def seal_lens)
  show "from_bytes_round_trips_through_seal P secret r = Return ()"
    by (rule identity_box [OF assms, of secret "str_bytes ''payload''"]) (simp add: identity_test_defs)
qed

lemma sealed_starts_with_ephemeral:
  assumes "crypto_ok P" "PublicIdentityKey_seal P r k m = Inr c"
  shows "take 32 c = dh_pub P (sr_eph r)"
  using assms by (auto simp: PublicIdentityKey_seal_def Let_def split: option.splits)

text \<open>Randomization: distinct public keys, respectively distinct ephemeral keys, are enough.\<close>

lemma identity_randomization_tests_pass:
  assumes "crypto_ok P" "length (sr_nonce r) = 12" "length (sr_nonce r') = 12"
  shows "dh_pub P secret \<noteq> dh_pub P secret' \<Longrightarrow> generate_is_randomized_across_calls P secret secret' = Return ()"
    and "dh_pub P (sr_eph r) \<noteq> dh_pub P (sr_eph r') \<Longrightarrow>
      sealing_twice_produces_unlinkable_ciphertexts P secret r r' = Return ()"
proof -
  have "ident_serialize P (dh_pub P secret) \<noteq> ident_serialize P (dh_pub P secret')" if "dh_pub P secret \<noteq> dh_pub P secret'"
    using that keys_okD(4) [OF assms(1)] by (metis option.inject)
  then show "dh_pub P secret \<noteq> dh_pub P secret' \<Longrightarrow> generate_is_randomized_across_calls P secret secret' = Return ()"
    by (simp add: identity_test_defs IdentityKeyPair_public_def IdentityKeyPair_generate_def)
  assume ne: "dh_pub P (sr_eph r) \<noteq> dh_pub P (sr_eph r')"
  let ?k = "IdentityKeyPair_public P (IdentityKeyPair_generate P secret)" and ?m = "str_bytes ''chain key''"
  obtain a where a: "PublicIdentityKey_seal P r ?k ?m = Inr a" by (rule identity_box [OF assms(1,2)])
  obtain b where b: "PublicIdentityKey_seal P r' ?k ?m = Inr b" by (rule identity_box [OF assms(1,3)])
  have "a \<noteq> b" using sealed_starts_with_ephemeral [OF assms(1) a] sealed_starts_with_ephemeral [OF assms(1) b] ne by auto
  then show "sealing_twice_produces_unlinkable_ciphertexts P secret r r' = Return ()"
    by (simp add: identity_test_defs a b)
qed

text \<open>The tests of foreign bytes pass when the library refuses the bytes; those of a key pair when it is parsed back.\<close>

lemma identity_parsing_tests_pass:
  "ident_decode P (replicate 16 255) = None \<Longrightarrow> from_bytes_with_garbage_fails_at_seal P r = Return ()"
  "isl (ident_pair_decode P (replicate 10 0)) \<Longrightarrow> keypair_from_bytes_rejects_garbage P = Return ()"
  "ident_pair_decode P (pair_serialize (secret, dh_pub P secret)) = Inr (secret, dh_pub P secret) \<Longrightarrow>
     keypair_from_bytes_round_trips_the_public_key P pair_serialize secret = Return ()"
  by (auto simp: identity_test_defs PublicIdentityKey_seal_def IdentityKeyPair_from_bytes_def
      IdentityKeyPair_generate_def IdentityKeyPair_public_def isl_def split: sum.splits)

section \<open>Sealed sender\<close>

text \<open>Sealing from one generated key pair to another.\<close>

definition test_envelope :: "prims \<Rightarrow> bytes \<Rightarrow> bytes \<Rightarrow> seal_rand \<Rightarrow> bytes \<Rightarrow> (SealedSenderError + bytes)" where
  "test_envelope P sender recipient r payload =
     sealed_sender_seal P r (IdentityKeyPair_generate P sender) (ikp_public (IdentityKeyPair_generate P recipient)) payload"

definition round_trip_recovers_payload :: "prims \<Rightarrow> bytes \<Rightarrow> bytes \<Rightarrow> seal_rand \<Rightarrow> unit run" where
  "round_trip_recovers_payload P sender recipient r =
     run_bind (unwrap (test_envelope P sender recipient r (str_bytes ''payload body''))) (\<lambda>envelope.
     run_bind (unwrap (sealed_sender_open P (IdentityKeyPair_generate P recipient) envelope)) (\<lambda>opened.
     assert (opened = str_bytes ''payload body'')))"

definition envelope_is_at_least_the_minimum_size :: "prims \<Rightarrow> bytes \<Rightarrow> bytes \<Rightarrow> seal_rand \<Rightarrow> unit run" where
  "envelope_is_at_least_the_minimum_size P sender recipient r =
     run_bind (unwrap (test_envelope P sender recipient r (str_bytes ''x''))) (\<lambda>envelope.
     assert (length envelope > MIN_ENVELOPE_LEN))"

definition truncated_envelope_is_malformed :: "prims \<Rightarrow> bytes \<Rightarrow> unit run" where
  "truncated_envelope_is_malformed P recipient =
     (let short = replicate (MIN_ENVELOPE_LEN - 1) 0
      in assert (case sealed_sender_open P (IdentityKeyPair_generate P recipient) short of
           Inl EnvMalformed \<Rightarrow> True | _ \<Rightarrow> False))"

definition empty_payload_still_round_trips :: "prims \<Rightarrow> bytes \<Rightarrow> bytes \<Rightarrow> seal_rand \<Rightarrow> unit run" where
  "empty_payload_still_round_trips P sender recipient r =
     run_bind (unwrap (test_envelope P sender recipient r [])) (\<lambda>envelope.
     run_bind (unwrap (sealed_sender_open P (IdentityKeyPair_generate P recipient) envelope)) (\<lambda>opened.
     assert (opened = [])))"

definition captured_envelope_can_be_opened_more_than_once :: "prims \<Rightarrow> bytes \<Rightarrow> bytes \<Rightarrow> seal_rand \<Rightarrow> unit run" where
  "captured_envelope_can_be_opened_more_than_once P sender recipient r =
     run_bind (unwrap (test_envelope P sender recipient r (str_bytes ''payload''))) (\<lambda>envelope.
     run_bind (unwrap (sealed_sender_open P (IdentityKeyPair_generate P recipient) envelope)) (\<lambda>opened.
     run_bind (assert (opened = str_bytes ''payload'')) (\<lambda>_.
     run_bind (unwrap (sealed_sender_open P (IdentityKeyPair_generate P recipient) envelope)) (\<lambda>opened.
     assert (opened = str_bytes ''payload'')))))"

definition exact_minimum_length_garbage_is_refused :: "prims \<Rightarrow> bytes \<Rightarrow> unit run" where
  "exact_minimum_length_garbage_is_refused P recipient =
     (let garbage = replicate MIN_ENVELOPE_LEN 0;
          result = sealed_sender_open P (IdentityKeyPair_generate P recipient) garbage
      in assert (result = Inl EnvMalformed \<or> result = Inl EnvDecryptionFailed))"

lemmas envelope_test_defs = round_trip_recovers_payload_def envelope_is_at_least_the_minimum_size_def
  truncated_envelope_is_malformed_def empty_payload_still_round_trips_def
  captured_envelope_can_be_opened_more_than_once_def exact_minimum_length_garbage_is_refused_def

lemma test_envelope_box:
  assumes "crypto_ok P" "length (sr_nonce r) = 12"
  obtains c where "test_envelope P sender recipient r m = Inr c" "length c = MIN_ENVELOPE_LEN + length m"
    "sealed_sender_open P (IdentityKeyPair_generate P recipient) c = Inr m"
  using sender_box.seal_open [of P "IdentityKeyPair_generate P recipient" "(r, IdentityKeyPair_generate P sender)" m] assms
  by (auto simp: test_envelope_def sender_rand_ok_def seal_rand_ok_def)

lemma sealed_sender_tests_pass:
  assumes "crypto_ok P" "length (sr_nonce r) = 12"
  shows "round_trip_recovers_payload P sender recipient r = Return ()"
    and "envelope_is_at_least_the_minimum_size P sender recipient r = Return ()"
    and "truncated_envelope_is_malformed P recipient = Return ()"
    and "empty_payload_still_round_trips P sender recipient r = Return ()"
    and "captured_envelope_can_be_opened_more_than_once P sender recipient r = Return ()"
proof -
  note box = test_envelope_box [OF assms, of sender recipient]
  show "round_trip_recovers_payload P sender recipient r = Return ()"
    by (rule box [of "str_bytes ''payload body''"]) (simp add: envelope_test_defs)
  show "envelope_is_at_least_the_minimum_size P sender recipient r = Return ()"
    by (rule box [of "str_bytes ''x''"]) (simp add: envelope_test_defs str_bytes_def)
  show "truncated_envelope_is_malformed P recipient = Return ()"
    by (simp add: envelope_test_defs sealed_sender_open_def envelope_lens)
  show "empty_payload_still_round_trips P sender recipient r = Return ()"
    by (rule box [of "[]"]) (simp add: envelope_test_defs)
  show "captured_envelope_can_be_opened_more_than_once P sender recipient r = Return ()"
    by (rule box [of "str_bytes ''payload''"]) (simp add: envelope_test_defs)
qed

text \<open>The garbage of the boundary test is either refused in one of the two expected ways or accepted.\<close>

lemma minimum_length_test_passes_iff:
  assumes "crypto_ok P"
  shows "exact_minimum_length_garbage_is_refused P recipient = Return () \<longleftrightarrow>
    isl (sealed_sender_open P (IdentityKeyPair_generate P recipient) (replicate MIN_ENVELOPE_LEN 0))"
  using never_not_for_recipient [OF assms, of "IdentityKeyPair_generate P recipient" "replicate MIN_ENVELOPE_LEN 0"]
  by (cases "sealed_sender_open P (IdentityKeyPair_generate P recipient) (replicate MIN_ENVELOPE_LEN 0)")
    (auto simp: envelope_test_defs Let_def, metis SealedSenderError.exhaust)

section \<open>Safety numbers\<close>

definition produces_a_valid_curve25519_identity_key :: "link_lib \<Rightarrow> bytes \<Rightarrow> unit run" where
  "produces_a_valid_curve25519_identity_key K secret =
     assert (length (identity_of K (generate_identity_key_pair secret)) = 33)"

definition uses_a_csprng_and_is_not_deterministic :: "link_lib \<Rightarrow> bytes \<Rightarrow> bytes \<Rightarrow> unit run" where
  "uses_a_csprng_and_is_not_deterministic K secret secret' =
     (let a = generate_identity_key_pair secret; b = generate_identity_key_pair secret'
      in assert (identity_of K a \<noteq> identity_of K b))"

text \<open>The safety number of two generated identities under the given names.\<close>

definition test_number :: "link_lib \<Rightarrow> string \<Rightarrow> bytes \<Rightarrow> string \<Rightarrow> bytes \<Rightarrow> string run" where
  "test_number K i a j b =
     unwrap (derive_safety_number K (str_bytes i) (identity_of K (generate_identity_key_pair a))
       (str_bytes j) (identity_of K (generate_identity_key_pair b)))"

definition derive_safety_number_is_deterministic :: "link_lib \<Rightarrow> bytes \<Rightarrow> bytes \<Rightarrow> unit run" where
  "derive_safety_number_is_deterministic K alice bob =
     run_bind (test_number K ''alice'' alice ''bob'' bob) (\<lambda>first.
     run_bind (test_number K ''alice'' alice ''bob'' bob) (\<lambda>second. assert (first = second)))"

definition derive_safety_number_is_symmetric :: "link_lib \<Rightarrow> bytes \<Rightarrow> bytes \<Rightarrow> unit run" where
  "derive_safety_number_is_symmetric K alice bob =
     run_bind (test_number K ''alice'' alice ''bob'' bob) (\<lambda>from_alice.
     run_bind (test_number K ''bob'' bob ''alice'' alice) (\<lambda>from_bob. assert (from_alice = from_bob)))"

definition derive_safety_number_differs_for_different_identity_keys ::
  "link_lib \<Rightarrow> bytes \<Rightarrow> bytes \<Rightarrow> bytes \<Rightarrow> unit run" where
  "derive_safety_number_differs_for_different_identity_keys K alice bob mallory =
     run_bind (test_number K ''alice'' alice ''bob'' bob) (\<lambda>with_bob.
     run_bind (test_number K ''alice'' alice ''bob'' mallory) (\<lambda>with_mallory. assert (with_bob \<noteq> with_mallory)))"

definition rejects_empty_local_key :: "link_lib \<Rightarrow> bytes \<Rightarrow> unit run" where
  "rejects_empty_local_key K bob =
     assert (derive_safety_number K (str_bytes ''alice'') [] (str_bytes ''bob'')
       (identity_of K (generate_identity_key_pair bob)) = Inl InvalidIdentityKey)"

definition rejects_remote_key :: "link_lib \<Rightarrow> bytes \<Rightarrow> bytes \<Rightarrow> unit run" where
  "rejects_remote_key K alice remote =
     assert (derive_safety_number K (str_bytes ''alice'') (identity_of K (generate_identity_key_pair alice))
       (str_bytes ''bob'') remote = Inl InvalidIdentityKey)"

definition rejects_short_remote_key :: "link_lib \<Rightarrow> bytes \<Rightarrow> unit run" where
  "rejects_short_remote_key K alice = rejects_remote_key K alice [0x05, 0x01, 0x02]"

definition rejects_unknown_key_type_tag :: "link_lib \<Rightarrow> bytes \<Rightarrow> unit run" where
  "rejects_unknown_key_type_tag K alice = rejects_remote_key K alice (replicate 33 0xFF)"

text \<open>The published vector of libsignal.\<close>

definition vector_alice :: bytes where
  "vector_alice = [0x05, 0x06, 0x86, 0x3b, 0xc6, 0x6d, 0x02, 0xb4, 0x0d, 0x27, 0xb8, 0xd4, 0x9c, 0xa7,
     0xc0, 0x9e, 0x92, 0x39, 0x23, 0x6f, 0x9d, 0x7d, 0x25, 0xd6, 0xfc, 0xca, 0x5c, 0xe1,
     0x3c, 0x70, 0x64, 0xd8, 0x68]"

definition vector_bob :: bytes where
  "vector_bob = [0x05, 0xf7, 0x81, 0xb6, 0xfb, 0x32, 0xfe, 0xd9, 0xba, 0x1c, 0xf2, 0xde, 0x97, 0x8d,
     0x4d, 0x5d, 0xa2, 0x8d, 0xc3, 0x40, 0x46, 0xae, 0x81, 0x44, 0x02, 0xb5, 0xc0, 0xdb,
     0xd9, 0x6f, 0xda, 0x90, 0x7b]"

definition matches_signals_published_test_vector :: "link_lib \<Rightarrow> unit run" where
  "matches_signals_published_test_vector K =
     run_bind (unwrap (derive_safety_number K (str_bytes ''+14152222222'') vector_alice
       (str_bytes ''+14153333333'') vector_bob)) (\<lambda>safety_number.
     assert (safety_number = ''300354477692869396892869876765458257569162576843440918079131''))"

text \<open>A generated key is 33 bytes and decodes, and a fingerprint of two decoded keys is displayed.\<close>

definition numbers_ok :: "link_lib \<Rightarrow> bool" where
  "numbers_ok K \<longleftrightarrow>
     (\<forall>p. length (identity_of K p) = 33 \<and> decode_identity K (identity_of K p) = Some (identity_of K p)) \<and>
     (\<forall>i a j b. fingerprint K 1 5200 i a j b \<noteq> None)"

lemmas number_test_defs = produces_a_valid_curve25519_identity_key_def uses_a_csprng_and_is_not_deterministic_def
  derive_safety_number_is_deterministic_def derive_safety_number_is_symmetric_def
  derive_safety_number_differs_for_different_identity_keys_def rejects_empty_local_key_def rejects_remote_key_def
  rejects_short_remote_key_def rejects_unknown_key_type_tag_def matches_signals_published_test_vector_def
  generate_identity_key_pair_def

lemma test_number_eq:
  assumes "numbers_ok K"
  obtains s where "test_number K i a j b = Return s"
    "fingerprint K 1 5200 (str_bytes i) (identity_of K a) (str_bytes j) (identity_of K b) = Some s"
  using assms unfolding numbers_ok_def
  by (auto simp: test_number_def derive_safety_number_def SAFETY_NUMBER_VERSION_def SAFETY_NUMBER_ITERATIONS_def
      generate_identity_key_pair_def ok_or_def split: option.splits) blast

lemma safety_number_tests_pass:
  assumes "link_ok K" "numbers_ok K"
  shows "produces_a_valid_curve25519_identity_key K secret = Return ()"
    and "derive_safety_number_is_deterministic K alice bob = Return ()"
    and "derive_safety_number_is_symmetric K alice bob = Return ()"
proof -
  show "produces_a_valid_curve25519_identity_key K secret = Return ()"
    using assms(2) by (simp add: number_test_defs numbers_ok_def)
  show "derive_safety_number_is_deterministic K alice bob = Return ()"
    by (rule test_number_eq [OF assms(2), of "''alice''" alice "''bob''" bob]) (simp add: number_test_defs)
  obtain s where s: "test_number K ''alice'' alice ''bob'' bob = Return s"
    "fingerprint K 1 5200 (str_bytes ''alice'') (identity_of K alice) (str_bytes ''bob'') (identity_of K bob) = Some s"
    by (rule test_number_eq [OF assms(2)])
  obtain s' where s': "test_number K ''bob'' bob ''alice'' alice = Return s'"
    "fingerprint K 1 5200 (str_bytes ''bob'') (identity_of K bob) (str_bytes ''alice'') (identity_of K alice) = Some s'"
    by (rule test_number_eq [OF assms(2)])
  have "s = s'" using assms(1) s(2) s'(2) unfolding link_ok_def by (metis option.inject)
  then show "derive_safety_number_is_symmetric K alice bob = Return ()" by (simp add: number_test_defs s(1) s'(1))
qed

lemma safety_number_refusal_tests_pass:
  assumes "decode_identity K [] = None" "decode_identity K [0x05, 0x01, 0x02] = None"
    and "decode_identity K (replicate 33 0xFF) = None"
  shows "rejects_empty_local_key K bob = Return ()" "rejects_short_remote_key K alice = Return ()"
    "rejects_unknown_key_type_tag K alice = Return ()"
  using assms by (simp_all add: number_test_defs derive_safety_number_def ok_or_def split: option.splits)

text \<open>
  The code calls the fingerprint of version 1 with 5200 iterations, so it reproduces the vector for
  a library that computes it at those parameters.
\<close>

lemma vector_test_passes:
  assumes "decode_identity K vector_alice = Some a" "decode_identity K vector_bob = Some b"
    and "fingerprint K 1 5200 (str_bytes ''+14152222222'') a (str_bytes ''+14153333333'') b =
      Some ''300354477692869396892869876765458257569162576843440918079131''"
  shows "matches_signals_published_test_vector K = Return ()"
  using assms
  by (simp add: matches_signals_published_test_vector_def derive_safety_number_def ok_or_def
      SAFETY_NUMBER_VERSION_def SAFETY_NUMBER_ITERATIONS_def)

lemma distinct_keys_tests_pass:
  assumes "numbers_ok K"
  shows "identity_of K alice \<noteq> identity_of K bob \<Longrightarrow> uses_a_csprng_and_is_not_deterministic K alice bob = Return ()"
    and "fingerprint K 1 5200 (str_bytes ''alice'') (identity_of K alice) (str_bytes ''bob'') (identity_of K bob) \<noteq>
      fingerprint K 1 5200 (str_bytes ''alice'') (identity_of K alice) (str_bytes ''bob'') (identity_of K mallory) \<Longrightarrow>
      derive_safety_number_differs_for_different_identity_keys K alice bob mallory = Return ()"
proof -
  show "identity_of K alice \<noteq> identity_of K bob \<Longrightarrow> uses_a_csprng_and_is_not_deterministic K alice bob = Return ()"
    by (simp add: number_test_defs)
  obtain s where s: "test_number K ''alice'' alice ''bob'' bob = Return s"
    "fingerprint K 1 5200 (str_bytes ''alice'') (identity_of K alice) (str_bytes ''bob'') (identity_of K bob) = Some s"
    by (rule test_number_eq [OF assms])
  obtain s' where s': "test_number K ''alice'' alice ''bob'' mallory = Return s'"
    "fingerprint K 1 5200 (str_bytes ''alice'') (identity_of K alice) (str_bytes ''bob'') (identity_of K mallory) = Some s'"
    by (rule test_number_eq [OF assms])
  assume "fingerprint K 1 5200 (str_bytes ''alice'') (identity_of K alice) (str_bytes ''bob'') (identity_of K bob) \<noteq>
      fingerprint K 1 5200 (str_bytes ''alice'') (identity_of K alice) (str_bytes ''bob'') (identity_of K mallory)"
  then show "derive_safety_number_differs_for_different_identity_keys K alice bob mallory = Return ()"
    using s s' by (simp add: number_test_defs)
qed

section \<open>Device linking\<close>

definition accepts_a_valid_primary_signed_link :: "link_lib \<Rightarrow> bytes \<Rightarrow> bytes \<Rightarrow> bytes \<Rightarrow> unit run" where
  "accepts_a_valid_primary_signed_link K primary device rnd =
     run_bind (unwrap (sign_device_identity K rnd primary (identity_of K device))) (\<lambda>signature.
     assert (verify_device_identity K (identity_of K primary) (identity_of K device) signature))"

definition sign_device_identity_is_randomized :: "link_lib \<Rightarrow> bytes \<Rightarrow> bytes \<Rightarrow> bytes \<Rightarrow> bytes \<Rightarrow> unit run" where
  "sign_device_identity_is_randomized K primary device rnd rnd' =
     run_bind (unwrap (sign_device_identity K rnd primary (identity_of K device))) (\<lambda>first.
     run_bind (unwrap (sign_device_identity K rnd' primary (identity_of K device))) (\<lambda>second.
     assert (first \<noteq> second)))"

definition rejects_an_empty_unsigned_signature :: "link_lib \<Rightarrow> bytes \<Rightarrow> bytes \<Rightarrow> unit run" where
  "rejects_an_empty_unsigned_signature K primary device =
     assert (\<not> verify_device_identity K (identity_of K primary) (identity_of K device) [])"

definition rejects_a_signature_from_a_non_primary_key ::
  "link_lib \<Rightarrow> bytes \<Rightarrow> bytes \<Rightarrow> bytes \<Rightarrow> bytes \<Rightarrow> unit run" where
  "rejects_a_signature_from_a_non_primary_key K primary impostor device rnd =
     run_bind (unwrap (sign_device_identity K rnd impostor (identity_of K device))) (\<lambda>signature.
     assert (\<not> verify_device_identity K (identity_of K primary) (identity_of K device) signature))"

definition rejects_a_signature_for_a_different_device_key ::
  "link_lib \<Rightarrow> bytes \<Rightarrow> bytes \<Rightarrow> bytes \<Rightarrow> bytes \<Rightarrow> unit run" where
  "rejects_a_signature_for_a_different_device_key K primary device other_device rnd =
     run_bind (unwrap (sign_device_identity K rnd primary (identity_of K device))) (\<lambda>signature.
     assert (\<not> verify_device_identity K (identity_of K primary) (identity_of K other_device) signature))"

definition rejects_truncated_signature_bytes :: "link_lib \<Rightarrow> bytes \<Rightarrow> bytes \<Rightarrow> bytes \<Rightarrow> unit run" where
  "rejects_truncated_signature_bytes K primary device rnd =
     run_bind (unwrap (sign_device_identity K rnd primary (identity_of K device))) (\<lambda>signature.
     if length signature = 0 then Panic
     else run_bind (slice_range signature 0 (length signature - 1)) (\<lambda>truncated.
     assert (\<not> verify_device_identity K (identity_of K primary) (identity_of K device) truncated)))"

definition device_set_starts_with_no_linked_devices :: "link_lib \<Rightarrow> bytes \<Rightarrow> unit run" where
  "device_set_starts_with_no_linked_devices K primary =
     assert (DeviceSet_linked_devices (DeviceSet_new (identity_of K primary)) = [])"

definition device_set_admits_a_validly_signed_device :: "link_lib \<Rightarrow> bytes \<Rightarrow> bytes \<Rightarrow> bytes \<Rightarrow> unit run" where
  "device_set_admits_a_validly_signed_device K primary device rnd =
     run_bind (unwrap (sign_device_identity K rnd primary (identity_of K device))) (\<lambda>signature.
     let (r, s) = DeviceSet_add_device K (identity_of K device) signature (DeviceSet_new (identity_of K primary))
     in run_bind (unwrap r) (\<lambda>_. assert (DeviceSet_linked_devices s = [identity_of K device])))"

definition device_set_admits_multiple_validly_signed_devices ::
  "link_lib \<Rightarrow> bytes \<Rightarrow> bytes \<Rightarrow> bytes \<Rightarrow> bytes \<Rightarrow> bytes \<Rightarrow> unit run" where
  "device_set_admits_multiple_validly_signed_devices K primary device_a device_b rnd rnd' =
     run_bind (unwrap (sign_device_identity K rnd primary (identity_of K device_a))) (\<lambda>signature_a.
     run_bind (unwrap (sign_device_identity K rnd' primary (identity_of K device_b))) (\<lambda>signature_b.
     let (r, s) = DeviceSet_add_device K (identity_of K device_a) signature_a (DeviceSet_new (identity_of K primary))
     in run_bind (unwrap r) (\<lambda>_.
     let (r, s) = DeviceSet_add_device K (identity_of K device_b) signature_b s
     in run_bind (unwrap r) (\<lambda>_.
     assert (DeviceSet_linked_devices s = [identity_of K device_a, identity_of K device_b])))))"

text \<open>\<open>add_device\<close> of a link signature that does not verify: the error, and the set unchanged.\<close>

definition device_set_refuses :: "link_lib \<Rightarrow> bytes \<Rightarrow> bytes \<Rightarrow> bytes \<Rightarrow> unit run" where
  "device_set_refuses K primary device signature =
     (let (r, s) = DeviceSet_add_device K (identity_of K device) signature (DeviceSet_new (identity_of K primary))
      in asserts [r = Inl InvalidLinkSignature, DeviceSet_linked_devices s = []])"

definition device_set_rejects_an_unsigned_device_key :: "link_lib \<Rightarrow> bytes \<Rightarrow> bytes \<Rightarrow> unit run" where
  "device_set_rejects_an_unsigned_device_key K primary device = device_set_refuses K primary device []"

definition device_set_rejects_a_device_signed_by_a_non_primary_key ::
  "link_lib \<Rightarrow> bytes \<Rightarrow> bytes \<Rightarrow> bytes \<Rightarrow> bytes \<Rightarrow> unit run" where
  "device_set_rejects_a_device_signed_by_a_non_primary_key K primary impostor device rnd =
     run_bind (unwrap (sign_device_identity K rnd impostor (identity_of K device))) (\<lambda>signature.
     device_set_refuses K primary device signature)"

definition device_set_rejects_a_replayed_signature ::
  "link_lib \<Rightarrow> bytes \<Rightarrow> bytes \<Rightarrow> bytes \<Rightarrow> bytes \<Rightarrow> unit run" where
  "device_set_rejects_a_replayed_signature K primary device other_device rnd =
     run_bind (unwrap (sign_device_identity K rnd primary (identity_of K device))) (\<lambda>signature.
     device_set_refuses K primary other_device signature)"

lemmas link_test_defs = accepts_a_valid_primary_signed_link_def sign_device_identity_is_randomized_def
  rejects_an_empty_unsigned_signature_def rejects_a_signature_from_a_non_primary_key_def
  rejects_a_signature_for_a_different_device_key_def rejects_truncated_signature_bytes_def
  device_set_starts_with_no_linked_devices_def device_set_admits_a_validly_signed_device_def
  device_set_admits_multiple_validly_signed_devices_def device_set_refuses_def
  device_set_rejects_an_unsigned_device_key_def device_set_rejects_a_device_signed_by_a_non_primary_key_def
  device_set_rejects_a_replayed_signature_def DeviceSet_linked_devices_def DeviceSet_new_def DeviceSet_add_device_def

lemma signed_link:
  assumes "link_ok K"
  obtains s where "sign_device_identity K rnd primary d = Inr s" "verify_device_identity K (identity_of K primary) d s"
proof -
  obtain s where "sign_alternate K primary d rnd = Some s" "verify_alternate K (identity_of K primary) d s = Some True"
    using assms unfolding link_ok_def by blast
  then show thesis by (intro that [of s]) (simp_all add: sign_device_identity_def verify_device_identity_def ok_or_def)
qed

lemma device_link_tests_pass:
  assumes "link_ok K"
  shows "accepts_a_valid_primary_signed_link K primary device rnd = Return ()"
    and "device_set_starts_with_no_linked_devices K primary = Return ()"
    and "device_set_admits_a_validly_signed_device K primary device rnd = Return ()"
    and "device_set_admits_multiple_validly_signed_devices K primary device other rnd rnd' = Return ()"
proof -
  obtain s where s: "sign_device_identity K rnd primary (identity_of K device) = Inr s"
    "verify_device_identity K (identity_of K primary) (identity_of K device) s"
    by (rule signed_link [OF assms])
  obtain s' where s': "sign_device_identity K rnd' primary (identity_of K other) = Inr s'"
    "verify_device_identity K (identity_of K primary) (identity_of K other) s'"
    by (rule signed_link [OF assms])
  show "accepts_a_valid_primary_signed_link K primary device rnd = Return ()"
    "device_set_starts_with_no_linked_devices K primary = Return ()"
    "device_set_admits_a_validly_signed_device K primary device rnd = Return ()"
    "device_set_admits_multiple_validly_signed_devices K primary device other rnd rnd' = Return ()"
    using s s' by (simp_all add: link_test_defs)
qed

text \<open>The refusals happen exactly when the library does not verify the signature in question.\<close>

lemma device_link_refusal_tests_pass_iff:
  assumes "sign_device_identity K rnd primary (identity_of K device) = Inr s"
    and "sign_device_identity K rnd impostor (identity_of K device) = Inr s'" "s \<noteq> []"
  shows "rejects_an_empty_unsigned_signature K primary device = Return () \<longleftrightarrow>
      \<not> verify_device_identity K (identity_of K primary) (identity_of K device) []"
    and "device_set_rejects_an_unsigned_device_key K primary device = Return () \<longleftrightarrow>
      \<not> verify_device_identity K (identity_of K primary) (identity_of K device) []"
    and "rejects_a_signature_from_a_non_primary_key K primary impostor device rnd = Return () \<longleftrightarrow>
      \<not> verify_device_identity K (identity_of K primary) (identity_of K device) s'"
    and "device_set_rejects_a_device_signed_by_a_non_primary_key K primary impostor device rnd = Return () \<longleftrightarrow>
      \<not> verify_device_identity K (identity_of K primary) (identity_of K device) s'"
    and "rejects_a_signature_for_a_different_device_key K primary device other rnd = Return () \<longleftrightarrow>
      \<not> verify_device_identity K (identity_of K primary) (identity_of K other) s"
    and "device_set_rejects_a_replayed_signature K primary device other rnd = Return () \<longleftrightarrow>
      \<not> verify_device_identity K (identity_of K primary) (identity_of K other) s"
    and "rejects_truncated_signature_bytes K primary device rnd = Return () \<longleftrightarrow>
      \<not> verify_device_identity K (identity_of K primary) (identity_of K device) (butlast s)"
  using assms by (simp_all add: link_test_defs slice_range_def butlast_conv_take)

end
