(* ===== verification/Prekey_Tests.thy ===== *)
theory Prekey_Tests
  imports Prekey
begin

text \<open>
  The unit tests of \<open>core/crypto/src/prekey.rs\<close>, translated (a test that passes returns). Key pairs
  are named by their secrets; the library is arbitrary, and the tests pass for every library that
  behaves as documented. Those that expect a signature to be refused pass exactly when the library
  refuses it.
\<close>

section \<open>Signed prekeys\<close>

text \<open>The accessors the tests use beyond those of the code: the ids and public keys of records.\<close>

record ('spk, 'otk) test_accessors =
  spk_id :: "'spk \<Rightarrow> u32 option"
  otk_public :: "'otk \<Rightarrow> bytes option"

definition accessors_ok :: "('spk, 'otk) signal_lib \<Rightarrow> ('spk, 'otk) test_accessors \<Rightarrow> bool" where
  "accessors_ok S A \<longleftrightarrow>
     (\<forall>i t k s. spk_id A (spk_new S i t k s) = Some i) \<and>
     (\<forall>i k. otk_public A (otk_new S i k) = Some (key_public S k))"

definition test_now :: u64 where "test_now = 1700000000000"

definition carries_the_requested_id ::
  "('spk, 'otk) signal_lib \<Rightarrow> ('spk, 'otk) test_accessors \<Rightarrow> bytes \<Rightarrow> bytes \<Rightarrow> bytes \<Rightarrow> unit run" where
  "carries_the_requested_id S A identity secret rnd =
     run_bind (generate_signed_pre_key S identity 42 test_now secret rnd) (\<lambda>signed_pre_key.
     run_bind (unwrap_some (spk_id A signed_pre_key)) (\<lambda>i. assert (i = 42)))"

definition signature_verifies_against_owning_identity ::
  "('spk, 'otk) signal_lib \<Rightarrow> bytes \<Rightarrow> bytes \<Rightarrow> bytes \<Rightarrow> unit run" where
  "signature_verifies_against_owning_identity S identity secret rnd =
     run_bind (generate_signed_pre_key S identity 1 test_now secret rnd) (\<lambda>signed_pre_key.
     assert (verify_signed_pre_key S (key_public S identity) signed_pre_key = Inr ()))"

definition rejects_signature_from_a_different_identity ::
  "('spk, 'otk) signal_lib \<Rightarrow> bytes \<Rightarrow> bytes \<Rightarrow> bytes \<Rightarrow> bytes \<Rightarrow> unit run" where
  "rejects_signature_from_a_different_identity S identity attacker secret rnd =
     run_bind (generate_signed_pre_key S identity 1 test_now secret rnd) (\<lambda>signed_pre_key.
     assert (verify_signed_pre_key S (key_public S attacker) signed_pre_key = Inl InvalidSignature))"

definition rejects_a_tampered_public_key ::
  "('spk, 'otk) signal_lib \<Rightarrow> bytes \<Rightarrow> bytes \<Rightarrow> bytes \<Rightarrow> bytes \<Rightarrow> unit run" where
  "rejects_a_tampered_public_key S identity secret rnd swapped_key_pair =
     run_bind (generate_signed_pre_key S identity 1 test_now secret rnd) (\<lambda>signed_pre_key.
     run_bind (unwrap_some (spk_signature S signed_pre_key)) (\<lambda>signature.
     let tampered = spk_new S 1 test_now swapped_key_pair signature
     in assert (verify_signed_pre_key S (key_public S identity) tampered = Inl InvalidSignature)))"

definition rejects_an_unsigned_prekey :: "('spk, 'otk) signal_lib \<Rightarrow> bytes \<Rightarrow> bytes \<Rightarrow> unit run" where
  "rejects_an_unsigned_prekey S identity key_pair =
     (let unsigned = spk_new S 1 test_now key_pair []
      in assert (verify_signed_pre_key S (key_public S identity) unsigned = Inl InvalidSignature))"

definition rejects_malformed_signature_bytes :: "('spk, 'otk) signal_lib \<Rightarrow> bytes \<Rightarrow> bytes \<Rightarrow> unit run" where
  "rejects_malformed_signature_bytes S identity key_pair =
     (let malformed = spk_new S 1 test_now key_pair [1, 2, 3]
      in assert (verify_signed_pre_key S (key_public S identity) malformed = Inl InvalidSignature))"

lemma generated_signed_pre_key:
  assumes "signal_ok S"
  obtains s where "generate_signed_pre_key S identity i t secret rnd = Return (spk_new S i t secret s)"
    "sign S identity (key_public S secret) rnd = Some s"
    "verify_signature S (key_public S identity) (key_public S secret) s"
proof -
  have "\<exists>s. sign S identity (key_public S secret) rnd = Some s \<and>
      verify_signature S (key_public S identity) (key_public S secret) s"
    using assms unfolding signal_ok_def by blast
  then show thesis using that by (auto simp: generate_signed_pre_key_def)
qed

lemma verify_new_record:
  assumes "signal_ok S"
  shows "verify_signed_pre_key S ik (spk_new S i t k s) =
    (if verify_signature S ik (key_public S k) s then Inr () else Inl InvalidSignature)"
  using assms unfolding signal_ok_def by (simp add: verify_signed_pre_key_def)

lemma spk_signature_new: "signal_ok S \<Longrightarrow> spk_signature S (spk_new S i t k s) = Some s"
  unfolding signal_ok_def by simp

lemma signed_prekey_tests_pass:
  assumes "signal_ok S" "accessors_ok S A"
  shows "carries_the_requested_id S A identity secret rnd = Return ()"
    and "signature_verifies_against_owning_identity S identity secret rnd = Return ()"
proof -
  obtain s where s: "generate_signed_pre_key S identity 42 test_now secret rnd = Return (spk_new S 42 test_now secret s)"
    by (rule generated_signed_pre_key [OF assms(1)])
  then show "carries_the_requested_id S A identity secret rnd = Return ()"
    using assms(2) by (simp add: carries_the_requested_id_def accessors_ok_def)
  obtain s where "generate_signed_pre_key S identity 1 test_now secret rnd = Return (spk_new S 1 test_now secret s)"
    "verify_signature S (key_public S identity) (key_public S secret) s"
    by (rule generated_signed_pre_key [OF assms(1)])
  then show "signature_verifies_against_owning_identity S identity secret rnd = Return ()"
    by (simp add: signature_verifies_against_owning_identity_def verify_new_record [OF assms(1)])
qed

lemma refusal_tests_pass_iff:
  assumes "signal_ok S" "sign S identity (key_public S secret) rnd = Some s"
  shows "rejects_signature_from_a_different_identity S identity attacker secret rnd = Return () \<longleftrightarrow>
      \<not> verify_signature S (key_public S attacker) (key_public S secret) s"
    and "rejects_a_tampered_public_key S identity secret rnd swapped = Return () \<longleftrightarrow>
      \<not> verify_signature S (key_public S identity) (key_public S swapped) s"
    and "rejects_an_unsigned_prekey S identity swapped = Return () \<longleftrightarrow>
      \<not> verify_signature S (key_public S identity) (key_public S swapped) []"
    and "rejects_malformed_signature_bytes S identity swapped = Return () \<longleftrightarrow>
      \<not> verify_signature S (key_public S identity) (key_public S swapped) [1, 2, 3]"
  using assms
  by (simp_all add: rejects_signature_from_a_different_identity_def rejects_a_tampered_public_key_def
      rejects_an_unsigned_prekey_def rejects_malformed_signature_bytes_def generate_signed_pre_key_def
      verify_new_record spk_signature_new)

section \<open>One-time prekeys\<close>

fun unwrap_each :: "'a option list \<Rightarrow> 'a list run" where
  "unwrap_each [] = Return []"
| "unwrap_each (x # xs) = run_bind (unwrap_some x) (\<lambda>v. run_bind (unwrap_each xs) (\<lambda>vs. Return (v # vs)))"

definition requested_count_with_sequential_ids :: "('spk, 'otk) signal_lib \<Rightarrow> (nat \<Rightarrow> bytes) \<Rightarrow> unit run" where
  "requested_count_with_sequential_ids S secrets =
     (let records = generate_one_time_pre_keys S secrets 10 5
      in run_bind (unwrap_each (map (otk_id S) records)) (\<lambda>ids. assert (ids = [10, 11, 12, 13, 14])))"

definition empty_vec_for_zero_count :: "('spk, 'otk) signal_lib \<Rightarrow> (nat \<Rightarrow> bytes) \<Rightarrow> unit run" where
  "empty_vec_for_zero_count S secrets = assert (generate_one_time_pre_keys S secrets 0 0 = [])"

definition unique_key_material ::
  "('spk, 'otk) signal_lib \<Rightarrow> ('spk, 'otk) test_accessors \<Rightarrow> (nat \<Rightarrow> bytes) \<Rightarrow> unit run" where
  "unique_key_material S A secrets =
     (let records = generate_one_time_pre_keys S secrets 0 2
      in run_bind (index_at records 0) (\<lambda>r0. run_bind (unwrap_some (otk_public A r0)) (\<lambda>first.
         run_bind (index_at records 1) (\<lambda>r1. run_bind (unwrap_some (otk_public A r1)) (\<lambda>second.
         assert (first \<noteq> second))))))"

definition take_returns_the_matching_record ::
  "('spk, 'otk) signal_lib \<Rightarrow> ('spk, 'otk) test_accessors \<Rightarrow> (nat \<Rightarrow> bytes) \<Rightarrow> unit run" where
  "take_returns_the_matching_record S A secrets =
     (let records = generate_one_time_pre_keys S secrets 5 3
      in run_bind (index_at records 1) (\<lambda>r1. run_bind (unwrap_some (otk_public A r1)) (\<lambda>expected_key.
         run_bind (unwrap (OneTimePreKeyPool_new S records)) (\<lambda>pool.
         run_bind (unwrap (fst (OneTimePreKeyPool_take 6 pool))) (\<lambda>taken.
         run_bind (unwrap_some (otk_public A taken)) (\<lambda>k. assert (k = expected_key)))))))"

definition take_consumes_the_prekey :: "('spk, 'otk) signal_lib \<Rightarrow> (nat \<Rightarrow> bytes) \<Rightarrow> unit run" where
  "take_consumes_the_prekey S secrets =
     run_bind (unwrap (OneTimePreKeyPool_new S (generate_one_time_pre_keys S secrets 0 3))) (\<lambda>pool.
     run_bind (assert (OneTimePreKeyPool_remaining pool = 3)) (\<lambda>_.
     let (r, pool) = OneTimePreKeyPool_take 0 pool
     in run_bind (unwrap r) (\<lambda>_. assert (OneTimePreKeyPool_remaining pool = 2))))"

definition take_rejects_a_second_take :: "('spk, 'otk) signal_lib \<Rightarrow> (nat \<Rightarrow> bytes) \<Rightarrow> unit run" where
  "take_rejects_a_second_take S secrets =
     run_bind (unwrap (OneTimePreKeyPool_new S (generate_one_time_pre_keys S secrets 0 1))) (\<lambda>pool.
     let (r, pool) = OneTimePreKeyPool_take 0 pool
     in run_bind (unwrap r) (\<lambda>_.
        run_bind (unwrap_err (fst (OneTimePreKeyPool_take 0 pool))) (\<lambda>e.
        assert (e = OneTimePreKeyAlreadyConsumed))))"

definition take_rejects_an_id_never_issued :: "('spk, 'otk) signal_lib \<Rightarrow> (nat \<Rightarrow> bytes) \<Rightarrow> unit run" where
  "take_rejects_an_id_never_issued S secrets =
     run_bind (unwrap (OneTimePreKeyPool_new S (generate_one_time_pre_keys S secrets 0 1))) (\<lambda>pool.
     run_bind (unwrap_err (fst (OneTimePreKeyPool_take 999 pool))) (\<lambda>e. assert (e = OneTimePreKeyNotFound)))"

definition new_is_empty_for_an_empty_batch :: "('spk, 'otk) signal_lib \<Rightarrow> unit run" where
  "new_is_empty_for_an_empty_batch S =
     run_bind (unwrap (OneTimePreKeyPool_new S [])) (\<lambda>pool. assert (OneTimePreKeyPool_remaining pool = 0))"

lemma otk_id_new: "signal_ok S \<Longrightarrow> otk_id S (otk_new S i k) = Some i"
  unfolding signal_ok_def by simp

lemmas one_time_test_defs = requested_count_with_sequential_ids_def empty_vec_for_zero_count_def
  unique_key_material_def take_returns_the_matching_record_def take_consumes_the_prekey_def
  take_rejects_a_second_take_def take_rejects_an_id_never_issued_def new_is_empty_for_an_empty_batch_def
  generate_one_time_pre_keys_def OneTimePreKeyPool_new_def OneTimePreKeyPool_take_def
  OneTimePreKeyPool_remaining_def index_at_def Let_def upt_rec hm_insert_def hm_remove_def

lemma one_time_prekey_tests_pass:
  assumes "signal_ok S" "accessors_ok S A"
  shows "requested_count_with_sequential_ids S secrets = Return ()"
    and "empty_vec_for_zero_count S secrets = Return ()"
    and "take_returns_the_matching_record S A secrets = Return ()"
    and "take_consumes_the_prekey S secrets = Return ()"
    and "take_rejects_a_second_take S secrets = Return ()"
    and "take_rejects_an_id_never_issued S secrets = Return ()"
    and "new_is_empty_for_an_empty_batch S = Return ()"
    and "unique_key_material S A secrets = Return () \<longleftrightarrow> key_public S (secrets 0) \<noteq> key_public S (secrets 1)"
  using assms(2)
  by (simp_all add: one_time_test_defs otk_id_new [OF assms(1)] accessors_ok_def)

section \<open>Bundles\<close>

text \<open>The bundle most tests build, with or without a one-time prekey.\<close>

definition test_bundle ::
  "('spk, 'otk) signal_lib \<Rightarrow> bytes \<Rightarrow> bytes \<Rightarrow> bytes \<Rightarrow> (nat \<Rightarrow> bytes) option \<Rightarrow> ('spk, 'otk) PreKeyBundle run" where
  "test_bundle S identity secret rnd otk =
     run_bind (generate_signed_pre_key S identity 1 test_now secret rnd) (\<lambda>signed_pre_key.
     Return \<lparr>identity_key = key_public S identity, signed_pre_key = signed_pre_key,
             one_time_pre_key = map_option (\<lambda>secrets. hd (generate_one_time_pre_keys S secrets 0 1)) otk\<rparr>)"

definition accepts_a_validly_signed_bundle ::
  "('spk, 'otk) signal_lib \<Rightarrow> bytes \<Rightarrow> bytes \<Rightarrow> bytes \<Rightarrow> (nat \<Rightarrow> bytes) \<Rightarrow> unit run" where
  "accepts_a_validly_signed_bundle S identity secret rnd secrets =
     run_bind (test_bundle S identity secret rnd (Some secrets)) (\<lambda>bundle.
     assert (verify_pre_key_bundle S bundle = Inr ()))"

definition accepts_a_bundle_with_no_one_time_pre_key ::
  "('spk, 'otk) signal_lib \<Rightarrow> bytes \<Rightarrow> bytes \<Rightarrow> bytes \<Rightarrow> unit run" where
  "accepts_a_bundle_with_no_one_time_pre_key S identity secret rnd =
     run_bind (test_bundle S identity secret rnd None) (\<lambda>bundle.
     assert (verify_pre_key_bundle S bundle = Inr ()))"

definition rejects_a_tampered_signed_pre_key ::
  "('spk, 'otk) signal_lib \<Rightarrow> bytes \<Rightarrow> bytes \<Rightarrow> bytes \<Rightarrow> bytes \<Rightarrow> unit run" where
  "rejects_a_tampered_signed_pre_key S identity secret rnd swapped_key_pair =
     run_bind (generate_signed_pre_key S identity 1 test_now secret rnd) (\<lambda>signed_pre_key.
     run_bind (unwrap_some (spk_signature S signed_pre_key)) (\<lambda>signature.
     let bundle = \<lparr>identity_key = key_public S identity,
                   signed_pre_key = spk_new S 1 test_now swapped_key_pair signature, one_time_pre_key = None\<rparr>
     in assert (verify_pre_key_bundle S bundle = Inl InvalidSignature)))"

definition rejects_an_unsigned_signed_pre_key :: "('spk, 'otk) signal_lib \<Rightarrow> bytes \<Rightarrow> bytes \<Rightarrow> unit run" where
  "rejects_an_unsigned_signed_pre_key S identity key_pair =
     (let bundle = \<lparr>identity_key = key_public S identity, signed_pre_key = spk_new S 1 test_now key_pair [],
                    one_time_pre_key = None\<rparr>
      in assert (verify_pre_key_bundle S bundle = Inl InvalidSignature))"

definition round_trips_with_one_time_prekey ::
  "('spk, 'otk) signal_lib \<Rightarrow> ('spk, 'otk) test_accessors \<Rightarrow> bytes \<Rightarrow> bytes \<Rightarrow> bytes \<Rightarrow> (nat \<Rightarrow> bytes) \<Rightarrow> unit run" where
  "round_trips_with_one_time_prekey S A identity secret rnd secrets =
     run_bind (test_bundle S identity secret rnd (Some secrets)) (\<lambda>bundle.
     run_bind (unwrap (PreKeyBundle_to_bytes S bundle)) (\<lambda>bs.
     run_bind (PreKeyBundle_from_bytes S bs) (\<lambda>r.
     run_bind (unwrap r) (\<lambda>restored.
     run_bind (assert (identity_serialize S (identity_key restored) = identity_serialize S (identity_key bundle))) (\<lambda>_.
     run_bind (unwrap_some (spk_id A (signed_pre_key restored))) (\<lambda>i.
     run_bind (unwrap_some (spk_id A (signed_pre_key bundle))) (\<lambda>i'. run_bind (assert (i = i')) (\<lambda>_.
     run_bind (unwrap_some (spk_public_key S (signed_pre_key restored))) (\<lambda>k.
     run_bind (unwrap_some (spk_public_key S (signed_pre_key bundle))) (\<lambda>k'. run_bind (assert (k = k')) (\<lambda>_.
     run_bind (unwrap_some (spk_signature S (signed_pre_key restored))) (\<lambda>s.
     run_bind (unwrap_some (spk_signature S (signed_pre_key bundle))) (\<lambda>s'. run_bind (assert (s = s')) (\<lambda>_.
     run_bind (assert (one_time_pre_key restored \<noteq> None)) (\<lambda>_.
     run_bind (unwrap_some (one_time_pre_key restored)) (\<lambda>ot.
     run_bind (unwrap_some (one_time_pre_key bundle)) (\<lambda>ot'.
     run_bind (unwrap_some (otk_id S ot)) (\<lambda>oi.
     run_bind (unwrap_some (otk_id S ot')) (\<lambda>oi'. run_bind (assert (oi = oi')) (\<lambda>_.
     run_bind (unwrap_some (otk_public A ot)) (\<lambda>ok.
     run_bind (unwrap_some (otk_public A ot')) (\<lambda>ok'. assert (ok = ok')))))))))))))))))))))))"

definition round_trips_without_one_time_prekey ::
  "('spk, 'otk) signal_lib \<Rightarrow> bytes \<Rightarrow> bytes \<Rightarrow> bytes \<Rightarrow> unit run" where
  "round_trips_without_one_time_prekey S identity secret rnd =
     run_bind (test_bundle S identity secret rnd None) (\<lambda>bundle.
     run_bind (unwrap (PreKeyBundle_to_bytes S bundle)) (\<lambda>bs.
     run_bind (PreKeyBundle_from_bytes S bs) (\<lambda>r.
     run_bind (unwrap r) (\<lambda>restored.
     asserts [one_time_pre_key restored = None,
       identity_serialize S (identity_key restored) = identity_serialize S (identity_key bundle)]))))"

text \<open>The refusals: \<open>matches!(result, Err(MalformedKey))\<close> on a byte string made from a bundle's.\<close>

definition refused :: "('spk, 'otk) signal_lib \<Rightarrow> bytes \<Rightarrow> unit run" where
  "refused S bs = run_bind (PreKeyBundle_from_bytes S bs) (\<lambda>r.
     assert (case r of Inl MalformedKey \<Rightarrow> True | _ \<Rightarrow> False))"

definition from_bytes_rejects_empty_input :: "('spk, 'otk) signal_lib \<Rightarrow> unit run" where
  "from_bytes_rejects_empty_input S = refused S []"

definition from_bytes_rejects_truncated_input ::
  "('spk, 'otk) signal_lib \<Rightarrow> bytes \<Rightarrow> bytes \<Rightarrow> bytes \<Rightarrow> (nat \<Rightarrow> bytes) \<Rightarrow> unit run" where
  "from_bytes_rejects_truncated_input S identity secret rnd secrets =
     run_bind (test_bundle S identity secret rnd (Some secrets)) (\<lambda>bundle.
     run_bind (unwrap (PreKeyBundle_to_bytes S bundle)) (\<lambda>bs.
     run_bind (slice_range bs 0 (length bs div 2)) (\<lambda>truncated. refused S truncated)))"

definition from_bytes_rejects_trailing_garbage ::
  "('spk, 'otk) signal_lib \<Rightarrow> bytes \<Rightarrow> bytes \<Rightarrow> bytes \<Rightarrow> unit run" where
  "from_bytes_rejects_trailing_garbage S identity secret rnd =
     run_bind (test_bundle S identity secret rnd None) (\<lambda>bundle.
     run_bind (unwrap (PreKeyBundle_to_bytes S bundle)) (\<lambda>bs. refused S (bs @ [255, 255, 255, 255])))"

definition from_bytes_rejects_invalid_presence_flag ::
  "('spk, 'otk) signal_lib \<Rightarrow> bytes \<Rightarrow> bytes \<Rightarrow> bytes \<Rightarrow> unit run" where
  "from_bytes_rejects_invalid_presence_flag S identity secret rnd =
     run_bind (test_bundle S identity secret rnd None) (\<lambda>bundle.
     run_bind (unwrap (PreKeyBundle_to_bytes S bundle)) (\<lambda>bs.
     if length bs = 0 then Panic
     else let last_index = length bs - 1 in refused S (bs[last_index := 0x42])))"

definition from_bytes_rejects_u32_max_length_prefix :: "('spk, 'otk) signal_lib \<Rightarrow> unit run" where
  "from_bytes_rejects_u32_max_length_prefix S = refused S ([255, 255, 255, 255] @ replicate 8 0)"

lemma test_bundle_ok:
  assumes "signal_ok S"
  obtains s where "test_bundle S identity secret rnd otk = Return
      \<lparr>identity_key = key_public S identity, signed_pre_key = spk_new S 1 test_now secret s,
       one_time_pre_key = map_option (\<lambda>secrets. otk_new S 0 (secrets 0)) otk\<rparr>"
    "verify_signature S (key_public S identity) (key_public S secret) s"
proof -
  obtain s where "generate_signed_pre_key S identity 1 test_now secret rnd = Return (spk_new S 1 test_now secret s)"
    "verify_signature S (key_public S identity) (key_public S secret) s"
    by (rule generated_signed_pre_key [OF assms])
  then show thesis
    by (intro that [of s]) (cases otk; simp add: test_bundle_def generate_one_time_pre_keys_def)
qed

lemma bundle_verification_tests_pass:
  assumes "signal_ok S" "sign S identity (key_public S secret) rnd = Some s"
  shows "accepts_a_validly_signed_bundle S identity secret rnd secrets = Return ()"
    and "accepts_a_bundle_with_no_one_time_pre_key S identity secret rnd = Return ()"
    and "rejects_a_tampered_signed_pre_key S identity secret rnd swapped = Return () \<longleftrightarrow>
      \<not> verify_signature S (key_public S identity) (key_public S swapped) s"
    and "rejects_an_unsigned_signed_pre_key S identity swapped = Return () \<longleftrightarrow>
      \<not> verify_signature S (key_public S identity) (key_public S swapped) []"
proof -
  have v: "verify_pre_key_bundle S b = Inr ()" if "test_bundle S identity secret rnd otk = Return b" for b otk
    by (rule test_bundle_ok [OF assms(1), of identity secret rnd otk])
      (use that in \<open>simp add: verify_pre_key_bundle_def verify_new_record [OF assms(1)]\<close>)
  have t: "\<exists>b. test_bundle S identity secret rnd otk = Return b" for otk
    by (rule test_bundle_ok [OF assms(1), of identity secret rnd otk]) blast
  show "accepts_a_validly_signed_bundle S identity secret rnd secrets = Return ()"
    using t [of "Some secrets"] v by (auto simp: accepts_a_validly_signed_bundle_def)
  show "accepts_a_bundle_with_no_one_time_pre_key S identity secret rnd = Return ()"
    using t [of None] v by (auto simp: accepts_a_bundle_with_no_one_time_pre_key_def)
  show "rejects_a_tampered_signed_pre_key S identity secret rnd swapped = Return () \<longleftrightarrow>
      \<not> verify_signature S (key_public S identity) (key_public S swapped) s"
    "rejects_an_unsigned_signed_pre_key S identity swapped = Return () \<longleftrightarrow>
      \<not> verify_signature S (key_public S identity) (key_public S swapped) []"
    using assms
    by (simp_all add: rejects_a_tampered_signed_pre_key_def rejects_an_unsigned_signed_pre_key_def
        generate_signed_pre_key_def verify_pre_key_bundle_def verify_new_record spk_signature_new)
qed

lemma try_bind_errors:
  assumes "\<And>e. m = Return (Inl e) \<Longrightarrow> P e" "\<And>x e. m = Return (Inr x) \<Longrightarrow> k x = Return (Inl e) \<Longrightarrow> P e"
    and "try_bind m k = Return (Inl e)"
  shows "P e"
  using assms by (cases m rule: run.exhaust) (auto simp: try_bind_def split: sum.splits)

lemma from_bytes_error: "PreKeyBundle_from_bytes S bs = Return (Inl e) \<Longrightarrow> e = MalformedKey"
proof -
  have f: "read_field c = Return (Inl e) \<Longrightarrow> e = MalformedKey" for c e
    by (auto simp: read_field_def run_bind_def split: run.splits option.splits prod.splits)
  have o: "ok_or MalformedKey x = Inl e \<Longrightarrow> e = MalformedKey" for x :: "'x option" and e
    by (auto simp: ok_or_def split: option.splits)
  have r: "read_otpk S bs off p = Return (Inl e) \<Longrightarrow> e = MalformedKey" for off p e
    by (auto simp: read_otpk_def split: if_splits elim!: try_bind_errors [rotated 2] dest: f o)
  show "PreKeyBundle_from_bytes S bs = Return (Inl e) \<Longrightarrow> e = MalformedKey"
    unfolding from_bytes_unfold
    by (elim try_bind_errors [rotated 2])
      (auto simp: index_at_def split: if_splits prod.splits elim!: try_bind_errors [rotated 2] dest: f o r)
qed

lemma refused_iff: "refused S bs = Return () \<longleftrightarrow> (\<nexists>b. bundle_layout S b bs)"
proof (cases "PreKeyBundle_from_bytes S bs")
  case Panic
  then show ?thesis using from_bytes_total by blast
next
  case (Return r)
  have "refused S bs = Return () \<longleftrightarrow> r = Inl MalformedKey"
    unfolding refused_def Return by (auto split: sum.splits PreKeyError.splits)
  also have "\<dots> \<longleftrightarrow> (\<nexists>b. r = Inr b)" using from_bytes_error [of S bs] Return by (cases r) auto
  also have "\<dots> \<longleftrightarrow> (\<nexists>b. bundle_layout S b bs)" using from_bytes_iff [of S bs] Return by simp
  finally show ?thesis .
qed

lemma bundle_layout_long: "bundle_layout S b bs \<Longrightarrow> 9 \<le> length bs"
  by (auto simp: bundle_layout_def write_len_prefixed_def otpk_layout_def split: option.splits)

lemma bundle_layout_first_field:
  assumes "bundle_layout S b bs"
  shows "be_nat (take 4 bs) + 4 \<le> length bs"
  using assms by (auto simp: bundle_layout_def write_len_prefixed_def)

text \<open>What a bundle's bytes and no proper prefix or extension of them are: a bundle.\<close>

lemma to_bytes_ok:
  assumes "signal_ok S" "bundle_fits S b"
  obtains bs where "PreKeyBundle_to_bytes S b = Inr bs" "PreKeyBundle_from_bytes S bs = Return (Inr b)"
    "bundle_layout S b bs"
  using to_bytes_layout [OF assms] from_bytes_iff [of S _ b] by blast

lemma bundle_round_trip_tests_pass:
  assumes "signal_ok S" "accessors_ok S A" "\<And>otk b. test_bundle S identity secret rnd otk = Return b \<Longrightarrow> bundle_fits S b"
  shows "round_trips_with_one_time_prekey S A identity secret rnd secrets = Return ()"
    and "round_trips_without_one_time_prekey S identity secret rnd = Return ()"
proof -
  obtain s where t: "test_bundle S identity secret rnd (Some secrets) = Return
      \<lparr>identity_key = key_public S identity, signed_pre_key = spk_new S 1 test_now secret s,
       one_time_pre_key = Some (otk_new S 0 (secrets 0))\<rparr>" (is "_ = Return ?b")
    by (rule test_bundle_ok [OF assms(1), of identity secret rnd "Some secrets"]) simp
  obtain bs where bs: "PreKeyBundle_to_bytes S ?b = Inr bs" "PreKeyBundle_from_bytes S bs = Return (Inr ?b)"
    by (rule to_bytes_ok [OF assms(1) assms(3) [OF t]])
  have "spk_public_key S (spk_new S 1 test_now secret s) = Some (key_public S secret)"
    using assms(1) by (simp add: signal_ok_def)
  then show "round_trips_with_one_time_prekey S A identity secret rnd secrets = Return ()"
    using assms(2) spk_signature_new [OF assms(1)] otk_id_new [OF assms(1)]
    by (simp add: round_trips_with_one_time_prekey_def t bs accessors_ok_def)
  obtain s where t: "test_bundle S identity secret rnd None = Return
      \<lparr>identity_key = key_public S identity, signed_pre_key = spk_new S 1 test_now secret s, one_time_pre_key = None\<rparr>"
      (is "_ = Return ?b")
    by (rule test_bundle_ok [OF assms(1), of identity secret rnd None]) simp
  obtain bs where bs: "PreKeyBundle_to_bytes S ?b = Inr bs" "PreKeyBundle_from_bytes S bs = Return (Inr ?b)"
    by (rule to_bytes_ok [OF assms(1) assms(3) [OF t]])
  show "round_trips_without_one_time_prekey S identity secret rnd = Return ()"
    by (simp add: round_trips_without_one_time_prekey_def t bs)
qed

lemma bundle_refusal_tests_pass:
  "from_bytes_rejects_empty_input S = Return ()"
  "from_bytes_rejects_u32_max_length_prefix S = Return ()"
proof -
  have "\<not> bundle_layout S b []" for b using bundle_layout_long [of S b "[]"] by auto
  then show "from_bytes_rejects_empty_input S = Return ()" by (simp add: from_bytes_rejects_empty_input_def refused_iff)
  have "be_nat [255, 255, 255, 255] = 4294967295" by (simp add: be_nat_def)
  then have "\<not> bundle_layout S b ([255, 255, 255, 255] @ replicate 8 0)" for b
    using bundle_layout_first_field [of S b "[255, 255, 255, 255] @ replicate 8 0"] by auto
  then show "from_bytes_rejects_u32_max_length_prefix S = Return ()"
    by (simp add: from_bytes_rejects_u32_max_length_prefix_def refused_iff)
qed

text \<open>What can be done to the bytes of a bundle without leaving another bundle's.\<close>

lemma layout_truncated:
  assumes "bundle_layout S b bs"
  shows "\<not> bundle_layout S b' (take (length bs div 2) bs)"
proof -
  have "drop (length bs div 2) bs \<noteq> []" using bundle_layout_long [OF assms] by simp
  then show ?thesis
    using bundle_layout_prefix_free [of S b' "take (length bs div 2) bs" b "drop (length bs div 2) bs"] assms by auto
qed

lemma layout_extended:
  assumes "bundle_layout S b bs" "post \<noteq> []"
  shows "\<not> bundle_layout S b' (bs @ post)"
  using bundle_layout_prefix_free [OF assms(1), of b' post] assms(2) by auto

lemma layout_flag:
  assumes "bundle_layout S b bs" "one_time_pre_key b = None" "v \<noteq> 0" "v \<noteq> 1"
  shows "bs \<noteq> [] \<and> \<not> bundle_layout S b' (bs[length bs - 1 := v])"
proof -
  obtain ib sb where l: "bs = (write_len_prefixed ib @ write_len_prefixed sb) @ [0]" "length ib < 2 ^ 32" "length sb < 2 ^ 32"
    using assms(1,2) by (auto simp: bundle_layout_def otpk_layout_def)
  have "\<not> bundle_layout S b' ((write_len_prefixed ib @ write_len_prefixed sb) @ [v])"
  proof
    assume "bundle_layout S b' ((write_len_prefixed ib @ write_len_prefixed sb) @ [v])"
    then obtain ib' sb' rst where r: "write_len_prefixed ib @ write_len_prefixed sb @ [v] =
        write_len_prefixed ib' @ write_len_prefixed sb' @ rst" "length ib' < 2 ^ 32" "length sb' < 2 ^ 32"
      "otpk_layout (otk_deserialize S) (one_time_pre_key b') rst"
      by (auto simp: bundle_layout_def)
    then have "rst = [v]" using prefixed_cancel [OF r(1)] prefixed_cancel [of sb "[v]" sb' rst] l(2,3) by auto
    then show False using r(4) assms(3,4) by (auto simp: otpk_layout_def split: option.splits)
  qed
  moreover have "bs[length bs - 1 := v] = (write_len_prefixed ib @ write_len_prefixed sb) @ [v]"
    unfolding l(1) by (simp add: list_update_append)
  ultimately show ?thesis using l(1) by simp
qed

lemma bundle_tampering_tests_pass:
  assumes "signal_ok S" "\<And>otk b. test_bundle S identity secret rnd otk = Return b \<Longrightarrow> bundle_fits S b"
  shows "from_bytes_rejects_truncated_input S identity secret rnd secrets = Return ()"
    and "from_bytes_rejects_trailing_garbage S identity secret rnd = Return ()"
    and "from_bytes_rejects_invalid_presence_flag S identity secret rnd = Return ()"
proof -
  obtain b where t: "test_bundle S identity secret rnd (Some secrets) = Return b"
    by (rule test_bundle_ok [OF assms(1), of identity secret rnd "Some secrets"]) simp
  obtain bs where bs: "PreKeyBundle_to_bytes S b = Inr bs" "bundle_layout S b bs" by (rule to_bytes_ok [OF assms(1) assms(2) [OF t]])
  show "from_bytes_rejects_truncated_input S identity secret rnd secrets = Return ()"
    using layout_truncated [OF bs(2)]
    by (simp add: from_bytes_rejects_truncated_input_def t bs(1) slice_range_def refused_iff)
  obtain s where t: "test_bundle S identity secret rnd None = Return
      \<lparr>identity_key = key_public S identity, signed_pre_key = spk_new S 1 test_now secret s, one_time_pre_key = None\<rparr>"
      (is "_ = Return ?b")
    by (rule test_bundle_ok [OF assms(1), of identity secret rnd None]) simp
  obtain bs where bs: "PreKeyBundle_to_bytes S ?b = Inr bs" "bundle_layout S ?b bs" by (rule to_bytes_ok [OF assms(1) assms(2) [OF t]])
  show "from_bytes_rejects_trailing_garbage S identity secret rnd = Return ()"
    using layout_extended [OF bs(2), of "[255, 255, 255, 255]"]
    by (simp add: from_bytes_rejects_trailing_garbage_def t bs(1) refused_iff)
  show "from_bytes_rejects_invalid_presence_flag S identity secret rnd = Return ()"
    using layout_flag [OF bs(2), of "0x42"]
    by (simp add: from_bytes_rejects_invalid_presence_flag_def t bs(1) refused_iff)
qed

end
