(* ===== verification/Dht_Tests.thy ===== *)
theory Dht_Tests
  imports Dht Prekey_Tests
begin

text \<open>
  The unit tests of \<open>core/transport/src/dht.rs\<close>, translated over an arbitrary library, with the
  lemmas that they pass.
\<close>

section \<open>Tests\<close>

definition bundle_for ::
  "('spk, 'otk) signal_lib \<Rightarrow> bytes \<Rightarrow> bytes \<Rightarrow> (nat \<Rightarrow> bytes) \<Rightarrow> bytes \<Rightarrow> bool \<Rightarrow> ('spk, 'otk) PreKeyBundle run" where
  "bundle_for S secret rnd secrets identity with_one_time =
     run_bind (generate_signed_pre_key S identity 1 test_now secret rnd) (\<lambda>signed_pre_key.
     Return \<lparr>identity_key = key_public S identity, signed_pre_key = signed_pre_key,
             one_time_pre_key = (if with_one_time then Some (hd (generate_one_time_pre_keys S secrets 0 1)) else None)\<rparr>)"

definition round_trips_a_bundle_with_a_one_time_prekey ::
  "('spk, 'otk) signal_lib \<Rightarrow> bytes \<Rightarrow> bytes \<Rightarrow> (nat \<Rightarrow> bytes) \<Rightarrow> bytes \<Rightarrow> unit run" where
  "round_trips_a_bundle_with_a_one_time_prekey S secret rnd secrets identity =
     run_bind (bundle_for S secret rnd secrets identity True) (\<lambda>bundle.
     let key = record_key_for_identity S (identity_key bundle)
     in run_bind (unwrap (encode_bundle S bundle)) (\<lambda>encoded.
        run_bind (unwrap (decode_and_verify_bundle S key encoded)) (\<lambda>decoded.
        asserts [identity_serialize S (identity_key decoded) = identity_serialize S (identity_key bundle),
          one_time_pre_key decoded \<noteq> None])))"

definition round_trips_a_bundle_without_a_one_time_prekey ::
  "('spk, 'otk) signal_lib \<Rightarrow> bytes \<Rightarrow> bytes \<Rightarrow> (nat \<Rightarrow> bytes) \<Rightarrow> bytes \<Rightarrow> unit run" where
  "round_trips_a_bundle_without_a_one_time_prekey S secret rnd secrets identity =
     run_bind (bundle_for S secret rnd secrets identity False) (\<lambda>bundle.
     let key = record_key_for_identity S (identity_key bundle)
     in run_bind (unwrap (encode_bundle S bundle)) (\<lambda>encoded.
        run_bind (unwrap (decode_and_verify_bundle S key encoded)) (\<lambda>decoded.
        assert (one_time_pre_key decoded = None))))"

definition record_key_is_the_serialized_identity_key :: "('spk, 'otk) signal_lib \<Rightarrow> bytes \<Rightarrow> unit run" where
  "record_key_is_the_serialized_identity_key S identity =
     (let key = record_key_for_identity S (key_public S identity)
      in assert (key = identity_serialize S (key_public S identity)))"

definition rejects_a_record_stored_under_a_different_identity ::
  "('spk, 'otk) signal_lib \<Rightarrow> bytes \<Rightarrow> bytes \<Rightarrow> (nat \<Rightarrow> bytes) \<Rightarrow> bytes \<Rightarrow> bytes \<Rightarrow> unit run" where
  "rejects_a_record_stored_under_a_different_identity S secret rnd secrets alice bob =
     run_bind (bundle_for S secret rnd secrets bob False) (\<lambda>bob_bundle.
     let alice_key = record_key_for_identity S (key_public S alice)
     in run_bind (unwrap (encode_bundle S bob_bundle)) (\<lambda>encoded.
        assert (decode_and_verify_bundle S alice_key encoded = Inl IdentityKeyMismatch)))"

definition decode_rejects_a_tampered_signed_prekey ::
  "('spk, 'otk) signal_lib \<Rightarrow> bytes \<Rightarrow> bytes \<Rightarrow> bytes \<Rightarrow> bytes \<Rightarrow> unit run" where
  "decode_rejects_a_tampered_signed_prekey S secret rnd identity swapped =
     run_bind (generate_signed_pre_key S identity 1 test_now secret rnd) (\<lambda>signed.
     run_bind (unwrap_some (spk_signature S signed)) (\<lambda>signature.
     let bundle = \<lparr>identity_key = key_public S identity,
                   signed_pre_key = spk_new S 1 test_now swapped signature, one_time_pre_key = None\<rparr>;
         key = record_key_for_identity S (key_public S identity)
     in run_bind (unwrap (encode_bundle S bundle)) (\<lambda>encoded.
        assert (decode_and_verify_bundle S key encoded = Inl (InvalidBundle InvalidSignature)))))"

definition rejects_truncated_record_bytes ::
  "('spk, 'otk) signal_lib \<Rightarrow> bytes \<Rightarrow> bytes \<Rightarrow> (nat \<Rightarrow> bytes) \<Rightarrow> bytes \<Rightarrow> unit run" where
  "rejects_truncated_record_bytes S secret rnd secrets identity =
     run_bind (bundle_for S secret rnd secrets identity False) (\<lambda>bundle.
     let key = record_key_for_identity S (identity_key bundle)
     in run_bind (unwrap (encode_bundle S bundle)) (\<lambda>encoded.
        run_bind (slice_range encoded 0 (length encoded div 2)) (\<lambda>truncated.
        assert (decode_and_verify_bundle S key truncated = Inl MalformedRecord))))"

definition rejects_empty_record_bytes :: "('spk, 'otk) signal_lib \<Rightarrow> bytes \<Rightarrow> unit run" where
  "rejects_empty_record_bytes S identity =
     (let key = record_key_for_identity S (key_public S identity)
      in assert (decode_and_verify_bundle S key [] = Inl MalformedRecord))"

definition decode_rejects_trailing_garbage ::
  "('spk, 'otk) signal_lib \<Rightarrow> bytes \<Rightarrow> bytes \<Rightarrow> (nat \<Rightarrow> bytes) \<Rightarrow> bytes \<Rightarrow> unit run" where
  "decode_rejects_trailing_garbage S secret rnd secrets identity =
     run_bind (bundle_for S secret rnd secrets identity False) (\<lambda>bundle.
     let key = record_key_for_identity S (identity_key bundle)
     in run_bind (unwrap (encode_bundle S bundle)) (\<lambda>encoded.
        assert (decode_and_verify_bundle S key (encoded @ [0xff]) = Inl MalformedRecord)))"

definition rejects_an_invalid_one_time_prekey_flag ::
  "('spk, 'otk) signal_lib \<Rightarrow> bytes \<Rightarrow> bytes \<Rightarrow> (nat \<Rightarrow> bytes) \<Rightarrow> bytes \<Rightarrow> unit run" where
  "rejects_an_invalid_one_time_prekey_flag S secret rnd secrets identity =
     run_bind (bundle_for S secret rnd secrets identity False) (\<lambda>bundle.
     let key = record_key_for_identity S (identity_key bundle)
     in run_bind (unwrap (encode_bundle S bundle)) (\<lambda>encoded.
        if encoded = [] then Panic
        else assert (decode_and_verify_bundle S key (encoded[length encoded - 1 := 7]) = Inl MalformedRecord)))"

text \<open>The peer id of a swarm is read back with \<open>local_peer_id\<close>, a call of libp2p.\<close>

definition uses_the_identity_keypairs_peer_id ::
  "('kp, 'pid, 'ms, 'd, 'bd, 'sw, 'e) kad_lib \<Rightarrow> ('sw \<Rightarrow> 'pid) \<Rightarrow> 'kp \<Rightarrow> unit run" where
  "uses_the_identity_keypairs_peer_id K local_peer_id keypair =
     (let expected = kad_peer_id K keypair
      in run_bind (unwrap (build_dht_swarm K keypair)) (\<lambda>swarm. assert (local_peer_id swarm = expected)))"

section \<open>They pass\<close>

lemma bundle_for_eq:
  "bundle_for S secret rnd secrets identity with_one_time =
     test_bundle S identity secret rnd (if with_one_time then Some secrets else None)"
  by (simp add: bundle_for_def test_bundle_def)

lemma take_field_error: "take_field c = Inl e \<Longrightarrow> e = MalformedRecord"
  by (auto simp: take_field_def Let_def split: if_splits)

lemma decode_bundle_error: "decode_bundle S v = Inl e \<Longrightarrow> e = MalformedRecord"
  by (auto simp: decode_bundle_def dest!: take_field_error split: if_splits sum.splits option.splits list.splits)

lemma malformed_iff:
  "decode_and_verify_bundle S key v = Inl MalformedRecord \<longleftrightarrow> (\<nexists>b. bundle_layout S b v)"
proof (cases "decode_bundle S v")
  case (Inl e)
  then show ?thesis using decode_bundle_error [OF Inl] decode_bundle_iff [of S v] by (simp add: decode_and_verify_bundle_def)
next
  case (Inr b)
  then show ?thesis using decode_bundle_iff [of S v b]
    by (auto simp: decode_and_verify_bundle_def split: sum.splits)
qed

lemma encoded_bundle:
  assumes "signal_ok S" "bundle_fits S b"
  obtains v where "encode_bundle S b = Inr v" "bundle_layout S b v" "decode_bundle S v = Inr b"
  by (rule to_bytes_ok [OF assms]) (use that in \<open>auto simp: encode_is_to_bytes decode_bundle_iff\<close>)

lemma test_record:
  assumes "signal_ok S" "\<And>otk b. test_bundle S identity secret rnd otk = Return b \<Longrightarrow> bundle_fits S b"
  obtains b v where "bundle_for S secret rnd secrets identity w = Return b" "identity_key b = key_public S identity"
    "(one_time_pre_key b \<noteq> None) = w" "verify_pre_key_bundle S b = Inr ()"
    "encode_bundle S b = Inr v" "bundle_layout S b v" "decode_bundle S v = Inr b"
proof -
  let ?o = "if w then Some secrets else None"
  obtain s where t: "test_bundle S identity secret rnd ?o = Return
      \<lparr>identity_key = key_public S identity, signed_pre_key = spk_new S 1 test_now secret s,
       one_time_pre_key = map_option (\<lambda>secrets. otk_new S 0 (secrets 0)) ?o\<rparr>" (is "_ = Return ?b")
    "verify_signature S (key_public S identity) (key_public S secret) s"
    by (rule test_bundle_ok [OF assms(1), of identity secret rnd ?o])
  obtain v where v: "encode_bundle S ?b = Inr v" "bundle_layout S ?b v" "decode_bundle S v = Inr ?b"
    by (rule encoded_bundle [OF assms(1) assms(2) [OF t(1)]])
  show thesis
    by (rule that [OF _ _ _ _ v])
      (use t in \<open>simp_all add: bundle_for_eq verify_pre_key_bundle_def verify_new_record [OF assms(1)]\<close>)
qed

lemma dht_record_tests_pass:
  assumes "signal_ok S" "\<And>otk b. test_bundle S identity secret rnd otk = Return b \<Longrightarrow> bundle_fits S b"
  shows "round_trips_a_bundle_with_a_one_time_prekey S secret rnd secrets identity = Return ()"
    and "round_trips_a_bundle_without_a_one_time_prekey S secret rnd secrets identity = Return ()"
    and "record_key_is_the_serialized_identity_key S identity = Return ()"
    and "key_public S alice \<noteq> key_public S identity \<Longrightarrow>
      rejects_a_record_stored_under_a_different_identity S secret rnd secrets alice identity = Return ()"
proof -
  show "round_trips_a_bundle_with_a_one_time_prekey S secret rnd secrets identity = Return ()"
    by (rule test_record [OF assms, where secrets = secrets and w = True])
      (auto simp: round_trips_a_bundle_with_a_one_time_prekey_def decode_and_verify_bundle_def record_key_for_identity_def)
  show "round_trips_a_bundle_without_a_one_time_prekey S secret rnd secrets identity = Return ()"
    by (rule test_record [OF assms, where secrets = secrets and w = False])
      (auto simp: round_trips_a_bundle_without_a_one_time_prekey_def decode_and_verify_bundle_def record_key_for_identity_def)
  show "record_key_is_the_serialized_identity_key S identity = Return ()"
    by (simp add: record_key_is_the_serialized_identity_key_def record_key_for_identity_def)
  assume "key_public S alice \<noteq> key_public S identity"
  then have "identity_serialize S (key_public S alice) \<noteq> identity_serialize S (key_public S identity)"
    using assms(1) unfolding signal_ok_def by (metis option.inject)
  moreover obtain b v where "bundle_for S secret rnd secrets identity False = Return b"
    "identity_key b = key_public S identity" "encode_bundle S b = Inr v" "decode_bundle S v = Inr b"
    by (rule test_record [OF assms, where secrets = secrets and w = False])
  ultimately show "rejects_a_record_stored_under_a_different_identity S secret rnd secrets alice identity = Return ()"
    by (simp add: rejects_a_record_stored_under_a_different_identity_def decode_and_verify_bundle_def record_key_for_identity_def)
qed

lemma dht_refusal_tests_pass:
  assumes "signal_ok S" "\<And>otk b. test_bundle S identity secret rnd otk = Return b \<Longrightarrow> bundle_fits S b"
  shows "rejects_truncated_record_bytes S secret rnd secrets identity = Return ()"
    and "rejects_empty_record_bytes S identity = Return ()"
    and "decode_rejects_trailing_garbage S secret rnd secrets identity = Return ()"
    and "rejects_an_invalid_one_time_prekey_flag S secret rnd secrets identity = Return ()"
proof -
  obtain b v where b: "bundle_for S secret rnd secrets identity False = Return b" "one_time_pre_key b = None"
    "encode_bundle S b = Inr v" "bundle_layout S b v"
    by (rule test_record [OF assms, where secrets = secrets and w = False]) auto
  show "rejects_truncated_record_bytes S secret rnd secrets identity = Return ()"
    using layout_truncated [OF b(4)] by (simp add: rejects_truncated_record_bytes_def b slice_range_def malformed_iff)
  have "\<not> bundle_layout S b []" for b using bundle_layout_long [of S b "[]"] by auto
  then show "rejects_empty_record_bytes S identity = Return ()" by (simp add: rejects_empty_record_bytes_def malformed_iff)
  show "decode_rejects_trailing_garbage S secret rnd secrets identity = Return ()"
    using layout_extended [OF b(4), of "[0xff]"] by (simp add: decode_rejects_trailing_garbage_def b malformed_iff)
  show "rejects_an_invalid_one_time_prekey_flag S secret rnd secrets identity = Return ()"
    using layout_flag [OF b(4,2), of 7] by (simp add: rejects_an_invalid_one_time_prekey_flag_def b malformed_iff)
qed

text \<open>The spliced key is refused exactly when the library refuses the signature under it.\<close>

lemma dht_tampering_test_passes_iff:
  assumes "signal_ok S" "sign S identity (key_public S secret) rnd = Some s"
    and "bundle_fits S \<lparr>identity_key = key_public S identity, signed_pre_key = spk_new S 1 test_now swapped s,
      one_time_pre_key = None\<rparr>"
  shows "decode_rejects_a_tampered_signed_prekey S secret rnd identity swapped = Return () \<longleftrightarrow>
    \<not> verify_signature S (key_public S identity) (key_public S swapped) s"
  by (rule encoded_bundle [OF assms(1,3)])
    (use assms(1,2) in \<open>simp add: decode_rejects_a_tampered_signed_prekey_def generate_signed_pre_key_def
      spk_signature_new decode_and_verify_bundle_def record_key_for_identity_def verify_pre_key_bundle_def verify_new_record\<close>)

text \<open>A swarm has the peer id of the key pair its builder was given, so the test passes when the swarm builds.\<close>

lemma swarm_test_passes_iff:
  assumes "\<And>kp builder d swarm. kad_with_tcp K kp = Inr builder \<Longrightarrow> kad_with_behaviour K builder d = Inr swarm \<Longrightarrow>
    local_peer_id swarm = kad_peer_id K kp"
  shows "uses_the_identity_keypairs_peer_id K local_peer_id keypair = Return () \<longleftrightarrow> \<not> isl (build_dht_swarm K keypair)"
proof (cases "build_dht_swarm K keypair")
  case (Inr swarm)
  then have "local_peer_id swarm = kad_peer_id K keypair"
    using assms by (auto simp: build_dht_swarm_def and_then_def split: sum.splits)
  then show ?thesis using Inr by (simp add: uses_the_identity_keypairs_peer_id_def)
qed (simp add: uses_the_identity_keypairs_peer_id_def)

end
