(* ===== verification/Fanout_Tests.thy ===== *)
theory Fanout_Tests
  imports Fanout
begin

text \<open>
  The unit tests of \<open>core/protocol/src/fanout.rs\<close>, translated over an arbitrary library, with the
  lemmas that they pass for every library that behaves as documented. The test that a device cannot
  read another device's ciphertext rests on the strength of the ratchet and is not translated, nor
  is the one on the runtime the calls block in.
\<close>

section \<open>Tests\<close>

definition establish_rejects_an_empty_device_list ::
  "session_lib \<Rightarrow> ('spk, 'otk) signal_lib \<Rightarrow> ('spk, 'otk, 'kpk) record_lib \<Rightarrow> ('spk, 'otk, 'kpk, 'st) ratchet_lib \<Rightarrow>
   bytes \<Rightarrow> unit run" where
  "establish_rejects_an_empty_device_list L S A R sender =
     run_bind (FanoutSession_establish L S A R sender []) (\<lambda>result.
     run_bind (unwrap_err result) (\<lambda>e. assert (case e of NoDevices \<Rightarrow> True | _ \<Rightarrow> False)))"

definition establish_rejects_a_duplicate_device_id ::
  "session_lib \<Rightarrow> ('spk, 'otk) signal_lib \<Rightarrow> ('spk, 'otk, 'kpk) record_lib \<Rightarrow> ('spk, 'otk, 'kpk, 'st) ratchet_lib \<Rightarrow>
   bytes \<Rightarrow> bytes \<times> device_rand \<Rightarrow> bytes \<times> device_rand \<Rightarrow> unit run" where
  "establish_rejects_a_duplicate_device_id L S A R sender a b =
     run_bind (FanoutSession_establish L S A R sender [(1, a), (1, b)]) (\<lambda>result.
     run_bind (unwrap_err result) (\<lambda>e. assert (case e of DuplicateDevice d \<Rightarrow> d = 1 | _ \<Rightarrow> False)))"

definition establish_rejects_the_same_identity_under_two_device_ids ::
  "session_lib \<Rightarrow> ('spk, 'otk) signal_lib \<Rightarrow> ('spk, 'otk, 'kpk) record_lib \<Rightarrow> ('spk, 'otk, 'kpk, 'st) ratchet_lib \<Rightarrow>
   bytes \<Rightarrow> bytes \<Rightarrow> device_rand \<Rightarrow> device_rand \<Rightarrow> unit run" where
  "establish_rejects_the_same_identity_under_two_device_ids L S A R sender shared w w' =
     run_bind (FanoutSession_establish L S A R sender [(1, shared, w), (2, shared, w')]) (\<lambda>result.
     run_bind (unwrap_err result) (\<lambda>e. assert (case e of DuplicateIdentity d \<Rightarrow> d = 1 | _ \<Rightarrow> False)))"

text \<open>How the other tests begin: a fan-out is established and one message encrypted to all devices.\<close>

definition sent_to ::
  "session_lib \<Rightarrow> ('spk, 'otk) signal_lib \<Rightarrow> ('spk, 'otk, 'kpk) record_lib \<Rightarrow> ('spk, 'otk, 'kpk, 'st) ratchet_lib \<Rightarrow>
   (DeviceId \<Rightarrow> u64 \<times> bytes) \<Rightarrow> bytes \<Rightarrow> (DeviceId \<times> bytes \<times> device_rand) list \<Rightarrow> bytes \<Rightarrow>
   (DeviceCiphertext list \<times> ('spk, 'otk, 'kpk, 'st) FanoutSession) run" where
  "sent_to L S A R rnd sender devices message =
     run_bind (FanoutSession_establish L S A R sender devices) (\<lambda>result.
     run_bind (unwrap result) (\<lambda>fanout.
     let (result, fanout) = FanoutSession_encrypt_to_all R rnd message fanout
     in run_bind result (\<lambda>result.
        run_bind (unwrap result) (\<lambda>ciphertexts. Return (ciphertexts, fanout)))))"

definition decrypt_as_rejects_an_identity_not_in_the_fanout ::
  "session_lib \<Rightarrow> ('spk, 'otk) signal_lib \<Rightarrow> ('spk, 'otk, 'kpk) record_lib \<Rightarrow> ('spk, 'otk, 'kpk, 'st) ratchet_lib \<Rightarrow>
   (DeviceId \<Rightarrow> u64 \<times> bytes) \<Rightarrow> bytes \<Rightarrow> bytes \<Rightarrow> bytes \<times> device_rand \<Rightarrow> bytes \<Rightarrow> unit run" where
  "decrypt_as_rejects_an_identity_not_in_the_fanout L S A R rnd q sender recipient stranger =
     run_bind (sent_to L S A R rnd sender [(1, recipient)] (str_bytes ''hi'')) (\<lambda>(ciphertexts, fanout).
     run_bind (assert (length ciphertexts = 1)) (\<lambda>_.
     run_bind (index_at ciphertexts 0) (\<lambda>c.
     run_bind (FanoutSession_decrypt_as L S R q stranger c fanout) (\<lambda>(result, fanout).
     assert (case result of Inl UnknownIdentity \<Rightarrow> True | _ \<Rightarrow> False)))))"

definition single_device_round_trips ::
  "session_lib \<Rightarrow> ('spk, 'otk) signal_lib \<Rightarrow> ('spk, 'otk, 'kpk) record_lib \<Rightarrow> ('spk, 'otk, 'kpk, 'st) ratchet_lib \<Rightarrow>
   (DeviceId \<Rightarrow> u64 \<times> bytes) \<Rightarrow> bytes \<Rightarrow> bytes \<Rightarrow> bytes \<times> device_rand \<Rightarrow> unit run" where
  "single_device_round_trips L S A R rnd q sender recipient =
     run_bind (sent_to L S A R rnd sender [(7, recipient)] (str_bytes ''only you'')) (\<lambda>(ciphertexts, fanout).
     run_bind (assert (length ciphertexts = 1)) (\<lambda>_.
     run_bind (index_at ciphertexts 0) (\<lambda>c.
     run_bind (assert (ct_device c = 7)) (\<lambda>_.
     run_bind (FanoutSession_decrypt_as L S R q (fst recipient) c fanout) (\<lambda>(result, fanout).
     run_bind (unwrap result) (\<lambda>opened. assert (opened = str_bytes ''only you'')))))))"

definition rejects_a_ciphertext_with_a_mismatched_device_label ::
  "session_lib \<Rightarrow> ('spk, 'otk) signal_lib \<Rightarrow> ('spk, 'otk, 'kpk) record_lib \<Rightarrow> ('spk, 'otk, 'kpk, 'st) ratchet_lib \<Rightarrow>
   (DeviceId \<Rightarrow> u64 \<times> bytes) \<Rightarrow> bytes \<Rightarrow> bytes \<Rightarrow> bytes \<times> device_rand \<Rightarrow> bytes \<times> device_rand \<Rightarrow> unit run" where
  "rejects_a_ciphertext_with_a_mismatched_device_label L S A R rnd q sender recipient_a recipient_b =
     run_bind (sent_to L S A R rnd sender [(1, recipient_a), (2, recipient_b)] (str_bytes ''secret'')) (\<lambda>(ciphertexts, fanout).
     run_bind (index_at ciphertexts 0) (\<lambda>c.
     let forged = \<lparr>ct_device = 2, ct_envelope = ct_envelope c\<rparr>
     in run_bind (FanoutSession_decrypt_as L S R q (fst recipient_a) forged fanout) (\<lambda>(result, fanout).
        assert (case result of Inl (DeviceMismatch claimed actual) \<Rightarrow> claimed = 2 \<and> actual = 1 | _ \<Rightarrow> False))))"

definition decrypting_after_the_device_was_removed_is_unknown_identity ::
  "session_lib \<Rightarrow> ('spk, 'otk) signal_lib \<Rightarrow> ('spk, 'otk, 'kpk) record_lib \<Rightarrow> ('spk, 'otk, 'kpk, 'st) ratchet_lib \<Rightarrow>
   (DeviceId \<Rightarrow> u64 \<times> bytes) \<Rightarrow> bytes \<Rightarrow> bytes \<Rightarrow> bytes \<times> device_rand \<Rightarrow> unit run" where
  "decrypting_after_the_device_was_removed_is_unknown_identity L S A R rnd q sender recipient =
     run_bind (sent_to L S A R rnd sender [(1, recipient)] (str_bytes ''before removal'')) (\<lambda>(ciphertexts, fanout).
     let (result, fanout) = FanoutSession_remove_device 1 fanout
     in run_bind (unwrap result) (\<lambda>_.
        run_bind (index_at ciphertexts 0) (\<lambda>c.
        run_bind (FanoutSession_decrypt_as L S R q (fst recipient) c fanout) (\<lambda>(result, fanout).
        assert (case result of Inl UnknownIdentity \<Rightarrow> True | _ \<Rightarrow> False)))))"

section \<open>They pass\<close>

lemma establish_first:
  fixes R :: "('a, 'b, 'c, 'd) ratchet_lib"
  assumes "ratchet_ok L S A R synced"
  obtains x y where "FanoutSession_establish L S A R sender ((d, i, w) # ds) =
    establish_devices L S A R sender ds
      (link_device (identity_hash S R i) d x y \<lparr>sender_sessions = [], identity_to_device = [], receiver_sessions = []\<rparr>)"
proof (rule establish_step [OF assms, of "\<lparr>sender_sessions = [], identity_to_device = [], receiver_sessions = []\<rparr>" d
      sender i w ds])
  fix a b
  assume "establish_devices L S A R sender ((d, i, w) # ds) \<lparr>sender_sessions = [], identity_to_device = [], receiver_sessions = []\<rparr> =
      (case map_of (identity_to_device (\<lparr>sender_sessions = [], identity_to_device = [], receiver_sessions = []\<rparr> ::
          ('a, 'b, 'c, 'd) FanoutSession)) (identity_hash S R i) of
         Some existing \<Rightarrow> Return (Inl (DuplicateIdentity existing))
       | None \<Rightarrow> establish_devices L S A R sender ds
           (link_device (identity_hash S R i) d a b \<lparr>sender_sessions = [], identity_to_device = [], receiver_sessions = []\<rparr>))"
  then show thesis by (intro that [of a b]) (simp add: FanoutSession_establish_def)
qed simp

lemma establish_refusal_tests_pass:
  assumes "ratchet_ok L S A R synced"
  shows "establish_rejects_an_empty_device_list L S A R sender = Return ()"
    and "establish_rejects_a_duplicate_device_id L S A R sender a b = Return ()"
    and "establish_rejects_the_same_identity_under_two_device_ids L S A R sender shared w w' = Return ()"
proof -
  show "establish_rejects_an_empty_device_list L S A R sender = Return ()"
    by (simp add: establish_rejects_an_empty_device_list_def FanoutSession_establish_def)
  show "establish_rejects_a_duplicate_device_id L S A R sender a b = Return ()"
    by (rule establish_first [OF assms, of sender 1 "fst a" "snd a" "[(1, b)]"], cases b)
      (simp add: establish_rejects_a_duplicate_device_id_def link_device_maps [OF fan_empty(1)])
  obtain x y where est: "FanoutSession_establish L S A R sender [(1, shared, w), (2, shared, w')] =
    establish_devices L S A R sender [(2, shared, w')] (link_device (identity_hash S R shared) 1 x y
      \<lparr>sender_sessions = [], identity_to_device = [], receiver_sessions = []\<rparr>)" (is "_ = establish_devices _ _ _ _ _ _ ?g")
    by (rule establish_first [OF assms])
  have "map_of (sender_sessions ?g) 2 = None" by (simp add: link_device_maps [OF fan_empty(1)])
  then have "establish_devices L S A R sender [(2, shared, w')] ?g = Return (Inl (DuplicateIdentity 1))"
    by (rule establish_step [OF assms, of ?g 2 sender shared w' "[]"]) (simp add: link_device_maps [OF fan_empty(1)])
  then show "establish_rejects_the_same_identity_under_two_device_ids L S A R sender shared w w' = Return ()"
    by (simp add: establish_rejects_the_same_identity_under_two_device_ids_def est)
qed

lemma sent_to_ok:
  assumes "ratchet_ok L S A R synced" "devices \<noteq> []" "distinct (map fst devices)"
    and "distinct (map (\<lambda>x. identity_hash S R (fst (snd x))) devices)"
  obtains out f where "sent_to L S A R rnd sender devices m = Return (out, f)" "fan_wf f"
    "map ct_device out = sorted_list_of_set (fst ` set devices)"
    "map_of (identity_to_device f) = map_of (map (\<lambda>x. (identity_hash S R (fst (snd x)), fst x)) devices)"
    "\<forall>c \<in> set out. \<exists>b. map_of (receiver_sessions f) (ct_device c) = Some b \<and> delivers L R m (ct_envelope c) b"
proof -
  let ?f0 = "\<lparr>sender_sessions = [], identity_to_device = [], receiver_sessions = []\<rparr>"
  have "fresh_devices S R devices ?f0" using assms(3,4) by (simp add: fresh_devices_def)
  then obtain f where f: "establish_devices L S A R sender devices ?f0 = Return (Inr f)" "fan_wf f" "fan_linked R synced f"
    "dom (map_of (sender_sessions f)) = fst ` set devices"
    "map_of (identity_to_device f) = map_of (map (\<lambda>x. (identity_hash S R (fst (snd x)), fst x)) devices)"
    using establish_devices_ok [OF assms(1) fan_empty, of devices sender, simplified] by blast
  obtain out f' where out: "FanoutSession_encrypt_to_all R rnd m f = (Return (Inr out), f')"
    "map ct_device out = bt_keys (sender_sessions f)" "fan_wf f'"
    "receiver_sessions f' = receiver_sessions f" "identity_to_device f' = identity_to_device f"
    "\<forall>c \<in> set out. \<forall>b. map_of (receiver_sessions f) (ct_device c) = Some b \<longrightarrow> delivers L R m (ct_envelope c) b"
    using encrypt_to_all_ok [OF assms(1) f(2,3), of rnd m] by blast
  have "ct_device c \<in> dom (map_of (receiver_sessions f))" if "c \<in> set out" for c
  proof -
    have "ct_device c \<in> set (map ct_device out)" using that by simp
    then show ?thesis using out(2) wf_keys [OF f(2)] f(2) by (simp add: fan_wf_def)
  qed
  then have "\<forall>c \<in> set out. \<exists>b. map_of (receiver_sessions f') (ct_device c) = Some b \<and> delivers L R m (ct_envelope c) b"
    using out(4,6) by fastforce
  moreover have "sent_to L S A R rnd sender devices m = Return (out, f')"
    using assms(2) f(1) out(1) by (simp add: sent_to_def FanoutSession_establish_def)
  ultimately show thesis using that out(2,3,5) f(5) keys_sorted [OF f(2)] f(4) by simp
qed

lemma single_device_tests_pass:
  assumes "ratchet_ok L S A R synced"
  shows "single_device_round_trips L S A R rnd q sender recipient = Return ()"
    and "decrypting_after_the_device_was_removed_is_unknown_identity L S A R rnd q sender recipient = Return ()"
    and "identity_hash S R stranger \<noteq> identity_hash S R (fst recipient) \<Longrightarrow>
      decrypt_as_rejects_an_identity_not_in_the_fanout L S A R rnd q sender recipient stranger = Return ()"
proof -
  have one: "\<exists>c f b. sent_to L S A R rnd sender [(d, recipient)] m = Return ([c], f) \<and> ct_device c = d \<and> fan_wf f \<and>
      map_of (identity_to_device f) = [identity_hash S R (fst recipient) \<mapsto> d] \<and>
      map_of (receiver_sessions f) d = Some b \<and> delivers L R m (ct_envelope c) b" for d m
    by (rule sent_to_ok [OF assms, of "[(d, recipient)]" rnd sender m]) (auto simp: length_Suc_conv map_eq_Cons_conv)
  show "single_device_round_trips L S A R rnd q sender recipient = Return ()"
  proof -
    obtain c f b where c: "sent_to L S A R rnd sender [(7, recipient)] (str_bytes ''only you'') = Return ([c], f)"
      "ct_device c = 7" "map_of (identity_to_device f) = [identity_hash S R (fst recipient) \<mapsto> 7]"
      "map_of (receiver_sessions f) 7 = Some b" "delivers L R (str_bytes ''only you'') (ct_envelope c) b"
      using one by blast
    then obtain f' where "FanoutSession_decrypt_as L S R q (fst recipient) c f = Return (Inr (str_bytes ''only you''), f')"
      using decrypt_as_ok [of f S R "fst recipient" c b L] by auto
    then show ?thesis using c(1,2) by (simp add: single_device_round_trips_def index_at_def)
  qed
  show "decrypting_after_the_device_was_removed_is_unknown_identity L S A R rnd q sender recipient = Return ()"
  proof -
    obtain c f where c: "sent_to L S A R rnd sender [(1, recipient)] (str_bytes ''before removal'') = Return ([c], f)"
      "fan_wf f" "map_of (identity_to_device f) = [identity_hash S R (fst recipient) \<mapsto> 1]"
      using one by blast
    obtain f' where f': "FanoutSession_remove_device 1 f = (Inr (), f')" by (simp add: FanoutSession_remove_device_def)
    then have "map_of (identity_to_device f') (identity_hash S R (fst recipient)) = None"
      using remove_device_maps(3) [OF c(2), of 1 "identity_hash S R (fst recipient)"] c(3) by simp
    then show ?thesis
      using c(1) f' by (simp add: decrypting_after_the_device_was_removed_is_unknown_identity_def index_at_def
          FanoutSession_decrypt_as_def)
  qed
  assume ne: "identity_hash S R stranger \<noteq> identity_hash S R (fst recipient)"
  obtain c f where c: "sent_to L S A R rnd sender [(1, recipient)] (str_bytes ''hi'') = Return ([c], f)"
    "map_of (identity_to_device f) = [identity_hash S R (fst recipient) \<mapsto> 1]"
    using one by blast
  then show "decrypt_as_rejects_an_identity_not_in_the_fanout L S A R rnd q sender recipient stranger = Return ()"
    using ne by (simp add: decrypt_as_rejects_an_identity_not_in_the_fanout_def index_at_def FanoutSession_decrypt_as_def)
qed

lemma mismatched_label_test_passes:
  assumes "ratchet_ok L S A R synced" "identity_hash S R (fst recipient_a) \<noteq> identity_hash S R (fst recipient_b)"
  shows "rejects_a_ciphertext_with_a_mismatched_device_label L S A R rnd q sender recipient_a recipient_b = Return ()"
proof -
  let ?ds = "[(1, recipient_a), (2, recipient_b)] :: (DeviceId \<times> bytes \<times> device_rand) list"
  obtain out f where o: "sent_to L S A R rnd sender ?ds (str_bytes ''secret'') = Return (out, f)"
    "map ct_device out = sorted_list_of_set (fst ` set ?ds)"
    "map_of (identity_to_device f) = map_of (map (\<lambda>x. (identity_hash S R (fst (snd x)), fst x)) ?ds)"
    by (rule sent_to_ok [OF assms(1), of ?ds rnd sender "str_bytes ''secret''"]) (use assms(2) in auto)
  have "length out = 2" using arg_cong [OF o(2), of length] by (simp add: word_le_nat_alt)
  then have "index_at out 0 = Return (out ! 0)" by (simp add: index_at_def)
  then show ?thesis
    using o(1,3) by (simp add: rejects_a_ciphertext_with_a_mismatched_device_label_def FanoutSession_decrypt_as_def)
qed

end
