(* ===== verification/Group_Tests.thy ===== *)
theory Group_Tests
  imports Group
begin

text \<open>
  Unit tests of \<open>core/protocol/src/group.rs\<close>, translated: what is drawn from the OS generator is an
  argument, \<open>w\<close> is the width of \<open>usize\<close>. The lemmas say when they pass: the tests on nonces and
  rotated keys exactly when the derived, respectively drawn, values differ, the test on a captured
  chain key exactly when AES-GCM refuses the key derived from it. The tests that read secrets off the wire
  are not translated.
\<close>

section \<open>Tests\<close>

text \<open>The group most tests build: the sender's, with one member.\<close>

definition test_group :: "prims \<Rightarrow> IdentityKeyPair \<Rightarrow> IdentityKeyPair \<Rightarrow> GroupSession run" where
  "test_group P sender member =
     run_bind (GroupSession_new P (IdentityKeyPair_public P sender)) (\<lambda>group.
     Return (GroupSession_add_member (GroupMember_new (IdentityKeyPair_public P member)) group))"

definition encrypted :: "(io_error + bytes) run \<times> GroupSession \<Rightarrow> (bytes \<times> GroupSession) run" where
  "encrypted r = run_bind (fst r) (\<lambda>result. run_bind (unwrap result) (\<lambda>ct. Return (ct, snd r)))"

definition decrypts_to :: "(io_error + bytes) run \<Rightarrow> bytes \<Rightarrow> unit run" where
  "decrypts_to r m = run_bind r (\<lambda>result. run_bind (unwrap result) (\<lambda>plain. assert (plain = m)))"

definition successive_messages_never_reuse_a_key_or_nonce ::
  "prims \<Rightarrow> nat \<Rightarrow> (nat \<Rightarrow> seal_rand) \<Rightarrow> (nat \<Rightarrow> seal_rand) \<Rightarrow> bytes \<Rightarrow> bytes \<Rightarrow> unit run" where
  "successive_messages_never_reuse_a_key_or_nonce P w rnd rnd' sender_secret member_secret =
     (let sender = IdentityKeyPair_generate P sender_secret;
          member = IdentityKeyPair_generate P member_secret
      in run_bind (test_group P sender member) (\<lambda>group.
         run_bind (encrypted (GroupSession_encrypt_as P rnd (str_bytes ''message one'') group)) (\<lambda>(ct1, group).
         run_bind (encrypted (GroupSession_encrypt_as P rnd' (str_bytes ''message two'') group)) (\<lambda>(ct2, group).
         run_bind (slice_range ct1 0 12) (\<lambda>nonce1.
         run_bind (slice_range ct2 0 12) (\<lambda>nonce2.
         run_bind (assert (nonce1 \<noteq> nonce2)) (\<lambda>_.
         run_bind (decrypts_to (GroupSession_decrypt_as P w (KeyPairCaller member) ct1) (str_bytes ''message one'')) (\<lambda>_.
         decrypts_to (GroupSession_decrypt_as P w (KeyPairCaller member) ct2) (str_bytes ''message two'')))))))))"

definition more_than_255_members_is_rejected ::
  "prims \<Rightarrow> (nat \<Rightarrow> seal_rand) \<Rightarrow> bytes \<Rightarrow> (nat \<Rightarrow> bytes) \<Rightarrow> unit run" where
  "more_than_255_members_is_rejected P rnd sender_secret secrets =
     (let sender = IdentityKeyPair_generate P sender_secret
      in run_bind (GroupSession_new P (IdentityKeyPair_public P sender)) (\<lambda>group.
         let group = fold (\<lambda>i group. GroupSession_add_member
               (GroupMember_new (IdentityKeyPair_public P (IdentityKeyPair_generate P (secrets i)))) group)
             [0..<MAX_MEMBERS + 1] group
         in run_bind (assert (length (gs_members group) = MAX_MEMBERS + 1)) (\<lambda>_.
            run_bind (fst (GroupSession_encrypt_as P rnd (str_bytes ''too many members'') group)) (\<lambda>result.
            assert (isl result)))))"

definition rotation_produces_an_unrelated_chain_key :: "prims \<Rightarrow> bytes \<Rightarrow> bytes \<Rightarrow> unit run" where
  "rotation_produces_an_unrelated_chain_key P sender_secret fresh =
     (let sender = IdentityKeyPair_generate P sender_secret
      in run_bind (GroupSession_new P (IdentityKeyPair_public P sender)) (\<lambda>group.
         let pre_rotation_key = gs_chain_key group;
             group = GroupSession_rotate_sender_key fresh group;
             post_rotation_key = gs_chain_key group
         in run_bind (assert (pre_rotation_key \<noteq> post_rotation_key)) (\<lambda>_.
            run_bind (expand P pre_rotation_key ''chain-ratchet'' 32) (\<lambda>would_be_ratcheted.
            assert (post_rotation_key \<noteq> would_be_ratcheted)))))"

definition remove_member_alone_now_protects_future_messages ::
  "prims \<Rightarrow> nat \<Rightarrow> (nat \<Rightarrow> seal_rand) \<Rightarrow> bytes \<Rightarrow> bytes \<Rightarrow> bytes \<Rightarrow> unit run" where
  "remove_member_alone_now_protects_future_messages P w rnd fresh sender_secret eve_secret =
     (let sender = IdentityKeyPair_generate P sender_secret;
          eve = IdentityKeyPair_generate P eve_secret
      in run_bind (test_group P sender eve) (\<lambda>group.
         let eve_captured_key = GroupSession_sender_key_copy_for group;
             group = GroupSession_remove_member fresh (GroupMember_new (IdentityKeyPair_public P eve)) group
         in run_bind (encrypted (GroupSession_encrypt_as P rnd (str_bytes ''removed and already protected'') group))
              (\<lambda>(ciphertext, group).
            run_bind (GroupSession_decrypt_as P w (KeyPairCaller eve) ciphertext) (\<lambda>result.
            run_bind (assert (isl result)) (\<lambda>_.
            run_bind (GroupSession_try_decrypt_with_sender_key P w eve_captured_key ciphertext) (\<lambda>result.
            assert (isl result)))))))"

section \<open>When they pass\<close>

lemma new_group:
  assumes "crypto_ok P"
  obtains k where "expand P pub ''chain'' 32 = Return k" "GroupSession_new P pub = Return \<lparr>gs_members = [], gs_chain_key = k\<rparr>"
proof -
  obtain k where "expand P pub ''chain'' 32 = Return k" by (rule expand_ok [OF assms, of 32 pub "''chain''"]) simp
  then show thesis by (intro that [of k]) (simp_all add: GroupSession_new_def PublicIdentityKey_to_bytes_def)
qed

lemma encrypted_simp [simp]: "encrypted (Return (Inr ct), g) = Return (ct, g)"
  by (simp add: encrypted_def)

text \<open>One message to honest members: the frame starts with the derived nonce and reaches them.\<close>

lemma sent_message:
  assumes "crypto_ok P" "honest P ks" "\<forall>i. seal_rand_ok (rnd i)" "length ks \<le> 255"
    and "gs_members g = map (IdentityKeyPair_public P) ks"
    and "length m + 16 < 2 ^ 32" "33 + length m + 127 * length ks < 2 ^ w"
  obtains nonce nk p ws where "expand P (gs_chain_key g) ''nonce'' 12 = Return nonce" "length nonce = 12"
    "expand P (gs_chain_key g) ''chain-ratchet'' 32 = Return nk" "length p < 2 ^ 32"
    "length (group_frame nonce p ws) < 2 ^ w"
    "GroupSession_encrypt_as P rnd m g = (Return (Inr (group_frame nonce p ws)), g\<lparr>gs_chain_key := nk\<rparr>)"
    "\<forall>k. ikp_ok P k \<longrightarrow> GroupSession_decrypt_as P w (KeyPairCaller k) (group_frame nonce p ws) =
       Return (if IdentityKeyPair_public P k \<in> set (gs_members g) then Inr m
               else Inl (PermissionDenied, ''caller not a member''))"
proof -
  obtain nonce nk p ws where e: "length nonce = 12" "expand P (gs_chain_key g) ''nonce'' 12 = Return nonce"
    "expand P (gs_chain_key g) ''chain-ratchet'' 32 = Return nk" "length p = length m + 16"
    "map fst ws = map (IdentityKeyPair_public P) ks"
    "\<forall>w \<in> set ws. length (fst w) = 33 \<and> length (snd w) = 92"
    "GroupSession_encrypt_as P rnd m g = (Return (Inr (group_frame nonce p ws)), g\<lparr>gs_chain_key := nk\<rparr>)"
    by (rule encrypt_as_honest [OF assms(1-5), of m]) blast
  have "length ws = length ks" using arg_cong [OF e(5), of length] by simp
  then have fit: "length (group_frame nonce p ws) < 2 ^ w" using encrypted_frame(1) [OF e(6,1,4), of w] assms(7) by simp
  have "length p < 2 ^ 32" using e(4) assms(6) by simp
  then show thesis
    using roster_delivery [OF assms] by (intro that [OF e(2,1,3) _ fit e(7)]) (auto simp: e(7))
qed

lemma slice_nonce: "length nonce = 12 \<Longrightarrow> slice_range (group_frame nonce p ws) 0 12 = Return nonce"
  by (simp add: group_frame_def slice_range_def)

lemma nonce_test_passes_iff:
  assumes "crypto_ok P" "\<forall>i. seal_rand_ok (rnd i)" "\<forall>i. seal_rand_ok (rnd' i)" "8 \<le> w"
    and "expand P (IdentityKeyPair_public P (IdentityKeyPair_generate P s)) ''chain'' 32 = Return k"
    and "expand P k ''chain-ratchet'' 32 = Return k'"
  shows "successive_messages_never_reuse_a_key_or_nonce P w rnd rnd' s m = Return () \<longleftrightarrow>
    expand P k ''nonce'' 12 \<noteq> expand P k' ''nonce'' 12"
proof -
  let ?m = "IdentityKeyPair_generate P m"
  let ?g = "\<lparr>gs_members = [IdentityKeyPair_public P ?m], gs_chain_key = k\<rparr>"
  have h: "honest P [?m]" by (simp add: honest_def)
  have "(2 :: nat) ^ 8 \<le> 2 ^ w" using assms(4) by (rule power_increasing) simp
  then have fit: "(171 :: nat) < 2 ^ w" by simp
  have g: "test_group P (IdentityKeyPair_generate P s) ?m = Return ?g"
    using assms(5) by (simp add: test_group_def GroupSession_new_def PublicIdentityKey_to_bytes_def
        GroupSession_add_member_def GroupMember_new_def)
  obtain n p ws where a: "expand P k ''nonce'' 12 = Return n" "length n = 12"
    "GroupSession_encrypt_as P rnd (str_bytes ''message one'') ?g = (Return (Inr (group_frame n p ws)), ?g\<lparr>gs_chain_key := k'\<rparr>)"
    "GroupSession_decrypt_as P w (KeyPairCaller ?m) (group_frame n p ws) = Return (Inr (str_bytes ''message one''))"
    by (rule sent_message [OF assms(1) h assms(2), of ?g "str_bytes ''message one''" w])
      (use assms(6) fit in \<open>auto simp: str_bytes_def\<close>)
  obtain n' p' ws' nk where b: "expand P k' ''nonce'' 12 = Return n'" "length n' = 12"
    "GroupSession_encrypt_as P rnd' (str_bytes ''message two'') (?g\<lparr>gs_chain_key := k'\<rparr>) =
      (Return (Inr (group_frame n' p' ws')), ?g\<lparr>gs_chain_key := nk\<rparr>)"
    "GroupSession_decrypt_as P w (KeyPairCaller ?m) (group_frame n' p' ws') = Return (Inr (str_bytes ''message two''))"
    by (rule sent_message [OF assms(1) h assms(3), of "?g\<lparr>gs_chain_key := k'\<rparr>" "str_bytes ''message two''" w])
      (use fit in \<open>auto simp: str_bytes_def\<close>)
  show ?thesis
    using a(4) b(4)
    by (auto simp: successive_messages_never_reuse_a_key_or_nonce_def Let_def g a(1,3) b(1) b(3) [simplified] slice_nonce [OF a(2)]
        slice_nonce [OF b(2)] decrypts_to_def assert_def)
qed

lemma members_limit_test_passes:
  assumes "crypto_ok P"
  shows "more_than_255_members_is_rejected P rnd s secrets = Return ()"
proof -
  have add: "gs_members (fold (\<lambda>i g. GroupSession_add_member (f i) g) is g) = gs_members g @ map f is" for f g and "is" :: "nat list"
    by (induction "is" arbitrary: g) (simp_all add: GroupSession_add_member_def)
  obtain k where "GroupSession_new P (IdentityKeyPair_public P (IdentityKeyPair_generate P s)) =
      Return \<lparr>gs_members = [], gs_chain_key = k\<rparr>"
    by (rule new_group [OF assms])
  then show ?thesis
    by (simp add: more_than_255_members_is_rejected_def Let_def add GroupSession_encrypt_as_def del: upt_Suc)
qed

lemma rotation_test_passes_iff:
  assumes "crypto_ok P" "expand P (IdentityKeyPair_public P (IdentityKeyPair_generate P s)) ''chain'' 32 = Return k"
  shows "rotation_produces_an_unrelated_chain_key P s fresh = Return () \<longleftrightarrow>
    fresh \<noteq> k \<and> expand P k ''chain-ratchet'' 32 \<noteq> Return fresh"
proof -
  obtain k' where "expand P k ''chain-ratchet'' 32 = Return k'" by (rule expand_ok [OF assms(1), of 32 k "''chain-ratchet''"]) simp
  then show ?thesis
    using assms(2)
    by (auto simp: rotation_produces_an_unrelated_chain_key_def GroupSession_new_def PublicIdentityKey_to_bytes_def
        GroupSession_rotate_sender_key_def assert_def)
qed

lemma removal_test_passes_iff:
  assumes "crypto_ok P" "\<forall>i. seal_rand_ok (rnd i)" "8 \<le> w"
    and "expand P (IdentityKeyPair_public P (IdentityKeyPair_generate P s)) ''chain'' 32 = Return k"
    and "expand P k ''msg'' 32 = Return captured"
  obtains n p where "expand P fresh ''nonce'' 12 = Return n"
    "remove_member_alone_now_protects_future_messages P w rnd fresh s e = Return () \<longleftrightarrow> aes_dec P captured n p = None"
proof -
  let ?e = "IdentityKeyPair_generate P e" and ?m = "str_bytes ''removed and already protected''"
  let ?g = "\<lparr>gs_members = [], gs_chain_key = fresh\<rparr>"
  have "length captured = 32" by (rule expand_ok [OF assms(1), of 32 k "''msg''"]) (use assms(5) in simp_all)
  moreover have "(2 :: nat) ^ 8 \<le> 2 ^ w" using assms(3) by (rule power_increasing) simp
  moreover have h: "honest P []" by (simp add: honest_def)
  moreover obtain n p ws nk where a: "expand P fresh ''nonce'' 12 = Return n" "length n = 12" "length p < 2 ^ 32"
    "length (group_frame n p ws) < 2 ^ w"
    "GroupSession_encrypt_as P rnd ?m ?g = (Return (Inr (group_frame n p ws)), ?g\<lparr>gs_chain_key := nk\<rparr>)"
    "GroupSession_decrypt_as P w (KeyPairCaller ?e) (group_frame n p ws) = Return (Inl (PermissionDenied, ''caller not a member''))"
    by (rule sent_message [OF assms(1) h assms(2), of ?g ?m w]) (use calculation in \<open>auto simp: str_bytes_def\<close>)
  moreover have "test_group P (IdentityKeyPair_generate P s) ?e = Return \<lparr>gs_members = [IdentityKeyPair_public P ?e], gs_chain_key = k\<rparr>"
    using assms(4) by (simp add: test_group_def GroupSession_new_def PublicIdentityKey_to_bytes_def
        GroupSession_add_member_def GroupMember_new_def)
  ultimately show thesis
    using try_decrypt_frame [OF a(2,3,4) assms(5)]
    by (intro that [OF a(1), of p])
      (auto simp: remove_member_alone_now_protects_future_messages_def Let_def GroupSession_remove_member_def
        GroupSession_rotate_sender_key_def GroupMember_new_def GroupSession_sender_key_copy_for_def
        open_payload_def ok_or_def split: option.splits)
qed

end
