(* ===== verification/Session_Tests.thy ===== *)
theory Session_Tests
  imports Desktop Storage
begin

text \<open>
  Unit tests of the session modules (\<open>core/crypto/src/double_ratchet.rs\<close>, \<open>ratchet_session.rs\<close>,
  \<open>session.rs\<close>), of \<open>core/storage/src/backup.rs\<close> and of the desktop commands (\<open>commands.rs\<close>), translated,
  with the lemmas that say when they pass. The tests of \<open>core/storage/src/lib.rs\<close> that open database
  files are SQLite's behaviour and are not translated.
\<close>

section \<open>The typed adapter\<close>

definition round_trip_a_ciphertext_typed_serialized_ciphertext :: "unit run" where
  "round_trip_a_ciphertext_typed_serialized_ciphertext =
     (let bs = [0x42, 0x00, 0x01, 0x02]; sc = SerializedCiphertext_new Ciphertext bs
      in asserts [SerializedCiphertext_message_type sc = Ciphertext, SerializedCiphertext_as_bytes sc = bs])"

definition round_trip_a_prekey_typed_serialized_ciphertext :: "unit run" where
  "round_trip_a_prekey_typed_serialized_ciphertext =
     (let bs = [0x43, 0x00, 0x01, 0x02]; sc = SerializedCiphertext_new PreKey bs
      in asserts [SerializedCiphertext_message_type sc = PreKey, SerializedCiphertext_into_bytes sc = bs])"

definition parsing_a_serialized_ciphertext_dispatches_by_message_type ::
  "('spk, 'otk, 'kpk, 'st) ratchet_lib \<Rightarrow> unit run" where
  "parsing_a_serialized_ciphertext_dispatches_by_message_type R =
     (let bogus = SerializedCiphertext_new Ciphertext [0x43, 0x00]
      in run_bind (unwrap_err (parse_ciphertext R bogus)) (\<lambda>err. assert (err = MalformedCiphertext)))"

definition session_not_found_is_classified_as_no_session :: "('spk, 'otk, 'kpk, 'st) ratchet_lib \<Rightarrow> unit run" where
  "session_not_found_is_classified_as_no_session R = assert (from_protocol R SessionNotFound = NoSession)"

definition untrusted_identity_is_classified_as_untrusted_identity ::
  "('spk, 'otk, 'kpk, 'st) ratchet_lib \<Rightarrow> unit run" where
  "untrusted_identity_is_classified_as_untrusted_identity R =
     asserts [from_protocol R UntrustedSignalIdentity = UntrustedIdentity, is_untrusted_identity UntrustedSignalIdentity]"

definition invalid_message_is_classified_as_authentication_failed ::
  "('spk, 'otk, 'kpk, 'st) ratchet_lib \<Rightarrow> unit run" where
  "invalid_message_is_classified_as_authentication_failed R =
     assert (from_protocol R InvalidMessage = AuthenticationFailed)"

definition ciphertext_too_short_is_classified_as_malformed_ciphertext ::
  "('spk, 'otk, 'kpk, 'st) ratchet_lib \<Rightarrow> unit run" where
  "ciphertext_too_short_is_classified_as_malformed_ciphertext R =
     assert (from_protocol R CiphertextMessageTooShort = MalformedCiphertext)"

definition str_contains :: "string \<Rightarrow> string \<Rightarrow> bool" where
  "str_contains s t = list_ex (\<lambda>i. take (length t) (drop i s) = t) [0..<length s + 1]"

definition unknown_error_is_classified_as_protocol_error_carrying_the_message ::
  "('spk, 'otk, 'kpk, 'st) ratchet_lib \<Rightarrow> unit run" where
  "unknown_error_is_classified_as_protocol_error_carrying_the_message R =
     (case from_protocol R (InvalidArgument ''nope'') of
        ProtocolError msg \<Rightarrow> assert (str_contains msg ''nope'')
      | _ \<Rightarrow> Panic)"

lemma adapter_tests_pass:
  "round_trip_a_ciphertext_typed_serialized_ciphertext = Return ()"
  "round_trip_a_prekey_typed_serialized_ciphertext = Return ()"
  "session_not_found_is_classified_as_no_session R = Return ()"
  "untrusted_identity_is_classified_as_untrusted_identity R = Return ()"
  "invalid_message_is_classified_as_authentication_failed R = Return ()"
  "ciphertext_too_short_is_classified_as_malformed_ciphertext R = Return ()"
  by (simp_all add: round_trip_a_ciphertext_typed_serialized_ciphertext_def SerializedCiphertext_new_def
      round_trip_a_prekey_typed_serialized_ciphertext_def SerializedCiphertext_message_type_def
      SerializedCiphertext_as_bytes_def SerializedCiphertext_into_bytes_def
      session_not_found_is_classified_as_no_session_def untrusted_identity_is_classified_as_untrusted_identity_def
      invalid_message_is_classified_as_authentication_failed_def is_untrusted_identity_def
      ciphertext_too_short_is_classified_as_malformed_ciphertext_def from_protocol_def)

lemma str_contains_append: "str_contains (xs @ t @ ys) t"
proof -
  have "length xs < Suc (length (xs @ t @ ys)) \<and> take (length t) (drop (length xs) (xs @ t @ ys)) = t" by simp
  then show ?thesis unfolding str_contains_def list_ex_iff by (metis Suc_eq_plus1 atLeastLessThan_upt atLeast0LessThan lessThan_iff)
qed

text \<open>
  Two tests rest on libsignal: that it refuses the two bytes as a protobuf message, and that it names
  the argument in the text of the error.
\<close>

lemma adapter_library_tests_pass:
  "signal_message_parse R [0x43, 0x00] = Inl InvalidProtobufEncoding \<Longrightarrow>
     parsing_a_serialized_ciphertext_dispatches_by_message_type R = Return ()"
  "signal_display R (InvalidArgument ''nope'') = pre @ ''nope'' @ post \<Longrightarrow>
     unknown_error_is_classified_as_protocol_error_carrying_the_message R = Return ()"
  using str_contains_append [of pre "''nope''" post]
  by (simp_all add: parsing_a_serialized_ciphertext_dispatches_by_message_type_def parse_ciphertext_def
      SerializedCiphertext_new_def from_protocol_def and_then_def map_err_def
      unknown_error_is_classified_as_protocol_error_carrying_the_message_def)

section \<open>The session facade\<close>

definition identity_hash_is_stable_and_32_bytes ::
  "('spk, 'otk) signal_lib \<Rightarrow> ('spk, 'otk, 'kpk, 'st) ratchet_lib \<Rightarrow> bytes \<Rightarrow> unit run" where
  "identity_hash_is_stable_and_32_bytes S R ident =
     (let h = identity_hash S R ident
      in asserts [length h = 32, hash_of_identity_key R (public_identity S ident) = h])"

definition identity_hash_differs_for_different_identity_keys ::
  "('spk, 'otk) signal_lib \<Rightarrow> ('spk, 'otk, 'kpk, 'st) ratchet_lib \<Rightarrow> bytes \<Rightarrow> bytes \<Rightarrow> unit run" where
  "identity_hash_differs_for_different_identity_keys S R a b = assert (identity_hash S R a \<noteq> identity_hash S R b)"

definition message_type_tag_round_trips :: "unit run" where
  "message_type_tag_round_trips =
     asserts [message_type_from_tag (type_tag PreKey) = Some PreKey,
       message_type_from_tag (type_tag Ciphertext) = Some Ciphertext,
       message_type_from_tag 0 = None, message_type_from_tag 9 = None]"

lemma facade_tests_pass:
  "library_ok L S A R \<Longrightarrow> identity_hash_is_stable_and_32_bytes S R ident = Return ()"
  "identity_hash_differs_for_different_identity_keys S R a b = Return () \<longleftrightarrow>
     sha256_of R (public_identity S a) \<noteq> sha256_of R (public_identity S b)"
  "message_type_tag_round_trips = Return ()"
  by (simp_all add: identity_hash_is_stable_and_32_bytes_def identity_hash_differs_for_different_identity_keys_def
      message_type_tag_round_trips_def identity_hash_def hash_of_identity_key_def library_ok_def
      message_type_from_tag_def type_tag_def TYPE_TAG_PREKEY_def TYPE_TAG_CIPHERTEXT_def)

section \<open>Establishment\<close>

definition malformed_signed_prekey_surfaces_as_an_error_not_a_panic ::
  "session_lib \<Rightarrow> ('spk, 'otk) signal_lib \<Rightarrow> ('spk, 'otk, 'kpk) record_lib \<Rightarrow> ('spk, 'otk, 'kpk, 'st) ratchet_lib \<Rightarrow>
   bob_rand \<Rightarrow> u64 \<Rightarrow> bytes \<Rightarrow> bytes \<Rightarrow> bytes \<Rightarrow> unit run" where
  "malformed_signed_prekey_surfaces_as_an_error_not_a_panic L S A R w now rnd bob_identity alice_identity =
     run_bind (establish_with_malformed_prekey L S A R w now rnd bob_identity alice_identity) (\<lambda>result.
     assert (case result of Inl (Establishment _) \<Rightarrow> True | _ \<Rightarrow> False))"

definition bundle_from_bytes_rejects_u32_max_length_prefix :: "session_lib \<Rightarrow> unit run" where
  "bundle_from_bytes_rejects_u32_max_length_prefix L =
     (let bs = replicate 8 0 @ [0xFF, 0xFF, 0xFF, 0xFF] @ replicate 8 0
      in run_bind (bundle_from_bytes L bs) (\<lambda>result. assert (isl result)))"

lemma length_prefix_test_passes: "bundle_from_bytes_rejects_u32_max_length_prefix L = Return ()"
proof -
  have eight: "replicate 8 (0 :: u8) = [0, 0, 0, 0, 0, 0, 0, 0]" by (simp add: numeral_eq_Suc)
  let ?bs = "replicate 8 0 @ [0xFF, 0xFF, 0xFF, 0xFF] @ replicate 8 0 :: bytes"
  have r: "read_u32 (?bs, 0) = Return (Inr (0, (?bs, 4)))" "read_u32 (?bs, 4) = Return (Inr (0, (?bs, 8)))"
    "read_u32 (?bs, 8) = Return (Inr (0xFFFFFFFF, (?bs, 12)))"
    by (simp_all add: read_u32_def index_at_def be_nat_def eight)
  then have "read_u32_prefixed (?bs, 8) =
      Return (Inl (InvalidArgument ''truncated: declared segment longer than remaining bytes''))"
    by (simp add: read_u32_prefixed_def Let_def)
  then have "\<exists>e. bundle_from_bytes L ?bs = Return (Inl e)" using r(1,2) by (simp add: bundle_from_bytes_def)
  then show ?thesis unfolding bundle_from_bytes_rejects_u32_max_length_prefix_def Let_def by auto
qed

section \<open>Backups\<close>

definition aad_changes_when_header_changes :: "backup_lib \<Rightarrow> unit run" where
  "aad_changes_when_header_changes B =
     (let salt = replicate SALT_LEN 0xAA; nonce = replicate BK_NONCE_LEN 0xBB;
          a = build_aad B salt nonce;
          salt2 = salt[0 := xor (salt ! 0) 1];
          b = build_aad B salt2 nonce
      in assert (a \<noteq> b))"

definition serialize_then_deserialize_roundtrips :: "nat \<Rightarrow> unit run" where
  "serialize_then_deserialize_roundtrips w =
     (let records = [str_bytes ''a'', str_bytes ''bb'', replicate 64 0]; buf = serialize_records records
      in run_bind (deserialize_records w buf) (\<lambda>result.
         run_bind (unwrap result) (\<lambda>out. assert (out = records))))"

definition deserialize_rejects_truncated_input :: "nat \<Rightarrow> unit run" where
  "deserialize_rejects_truncated_input w =
     (let records = [str_bytes ''hello'']; buf = serialize_records records
      in run_bind (slice_range buf 0 (length buf - 1)) (\<lambda>truncated.
         run_bind (deserialize_records w truncated) (\<lambda>result.
         assert (case result of Inl Tampered \<Rightarrow> True | _ \<Rightarrow> False))))"

lemma backup_tests_pass:
  assumes "w = 32 \<or> w = 64"
  shows "serialize_then_deserialize_roundtrips w = Return ()"
    and "deserialize_rejects_truncated_input w = Return ()"
proof -
  have "records_fit w [str_bytes ''a'', str_bytes ''bb'', replicate 64 0]"
    using assms by (auto simp: records_fit_def serialize_records_def capacity_ok_def str_bytes_def)
  then show "serialize_then_deserialize_roundtrips w = Return ()"
    by (simp add: serialize_then_deserialize_roundtrips_def deserialize_written)
  have b: "be_bytes 4 5 = [0, 0, 0, 5]" "be_bytes 4 1 = [0, 0, 0, 1]" "be_nat [0, 0, 0, 5] = 5" "be_nat [0, 0, 0, 1] = 1"
    by (code_simp, code_simp, simp_all add: be_nat_def)
  show "deserialize_rejects_truncated_input w = Return ()"
    using assms
    by (auto simp: deserialize_rejects_truncated_input_def deserialize_records_def serialize_records_def str_bytes_def
        slice_range_def b capacity_ok_def us_add_def)
qed

text \<open>The associated data is a hash: it changes with the salt when the hash does.\<close>

lemma aad_test_passes_iff:
  "aad_changes_when_header_changes B = Return () \<longleftrightarrow>
      bk_sha256 B (MAGIC @ [VERSION] @ replicate 16 0xAA @ replicate 12 0xBB) \<noteq>
      bk_sha256 B (MAGIC @ [VERSION] @ [0xAB] @ replicate 15 0xAA @ replicate 12 0xBB)"
  by (simp add: aad_changes_when_header_changes_def build_aad_def SALT_LEN_def BK_NONCE_LEN_def numeral_eq_Suc Let_def)

section \<open>Desktop commands\<close>

definition generate_identity_returns_non_empty_public_key :: "prims \<Rightarrow> bytes \<Rightarrow> unit run" where
  "generate_identity_returns_non_empty_public_key P secret =
     run_bind (unwrap (shell_generate_identity P secret)) (\<lambda>public_key_bytes. assert (public_key_bytes \<noteq> []))"

definition establish_malformed_session_surfaces_err_not_panic ::
  "session_lib \<Rightarrow> ('spk, 'otk) signal_lib \<Rightarrow> ('spk, 'otk, 'kpk) record_lib \<Rightarrow> ('spk, 'otk, 'kpk, 'st) ratchet_lib \<Rightarrow>
   bob_rand \<Rightarrow> u64 \<Rightarrow> bytes \<Rightarrow> bytes \<Rightarrow> bytes \<Rightarrow> unit run" where
  "establish_malformed_session_surfaces_err_not_panic L S A R w now rnd bob_identity alice_identity =
     run_bind (establish_malformed_session L S A R w now rnd bob_identity alice_identity) (\<lambda>result.
     assert (case result of Inl (Session _) \<Rightarrow> True | _ \<Rightarrow> False))"

definition error_serializes_to_the_shape_main_js_expects ::
  "session_lib \<Rightarrow> ('spk, 'otk) signal_lib \<Rightarrow> ('spk, 'otk, 'kpk) record_lib \<Rightarrow> ('spk, 'otk, 'kpk, 'st) ratchet_lib \<Rightarrow>
   bob_rand \<Rightarrow> u64 \<Rightarrow> bytes \<Rightarrow> bytes \<Rightarrow> bytes \<Rightarrow> unit run" where
  "error_serializes_to_the_shape_main_js_expects L S A R w now rnd bob_identity alice_identity =
     run_bind (establish_malformed_session L S A R w now rnd bob_identity alice_identity) (\<lambda>result.
     run_bind (unwrap_err result) (\<lambda>err.
     let json = ShellError_json err
     in asserts [map_of json ''kind'' = Some ''Session'',
          case map_of json ''message'' of Some message \<Rightarrow> message \<noteq> [] | None \<Rightarrow> False]))"

text \<open>
  The tests of the deliberately malformed bundle pass in the core and in the shell when libsignal refuses
  the overwritten signature.
\<close>

lemma malformed_prekey_tests_pass:
  assumes "library_ok L S A R"
    and "\<And>ra la b now rnd st. sb_signed_pre_key_signature b = replicate 64 0 \<Longrightarrow>
      fst (process_prekey_bundle R ra la b now rnd st) = Inl SignatureValidationFailed"
  shows "malformed_signed_prekey_surfaces_as_an_error_not_a_panic L S A R w now rnd bob alice = Return ()"
    and "establish_malformed_session_surfaces_err_not_panic L S A R w now rnd bob alice = Return ()"
    and "error_serializes_to_the_shape_main_js_expects L S A R w now rnd bob alice = Return ()"
proof -
  obtain e where e: "establish_with_malformed_prekey L S A R w now rnd bob alice = Return (Inl e)"
    "is_prekey_signature_invalid e"
    using malformed_prekey_is_reported [OF assms] by blast
  obtain e' where e': "e = Establishment e'"
    using e(2) by (cases e) (auto simp: is_prekey_signature_invalid_def)
  show "malformed_signed_prekey_surfaces_as_an_error_not_a_panic L S A R w now rnd bob alice = Return ()"
    "establish_malformed_session_surfaces_err_not_panic L S A R w now rnd bob alice = Return ()"
    "error_serializes_to_the_shape_main_js_expects L S A R w now rnd bob alice = Return ()"
    by (simp_all add: malformed_signed_prekey_surfaces_as_an_error_not_a_panic_def ShellError_from_def ShellError_json_def
        establish_malformed_session_surfaces_err_not_panic_def error_serializes_to_the_shape_main_js_expects_def
        establish_malformed_session_def run_map_err_simps SessionError_display_def e(1) e')
qed

lemma identity_command_test_passes:
  assumes "crypto_ok P"
  shows "generate_identity_returns_non_empty_public_key P secret = Return ()"
proof -
  have "length (IdentityKeyPair_public P (IdentityKeyPair_generate P secret)) = 33" by (rule public_length [OF assms]) simp
  then show ?thesis
    by (auto simp: generate_identity_returns_non_empty_public_key_def shell_generate_identity_def
        PublicIdentityKey_to_bytes_def Let_def)
qed

section \<open>The store\<close>

definition store_key_debug_output_is_redacted :: "unit run" where
  "store_key_debug_output_is_redacted =
     (let k = StoreKey_new (replicate 32 0xAB) in assert (StoreKey_debug k = ''StoreKey(REDACTED)''))"

lemma redaction_test_passes: "store_key_debug_output_is_redacted = Return ()"
  by (simp add: store_key_debug_output_is_redacted_def StoreKey_debug_def)

end
