(* ===== verification/Spec2Isabelle.thy ===== *)
theory Spec2Isabelle
  imports Ws_Client Ws_Delivery Relay_Node Session_Roles Sealed_Sender Dht Fanout Storage Desktop Transport Audit_Tracker
    Relay_Tests Identity_Tests Dht_Tests Fanout_Tests Group_Tests Session_Tests
begin

text \<open>
  Verification of the end-to-end encrypted messaging code base.

  \<^bold>\<open>The system.\<close> Clients hold identity keys, 1:1 sessions (PQXDH and the Double Ratchet of
  libsignal), per-device fan-outs and sender-key groups. They publish prekey bundles and exchange
  sealed envelopes through a relay that never sees plaintext: the relay keeps envelopes and bundles
  for a limited time behind a rate limiter and a proof of work, and is reached over a WebSocket
  carrying JSON. Bundles may also be published in a Kademlia DHT. Local state is kept in an
  encrypted database and exported as passphrase-encrypted backups. Facades expose the core to
  browsers (wasm), to Swift and Kotlin (uniffi) and to a desktop shell.

  \<^bold>\<open>Theories and sources.\<close> Every theory opens with what it models.
    \<^item> \<open>Prelude\<close>: bytes, machine widths, results (\<open>'e + 'a\<close>), panics (\<open>'a run\<close>), slices and indices
      that panic out of range, big- and little-endian integers, hex, hash maps as association lists
      (locale \<open>map_impl\<close>).
    \<^item> \<open>Relay_Store\<close>, \<open>Rate_Limiter\<close>, \<open>Pow\<close>: \<open>relay/src/store.rs\<close>, \<open>ratelimit/mod.rs\<close>, \<open>pow/mod.rs\<close>,
      with the locales \<open>mailbox\<close> (the store refines an abstract mailbox), \<open>gate\<close> and \<open>counter_search\<close>.
    \<^item> \<open>Base64\<close>, \<open>Ws_Bridge\<close>, \<open>Ws_Client\<close>: \<open>relay/src/ws.rs\<close>: the codec, the request handler with its
      shared state and the interleaving of requests (\<open>pool_step\<close>), the client and its solver.
    \<^item> \<open>Ws_Listener\<close>: the accept loop of \<open>ws.rs\<close> and the connections it spawns as state machines over one
      shared state; the locale \<open>follows\<close> (a simulation with stuttering) carries the results on the pool of
      requests over to it.
    \<^item> \<open>Ws_Delivery\<close>: what all connections together store and deliver. The locale \<open>ledger\<close> (what is spent
      was earned, over any interleaving) has three instances: challenges, envelopes and bundles.
    \<^item> \<open>Relay_Node\<close>: \<open>relay/src/main.rs\<close>, \<open>lib.rs\<close>, the entry points of \<open>ws.rs\<close> and \<open>bin/ws_test_harness.rs\<close>: flags,
      startup, log filter, event loop, as a list of effects.
    \<^item> \<open>Crypto_Prims\<close>, \<open>Identity\<close>, \<open>Sealed_Sender\<close>: the third-party primitives as a parameter with their
      documented laws; \<open>core/crypto/src/identity.rs\<close> and \<open>core/transport/src/sealed_sender.rs\<close>, both
      instances of the locale \<open>sealed_box\<close>.
    \<^item> \<open>Group\<close>: \<open>core/protocol/src/group.rs\<close>.
    \<^item> \<open>Framing\<close>, \<open>Prekey\<close>, \<open>Dht\<close>, \<open>Session_Bundle\<close>: length-prefixed fields (locale \<open>field_reader\<close>), and
      the bundle formats and prekey pools of \<open>core/crypto/src/prekey.rs\<close>, \<open>core/transport/src/dht.rs\<close>
      and \<open>core/crypto/src/session.rs\<close>.
    \<^item> \<open>Ratchet_Session\<close>: \<open>core/crypto/src/double_ratchet.rs\<close>, \<open>ratchet_session.rs\<close> and the establishment
      half of \<open>session.rs\<close>; the locale \<open>channel\<close> is the contract of a session.
    \<^item> \<open>Session_Roles\<close>: which sessions send and which receive, from construction through every use.
    \<^item> \<open>Fanout\<close>: \<open>core/protocol/src/fanout.rs\<close>, over ordered maps (a second instance of \<open>map_impl\<close>).
    \<^item> \<open>Backup\<close>, \<open>Storage\<close>: \<open>core/storage/src/backup.rs\<close> and \<open>lib.rs\<close>.
    \<^item> \<open>Device_Link\<close>: \<open>core/crypto/src/lib.rs\<close> and \<open>device_qr.rs\<close>.
    \<^item> \<open>Transport\<close>: \<open>core/transport/src/padding.rs\<close>, \<open>online.rs\<close>, \<open>privacy.rs\<close>, \<open>metadata.rs\<close>, \<open>lib.rs\<close>.
    \<^item> \<open>Wasm_Bindings\<close>: \<open>core/bindings/wasm/src/lib.rs\<close> and \<open>core/bindings/uniffi/src/lib.rs\<close>; its
      sessions are a second instance of \<open>channel\<close>.
    \<^item> \<open>Desktop\<close>: the Rust side of \<open>clients/desktop-tauri\<close>.
    \<^item> \<open>Audit_Tracker\<close>: the findings recorded in \<open>docs/audit\<close> and the release criteria on them.
    \<^item> \<open>Relay_Tests\<close>, \<open>Identity_Tests\<close>, \<open>Prekey_Tests\<close>, \<open>Dht_Tests\<close>, \<open>Fanout_Tests\<close>, \<open>Group_Tests\<close>,
      \<open>Session_Tests\<close>: the unit tests kept in the source files, run on the model over an arbitrary
      library. A test is a definition that returns when it passes and panics when an assertion fails; the
      lemmas show that it passes, or exactly when it does. They check the definitions above against what the authors expect of the code.
    \<^item> this theory: the composition of sessions, sealing and relay.

  \<^bold>\<open>How code is modelled.\<close> A struct is a record, an enum a datatype, a method \<open>T::f\<close> the definition
  \<open>T_f\<close>. Code that mutates its receiver returns the new value beside its result, errors included. A
  \<open>Result\<close> is a sum with the error on the left; an unwrap, an index or a slice that may panic yields
  \<open>Panic\<close>. Integers with a width that matters are words, and \<open>usize\<close> arithmetic in parsers takes the
  target's width as an argument, because the browser target has 32 bits. Time, randomness and log
  levels are arguments. Hash maps are association lists read through \<open>map_of\<close>.

  \<^bold>\<open>Parameters.\<close> libsignal, Curve25519, HKDF, the AEADs, Argon2, SHA-256, SQLCipher, serde's JSON
  text, libp2p and chrono are records of functions. Their laws (\<open>crypto_ok\<close>, \<open>signal_ok\<close>, \<open>library_ok\<close>,
  \<open>ratchet_ok\<close>, \<open>binding_ok\<close>, \<open>backup_ok\<close>, \<open>table_ok\<close>, \<open>sqlcipher_ok\<close>, \<open>kad_ok\<close>, \<open>link_ok\<close>, \<open>serde_ok\<close>) state documented
  behaviour, such as that decryption inverts encryption and accepts nothing else, that a database file is read only under
  its key, or that a Kademlia store keeps a record under its key; none states secrecy. \<open>transfer_ok\<close>, a part of
  \<open>ratchet_ok\<close>, is idealised in that it puts no limit on the age of a session whose messages were never
  acknowledged. Each law has a concrete instance (\<open>demo_...\<close>) on which the witnesses run.

  \<^bold>\<open>What is shown.\<close>
    \<^item> Relay: over all connections, an envelope or a bundle is delivered no more often than it was stored,
      and pickups answer as an abstract mailbox would; admissions per
      identity are bounded in every interval; the digest test is the numeric threshold and the
      solver terminates with the least accepted counter; under every interleaving a challenge pays for at
      most one write and nothing is stored unpaid; what a client sends is what it picks up. The accept
      loop with all its connections refines the interleaving of requests, its shared state is
      well-formed in every reachable state, a connection answers each frame at most once, in order, up to
      the frame that ends it and none after, and no bridge is bound unless its flag was given.
    \<^item> Formats: base64, the three bundle formats, the DHT record, the challenge, the envelope of a
      session, the backup and the QR payload are parsed back to what was written, and the parsers'
      behaviour on other inputs, panics included, is settled. A bundle published in the DHT is
      found by a lookup for its identity and for no other.
    \<^item> Sessions: messages arrive in order; a session is a sender or a receiver for life, as its
      constructor made it; trust on first use binds a key only to the address its
      hash names; decryption changes nothing before the sender is verified; fan-outs reach exactly
      the linked devices; groups reach exactly the roster and lock out removed members.
    \<^item> Keys at rest: a database opens under its own key and no other, again after any writes, with its
      rows and its version as they were; an identity is read back or refused; a backup is restored
      exactly or not at all; a prekey pool is refilled to its target and repeats no identifier.
    \<^item> Deviations, as theorems about the code: the initial group chain key is computable from the
      sender's public key, groups of one sender repeat key and nonce, 32-bit targets panic on a crafted
      group message, identifiers of one-time prekeys repeat at the end of their range, a lookup
      consumes the bundle, a handler panics after storing, a short challenge panics the client, a
      changed backup is reported as a wrong passphrase, the expected safety number is shared
      between contacts, the rendered history can be forged by a line break, and the audit tracker
      describes a truncation the code no longer has.

  \<^bold>\<open>Bounds and fuel.\<close> No definition uses fuel. The solver loops end by a measure on the counter: both
  give up at \<open>2^32\<close>, as the code does, though the server's counter has 64 bits. Parsers recurse on
  their input or on a count read from it, and every other function is structural. Theorems that
  speak of 64-bit offsets bound the input by \<open>2^63\<close> bytes, the maximal length of a Rust slice. The
  loops that never return (the accept loop, the swarm's event loop) are a step relation and a
  function of the events taken so far.

  \<^bold>\<open>Not modelled.\<close> What libp2p, tokio, clap, the log subscriber and the UI framework do inside the calls
  the code makes to them: the calls are parameters. Zeroing of secrets: not observable in a functional
  model. The unit tests of cryptographic strength (that a stranger, a flipped bit or bytes read off
  the wire decrypt nothing): no law of the primitives speaks of secrecy, so they cannot be shown to pass. The unit
  tests that open database files: they test SQLite. The clients in TypeScript, Swift and Kotlin: other
  languages. The protocol buffer definitions: the Rust code does not use them.
\<close>

section \<open>First contact over the relay\<close>

text \<open>
  The composition a message takes: the receiver publishes its bundle at the relay, the sender
  looks it up, establishes a session, encrypts, seals the session envelope to the receiver's
  identity and leaves it at the relay; the receiver picks it up, opens it and decrypts. The two
  parties' clients talk to one relay, whose state the client value carries from call to call.
\<close>

definition contact_ready ::
  "(WsState \<times> WsEnv list) ws_net \<Rightarrow> string \<Rightarrow> WsState \<Rightarrow> WsEnv list \<Rightarrow> bool" where
  "contact_ready net r st es \<longleftrightarrow>
     length es = 6 \<and> issues (net_sha256 net) (es ! 0) \<and> issues (net_sha256 net) (es ! 3) \<and>
     truncate_id r \<noteq> Panic \<and> rl_wf (ws_rate_limiter st) \<and> rl_view (ws_rate_limiter st) (str_bytes r) = None \<and>
     6 \<le> unat (rl_capacity (ws_rate_limiter st)) \<and>
     env_instant (es ! 2) \<le> env_instant (es ! 1) + DEFAULT_PREKEY_TTL \<and>
     env_instant (es ! 5) \<le> env_instant (es ! 4) + DEFAULT_ENVELOPE_TTL"

lemma relay_carries:
  assumes net: "relay_net net from_str to_string" and ready: "contact_ready net r st es"
  shows "\<exists>c1 c2 c3 c4.
    WsRelayClient_publish_prekey net r bundle_bytes (relay_client st es) = (Return (Inr ()), c1) \<and>
    WsRelayClient_lookup_prekey net r c1 = (Inr bundle_bytes, c2) \<and>
    WsRelayClient_send_envelope net r envelope c2 = (Return (Inr ()), c3) \<and>
    WsRelayClient_pickup_envelope net r c3 = (Inr envelope, c4)"
proof -
  obtain e1 e2 e3 e4 e5 e6 where es: "es = [e1, e2, e3, e4, e5, e6]"
    using ready by (auto simp: contact_ready_def numeral_eq_Suc length_Suc_conv)
  have c: "issues (net_sha256 net) e1" "issues (net_sha256 net) e4" "truncate_id r \<noteq> Panic"
    "env_instant e3 \<le> env_instant e2 + DEFAULT_PREKEY_TTL" "env_instant e6 \<le> env_instant e5 + DEFAULT_ENVELOPE_TTL"
    using ready by (auto simp: contact_ready_def es)
  have l: "rl_ready (Suc (Suc (Suc 3))) (ws_rate_limiter st) (str_bytes r)"
    using ready by (simp add: contact_ready_def rl_ready_def)
  obtain st1 where 1: "WsRelayClient_publish_prekey net r bundle_bytes (relay_client st es) =
      (Return (Inr ()), relay_client st1 [e3, e4, e5, e6])"
    "rl_ready (Suc 3) (ws_rate_limiter st1) (str_bytes r)"
    "map_of (rs_inner (ws_prekeys st1)) (''prekey:'' @ r) = Some (bundle_bytes, env_instant e2 + DEFAULT_PREKEY_TTL)"
    unfolding es by (rule publish_step [OF net c(1,3) l])
  obtain st2 where 2: "WsRelayClient_lookup_prekey net r (relay_client st1 [e3, e4, e5, e6]) =
      (Inr bundle_bytes, relay_client st2 [e4, e5, e6])" "rl_ready 3 (ws_rate_limiter st2) (str_bytes r)"
    by (rule lookup_step [OF net 1(2,3) c(4)])
  have l2: "rl_ready (Suc (Suc 1)) (ws_rate_limiter st2) (str_bytes r)" using 2(2) by (simp add: numeral_eq_Suc)
  obtain st3 where 3: "WsRelayClient_send_envelope net r envelope (relay_client st2 [e4, e5, e6]) =
      (Return (Inr ()), relay_client st3 [e6])" "rl_ready 1 (ws_rate_limiter st3) (str_bytes r)"
    "map_of (rs_inner (ws_store st3)) r = Some (envelope, env_instant e5 + DEFAULT_ENVELOPE_TTL)"
    by (rule send_step [OF net c(2,3) l2])
  have l3: "rl_ready (Suc 0) (ws_rate_limiter st3) (str_bytes r)" using 3(2) by simp
  obtain st4 where "WsRelayClient_pickup_envelope net r (relay_client st3 [e6]) = (Inr envelope, relay_client st4 [])"
    by (rule pickup_step [OF net l3 3(3) c(5)])
  then show ?thesis using 1(1) 2(1) 3(1) by blast
qed

text \<open>
  C1: First contact works end to end over bytes: with libsignal, the primitives and the JSON layer
  as documented and a relay that admits the six requests, the bundle bytes the receiver publishes
  at the relay are those the sender looks up, they establish a session, and the message the
  sender encrypts on it, seals and sends is picked up, opened and decrypted by the receiver to the
  same plaintext.
\<close>

theorem first_contact_over_the_relay:
  fixes a b :: bytes and P :: prims
  defines "alice_id \<equiv> IdentityKeyPair_generate P a" and "bob_id \<equiv> IdentityKeyPair_generate P b"
  assumes "relay_net net from_str to_string" "contact_ready net r st es"
    and "ratchet_ok L S A R synced" "keys_serializable L S R w (as_libsignal bob_id)"
    and "crypto_ok P" "length (sr_nonce sr) = 12"
  shows "\<exists>bob bs c1 c2 alice alice' ct env c3 c4 bob'.
    create_receiver_session L S R w bob_id = Return (Inr bob) \<and>
    publish_bundle_bytes L S A R bob = Return (Inr bs) \<and>
    WsRelayClient_publish_prekey net r bs (relay_client st es) = (Return (Inr ()), c1) \<and>
    WsRelayClient_lookup_prekey net r c1 = (Inr bs, c2) \<and>
    establish_session_from_bundle L S R now rnd alice_id bs = Return (Inr alice) \<and>
    wasm_encrypt_message R (fst p) (snd p) m alice = (Inr ct, alice') \<and>
    sealed_sender_seal P sr alice_id (ikp_public bob_id) ct = Inr env \<and>
    WsRelayClient_send_envelope net r env c2 = (Return (Inr ()), c3) \<and>
    WsRelayClient_pickup_envelope net r c3 = (Inr env, c4) \<and>
    sealed_sender_open P bob_id env = Inr ct \<and>
    wasm_decrypt_message L R q ct bob = Return (Inr m, bob')"
proof -
  obtain bob bs alice where s: "create_receiver_session L S R w bob_id = Return (Inr bob)"
    "publish_bundle_bytes L S A R bob = Return (Inr bs)"
    "establish_session_from_bundle L S R now rnd alice_id bs = Return (Inr alice)" "session_linked R synced alice bob"
    using establish_linked_bytes [OF assms(5,6)] by blast
  obtain ct alice' bob' where t: "wasm_encrypt_message R (fst p) (snd p) m alice = (Inr ct, alice')"
    "wasm_decrypt_message L R q ct bob = Return (Inr m, bob')"
    using wasm_channel.transfer [OF assms(5) s(4)] by blast
  obtain env where e: "sealed_sender_seal P sr alice_id (ikp_public bob_id) ct = Inr env" "sealed_sender_open P bob_id env = Inr ct"
    using sender_box.seal_open [of P bob_id "(sr, alice_id)" ct] assms(7,8)
    by (auto simp: sender_rand_ok_def seal_rand_ok_def alice_id_def bob_id_def)
  obtain c1 c2 c3 c4 where "WsRelayClient_publish_prekey net r bs (relay_client st es) = (Return (Inr ()), c1)"
    "WsRelayClient_lookup_prekey net r c1 = (Inr bs, c2)"
    "WsRelayClient_send_envelope net r env c2 = (Return (Inr ()), c3)"
    "WsRelayClient_pickup_envelope net r c3 = (Inr env, c4)"
    using relay_carries [OF assms(3,4)] by blast
  then show ?thesis using s(1-3) t e by blast
qed

theorem first_contact_over_the_relay_witness:
  "\<exists>bob bs alice ct env c1 c2 c3 c4 bob' alice'.
    WsRelayClient_publish_prekey demo_net ''bob'' bs (relay_client (WsState_new 10) (replicate 6 demo_env16)) =
      (Return (Inr ()), c1) \<and>
    WsRelayClient_lookup_prekey demo_net ''bob'' c1 = (Inr bs, c2) \<and>
    establish_session_from_bundle demo_session demo_keys demo_ratchet 0 [] (IdentityKeyPair_generate demo_prims [8]) bs =
      Return (Inr alice) \<and>
    wasm_encrypt_message demo_ratchet 0 [] [104, 105] alice = (Inr ct, alice') \<and>
    WsRelayClient_send_envelope demo_net ''bob'' env c2 = (Return (Inr ()), c3) \<and>
    WsRelayClient_pickup_envelope demo_net ''bob'' c3 = (Inr env, c4) \<and>
    sealed_sender_open demo_prims (IdentityKeyPair_generate demo_prims [9]) env = Inr ct \<and>
    wasm_decrypt_message demo_session demo_ratchet [] ct bob = Return (Inr [104, 105], bob')"
proof -
  let ?w = "\<lparr>br_now = 0, br_signed_secret = [1], br_signed_rnd = [], br_kyber_secret = [2], br_kyber_rnd = [],
        br_one_time_secrets = (\<lambda>_. [3])\<rparr>"
  let ?sr = "\<lparr>sr_eph = [7], sr_nonce = replicate 12 2\<rparr>"
  have ready: "contact_ready demo_net ''bob'' (WsState_new 10) (replicate 6 demo_env16)"
    by (simp add: contact_ready_def demo_issues demo_relay_limiter truncate_id_def)
  have ser: "keys_serializable demo_session demo_keys demo_ratchet ?w (as_libsignal (IdentityKeyPair_generate demo_prims [9]))"
    by (simp add: keys_serializable_def demo_session_def demo_keys_def demo_ratchet_def public_identity_def
        as_libsignal_def IdentityKeyPair_generate_def)
  have "length (sr_nonce ?sr) = 12" by simp
  from first_contact_over_the_relay [OF demo_relay_net ready demo_ratchet_ok ser demo_crypto_ok this,
      of 0 "[]" "[8]" "(0, [])" "[104, 105]" "[]"]
  show ?thesis unfolding fst_conv snd_conv by blast
qed

end
